(* ===== verification/Prelude.thy ===== *)
theory Prelude
  imports Main "HOL-Library.Sublist" "HOL-Library.Word" "HOL-Library.Char_ord"
    "HOL-Library.List_Lexorder"
begin

section \<open>Shared vocabulary of the development\<close>

text \<open>
  This theory holds what every component uses and no component owns: insertion-ordered
  Python dictionaries as association lists, the error monad that stands for raising and
  propagating an exception, and the \<^verbatim>\<open>str\<close> methods the sources call.

  Python strings are modelled as \<^typ>\<open>string\<close> with one character per code point, so the
  model covers the strings over U+0000 .. U+00FF; \<open>lower_char\<close>, \<open>is_space\<close> and
  \<open>is_digit\<close> agree with Python on that whole range. Dictionaries keep Python's insertion
  order: overwriting a key keeps its position, a new key goes to the end.

  The locale \<open>keyed_store\<close> is the contract the dictionary-like classes of the program
  promise (\<^verbatim>\<open>dict\<close>, \<^verbatim>\<open>CaseInsensitiveDict\<close>, \<^verbatim>\<open>CookieJar\<close>): each of them
  interprets it in its own theory. The registry of fingerprints and the configuration are plain dictionaries.
\<close>

named_theorems py_dict "facts on dictionaries as association lists"
named_theorems py_res "facts on results that may be an exception"
named_theorems py_str "facts on Python strings"

subsection \<open>Dictionaries\<close>

type_synonym ('k, 'v) dict = "('k \<times> 'v) list"

fun dset :: "('k, 'v) dict \<Rightarrow> 'k \<Rightarrow> 'v \<Rightarrow> ('k, 'v) dict" where
  "dset [] k v = [(k, v)]"
| "dset ((a, b) # d) k v = (if a = k then (a, v) # d else (a, b) # dset d k v)"

fun ddel :: "('k, 'v) dict \<Rightarrow> 'k \<Rightarrow> ('k, 'v) dict" where
  "ddel [] k = []"
| "ddel ((a, b) # d) k = (if a = k then d else (a, b) # ddel d k)"

abbreviation dkeys :: "('k, 'v) dict \<Rightarrow> 'k list" where
  "dkeys d \<equiv> map fst d"

abbreviation dvals :: "('k, 'v) dict \<Rightarrow> 'v list" where
  "dvals d \<equiv> map snd d"

abbreviation dhas :: "('k, 'v) dict \<Rightarrow> 'k \<Rightarrow> bool" where
  "dhas d k \<equiv> map_of d k \<noteq> None"

definition dget_or :: "('k, 'v) dict \<Rightarrow> 'k \<Rightarrow> 'v \<Rightarrow> 'v" where
  "dget_or d k dflt = (case map_of d k of None \<Rightarrow> dflt | Some v \<Rightarrow> v)"

fun dupdate :: "('k, 'v) dict \<Rightarrow> ('k, 'v) dict \<Rightarrow> ('k, 'v) dict" where
  "dupdate d [] = d"
| "dupdate d ((k, v) # e) = dupdate (dset d k v) e"

lemma map_of_dset [simp, py_dict]: "map_of (dset d k v) = (map_of d)(k \<mapsto> v)"
  by (induction d k v rule: dset.induct) auto

lemma dkeys_dset: "dkeys (dset d k v) = (if k \<in> set (dkeys d) then dkeys d else dkeys d @ [k])"
  by (induction d k v rule: dset.induct) auto

lemma distinct_dset [simp, intro]: "distinct (dkeys d) \<Longrightarrow> distinct (dkeys (dset d k v))"
  by (simp add: dkeys_dset del: map_map)

lemma set_dkeys_ddel: "set (dkeys (ddel d k)) \<subseteq> set (dkeys d)"
  by (induction d k rule: ddel.induct) auto

lemma distinct_ddel [simp, intro]: "distinct (dkeys d) \<Longrightarrow> distinct (dkeys (ddel d k))"
proof (induction d k rule: ddel.induct)
  case (2 a b d k)
  then show ?case using set_dkeys_ddel [of d k] by auto
qed simp

lemma map_of_ddel [py_dict]:
  "distinct (dkeys d) \<Longrightarrow> map_of (ddel d k) = (map_of d)(k := None)"
proof (induction d k rule: ddel.induct)
  case (2 a b d k)
  then show ?case
    by (auto simp: fun_eq_iff map_of_eq_None_iff)
qed (simp add: fun_eq_iff)

lemma ddel_absent [simp]: "map_of d k = None \<Longrightarrow> ddel d k = d"
  by (induction d k rule: ddel.induct) (auto split: if_splits)

lemma dset_not_Nil [simp]: "dset d k v \<noteq> []"
  by (induction d k v rule: dset.induct) auto

lemma length_dset: "length (dset d k v) = (if dhas d k then length d else Suc (length d))"
  by (induction d k v rule: dset.induct) auto

lemma set_dset_subset: "set (dset d k v) \<subseteq> insert (k, v) (set d)"
  by (induction d k v rule: dset.induct) auto

lemma set_ddel_subset: "set (ddel d k) \<subseteq> set d"
  by (induction d k rule: ddel.induct) auto

lemma dset_dset_same [simp]: "dset (dset d k v) k w = dset d k w"
  by (induction d k v rule: dset.induct) auto

lemma map_of_dupdate [py_dict]: "map_of (dupdate d e) = map_of d ++ map_of (rev e)"
proof (induction d e rule: dupdate.induct)
  case (2 d k v e)
  then show ?case by (simp add: map_add_upd_left fun_eq_iff map_add_def split: option.splits)
qed simp

lemma distinct_dupdate [simp, intro]: "distinct (dkeys d) \<Longrightarrow> distinct (dkeys (dupdate d e))"
  by (induction d e rule: dupdate.induct) simp_all

lemma map_of_rev_distinct:
  "distinct (dkeys d) \<Longrightarrow> map_of (rev d) = map_of d"
  by (metis distinct_rev map_of_inject_set rev_map set_rev)

lemma map_of_dupdate_distinct [py_dict]:
  "distinct (dkeys e) \<Longrightarrow> map_of (dupdate d e) = map_of d ++ map_of e"
  by (simp add: map_of_dupdate map_of_rev_distinct)

lemma map_of_filter_key: "map_of (filter (\<lambda>(k, _). P k) d) x = (if P x then map_of d x else None)"
  by (induction d) auto

lemma dget_or_simps [simp]:
  "map_of d k = None \<Longrightarrow> dget_or d k x = x"
  "map_of d k = Some v \<Longrightarrow> dget_or d k x = v"
  by (simp_all add: dget_or_def)

subsection \<open>The contract of the dictionary-like classes\<close>

text \<open>
  \<open>norm\<close> says which keys the class identifies (equality for a plain dictionary, equality
  up to case for HTTP headers); \<open>ok\<close> is the representation invariant.
\<close>

locale keyed_store =
  fixes empty :: 's
    and put :: "'s \<Rightarrow> 'k \<Rightarrow> 'v \<Rightarrow> 's"
    and remove :: "'s \<Rightarrow> 'k \<Rightarrow> 's"
    and lookup :: "'s \<Rightarrow> 'k \<Rightarrow> 'v option"
    and norm :: "'k \<Rightarrow> 'n"
    and ok :: "'s \<Rightarrow> bool"
  assumes ok_empty: "ok empty"
    and ok_put: "ok s \<Longrightarrow> ok (put s k v)"
    and ok_remove: "ok s \<Longrightarrow> ok (remove s k)"
    and lookup_empty: "lookup empty k = None"
    and lookup_put: "ok s \<Longrightarrow> lookup (put s k v) k' = (if norm k = norm k' then Some v else lookup s k')"
    and lookup_remove: "ok s \<Longrightarrow> lookup (remove s k) k' = (if norm k = norm k' then None else lookup s k')"
begin

fun put_all :: "'s \<Rightarrow> ('k \<times> 'v) list \<Rightarrow> 's" where
  "put_all s [] = s"
| "put_all s ((k, v) # kvs) = put_all (put s k v) kvs"

lemma ok_put_all: "ok s \<Longrightarrow> ok (put_all s kvs)"
  by (induction s kvs rule: put_all.induct) (simp_all add: ok_put)

lemma lookup_put_all_absent:
  "ok s \<Longrightarrow> norm k \<notin> norm ` fst ` set kvs \<Longrightarrow> lookup (put_all s kvs) k = lookup s k"
  by (induction s kvs rule: put_all.induct) (auto simp: ok_put lookup_put)

lemma lookup_put_all_last:
  assumes "ok s" "norm k' = norm k" "norm k \<notin> norm ` fst ` set kvs"
  shows "lookup (put_all s (pre @ (k', v) # kvs)) k = Some v"
  using assms
proof (induction pre arbitrary: s)
  case Nil
  then show ?case by (simp add: lookup_put_all_absent ok_put lookup_put)
next
  case (Cons p pre)
  then show ?case by (cases p) (simp add: ok_put)
qed

lemma put_all_append: "put_all s (kvs @ kvs') = put_all (put_all s kvs) kvs'"
  by (induction s kvs rule: put_all.induct) simp_all

text \<open>Later pairs win over earlier ones and over the store they are put into.\<close>

lemma lookup_put_all:
  "ok s \<Longrightarrow> lookup (put_all s kvs) k = (case lookup (put_all empty kvs) k of None \<Rightarrow> lookup s k | Some v \<Rightarrow> Some v)"
proof (induction kvs rule: rev_induct)
  case (snoc kv kvs)
  then show ?case
    by (cases kv) (simp add: put_all_append lookup_put ok_put_all ok_empty split: option.splits)
qed (simp add: lookup_empty)

lemma lookup_put_overwrite: "ok s \<Longrightarrow> lookup (put (put s k v) k w) k' = lookup (put s k w) k'"
  by (simp add: ok_put lookup_put)

lemma lookup_put_commute:
  "ok s \<Longrightarrow> norm k \<noteq> norm l \<Longrightarrow> lookup (put (put s k v) l w) k' = lookup (put (put s l w) k v) k'"
  by (auto simp: ok_put lookup_put)

lemma lookup_remove_put: "ok s \<Longrightarrow> lookup (remove (put s k v) k) k' = lookup (remove s k) k'"
  by (simp add: ok_put lookup_put lookup_remove)

end

interpretation pydict: keyed_store "[] :: ('k, 'v) dict" dset ddel map_of "\<lambda>k. k"
  "\<lambda>d. distinct (dkeys d)"
  by unfold_locales (auto simp: map_of_ddel)

subsection \<open>Searching a list\<close>

lemma find_SomeD: "find P xs = Some x \<Longrightarrow> P x \<and> x \<in> set xs"
  by (induction xs) (auto split: if_splits)

lemma find_append: "find P (xs @ ys) = (case find P xs of None \<Rightarrow> find P ys | Some x \<Rightarrow> Some x)"
  by (induction xs) auto

subsection \<open>Results that may be an exception\<close>

fun bindE :: "'e + 'a \<Rightarrow> ('a \<Rightarrow> 'e + 'b) \<Rightarrow> 'e + 'b" where
  "bindE (Inl e) f = Inl e"
| "bindE (Inr x) f = f x"

fun mapE :: "('a \<Rightarrow> 'e + 'b) \<Rightarrow> 'a list \<Rightarrow> 'e + 'b list" where
  "mapE f [] = Inr []"
| "mapE f (x # xs) = bindE (f x) (\<lambda>y. bindE (mapE f xs) (\<lambda>ys. Inr (y # ys)))"

fun_cases bindE_InlE: "bindE r f = Inl e"

lemma bindE_eq_Inr [simp]: "bindE r f = Inr y \<longleftrightarrow> (\<exists>x. r = Inr x \<and> f x = Inr y)"
  by (cases r) auto

lemma bindE_eq_Inl: "bindE r f = Inl e \<longleftrightarrow> r = Inl e \<or> (\<exists>x. r = Inr x \<and> f x = Inl e)"
  by (cases r) auto

lemma bindE_assoc [py_res]: "bindE (bindE r f) g = bindE r (\<lambda>x. bindE (f x) g)"
  by (cases r) auto

lemma bindE_Inr_right [simp]: "bindE r Inr = r"
  by (cases r) auto

lemma mapE_all_Inr [py_res]: "(\<And>x. x \<in> set xs \<Longrightarrow> f x = Inr (g x)) \<Longrightarrow> mapE f xs = Inr (map g xs)"
  by (induction xs) auto

lemma mapE_length: "mapE f xs = Inr ys \<Longrightarrow> length ys = length xs"
  by (induction xs arbitrary: ys) auto

lemma mapE_nth: "mapE f xs = Inr ys \<Longrightarrow> i < length xs \<Longrightarrow> f (xs ! i) = Inr (ys ! i)"
proof (induction xs arbitrary: ys i)
  case (Cons x xs)
  then show ?case by (cases i) auto
qed simp

lemma mapE_append [py_res]:
  "mapE f (xs @ ys) = bindE (mapE f xs) (\<lambda>us. bindE (mapE f ys) (\<lambda>vs. Inr (us @ vs)))"
  by (induction xs) (auto simp: bindE_assoc)

subsection \<open>Strings\<close>

definition lower_char :: "char \<Rightarrow> char" where
  "lower_char c = (let n = of_char c :: nat in
     if (65 \<le> n \<and> n \<le> 90) \<or> (192 \<le> n \<and> n \<le> 222 \<and> n \<noteq> 215) then char_of (n + 32) else c)"

definition lower :: "string \<Rightarrow> string" where
  "lower s = map lower_char s"

definition is_digit :: "char \<Rightarrow> bool" where
  "is_digit c = (let n = of_char c :: nat in 48 \<le> n \<and> n \<le> 57)"

definition is_space :: "char \<Rightarrow> bool" where
  "is_space c = (let n = of_char c :: nat in
     (9 \<le> n \<and> n \<le> 13) \<or> (28 \<le> n \<and> n \<le> 32) \<or> n = 133 \<or> n = 160)"

definition startswith :: "string \<Rightarrow> string \<Rightarrow> bool" where
  "startswith s p = prefix p s"

definition endswith :: "string \<Rightarrow> string \<Rightarrow> bool" where
  "endswith s p = suffix p s"

definition contains :: "string \<Rightarrow> string \<Rightarrow> bool" where
  "contains s p = sublist p s"

definition lstrip_with :: "(char \<Rightarrow> bool) \<Rightarrow> string \<Rightarrow> string" where
  "lstrip_with p s = dropWhile p s"

definition rstrip_with :: "(char \<Rightarrow> bool) \<Rightarrow> string \<Rightarrow> string" where
  "rstrip_with p s = rev (dropWhile p (rev s))"

definition strip_with :: "(char \<Rightarrow> bool) \<Rightarrow> string \<Rightarrow> string" where
  "strip_with p s = rstrip_with p (lstrip_with p s)"

definition strip :: "string \<Rightarrow> string" where
  "strip s = strip_with is_space s"

definition single_quoted :: "string \<Rightarrow> string" where
  "single_quoted s = char_of (39 :: nat) # s @ [char_of (39 :: nat)]"

lemma length_lower [simp]: "length (lower s) = length s"
  by (simp add: lower_def)

lemma lower_append [simp]: "lower (s @ t) = lower s @ lower t"
  by (simp add: lower_def)

lemma lower_Nil [simp]: "lower [] = []" and lower_Cons [simp]: "lower (c # s) = lower_char c # lower s"
  by (simp_all add: lower_def)

lemma lower_char_idem [simp]: "lower_char (lower_char c) = lower_char c"
proof -
  have "(of_char c :: nat) < 256" using nat_of_char_less_256 [of c] by simp
  then show ?thesis by (auto simp: lower_char_def Let_def)
qed

lemma lower_idem [simp, py_str]: "lower (lower s) = lower s"
  by (simp add: lower_def comp_def)

lemma rstrip_with_no_trailing: "s \<noteq> [] \<Longrightarrow> rstrip_with p s = t @ [c] \<Longrightarrow> \<not> p c"
  unfolding rstrip_with_def
  by (metis hd_dropWhile list.sel(1) rev_append rev_rev_ident rev_singleton_conv append_Cons
      append_Nil list.discI)

lemma sublist_eval [py_str]:
  "sublist [] ys" "\<not> sublist (x # xs) []"
  "sublist (x # xs) (y # ys) = (prefix (x # xs) (y # ys) \<or> sublist (x # xs) ys)"
  by (simp_all add: sublist_Cons_right)

end
