(* ===== verification/Exceptions.thy ===== *)
theory Exceptions
  imports Prelude
begin

section \<open>The exception hierarchy (\<^verbatim>\<open>cycletls/exceptions.py\<close>)\<close>

text \<open>
  An exception is its class and its message. \<open>exc_class\<close> has the classes of
  \<^verbatim>\<open>exceptions.py\<close>, the two the connection modules add
  (\<^verbatim>\<open>WebSocketError\<close>, \<^verbatim>\<open>SSEError\<close>) and the builtin ones the modelled code can
  raise; \<open>base_class\<close> is the class statement's base and \<open>issubclass\<close> the test an
  \<^verbatim>\<open>except\<close> clause makes. The aliases \<^verbatim>\<open>ConnectTimeout\<close> and
  \<^verbatim>\<open>ReadTimeout\<close> are abbreviations, as in the source they are the same class.
\<close>

datatype exc_class =
    CycleTLSError | RequestException | HTTPError | ConnectionError | Timeout
  | TooManyRedirects | InvalidURL | TLSError | ProxyError | InvalidHeader
  | WebSocketError | SSEError
  | Exception | ArithmeticError | OverflowError | AttributeError | TypeError
  | LookupError | KeyError | IndexError | OSError | RuntimeError | ValueError
  | UnicodeError | AsyncTimeoutError

abbreviation ConnectTimeout :: exc_class where "ConnectTimeout \<equiv> Timeout"
abbreviation ReadTimeout :: exc_class where "ReadTimeout \<equiv> Timeout"

fun base_class :: "exc_class \<Rightarrow> exc_class option" where
  "base_class CycleTLSError = Some Exception"
| "base_class RequestException = Some CycleTLSError"
| "base_class HTTPError = Some RequestException"
| "base_class ConnectionError = Some RequestException"
| "base_class Timeout = Some RequestException"
| "base_class TooManyRedirects = Some RequestException"
| "base_class InvalidURL = Some RequestException"
| "base_class TLSError = Some RequestException"
| "base_class ProxyError = Some RequestException"
| "base_class InvalidHeader = Some RequestException"
| "base_class WebSocketError = Some CycleTLSError"
| "base_class SSEError = Some CycleTLSError"
| "base_class Exception = None"
| "base_class OverflowError = Some ArithmeticError"
| "base_class KeyError = Some LookupError"
| "base_class IndexError = Some LookupError"
| "base_class UnicodeError = Some ValueError"
| "base_class _ = Some Exception"

fun class_depth :: "exc_class \<Rightarrow> nat" where
  "class_depth Exception = 0"
| "class_depth CycleTLSError = 1"
| "class_depth RequestException = 2"
| "class_depth WebSocketError = 2"
| "class_depth SSEError = 2"
| "class_depth ArithmeticError = 1"
| "class_depth LookupError = 1"
| "class_depth ValueError = 1"
| "class_depth OSError = 1"
| "class_depth RuntimeError = 1"
| "class_depth AttributeError = 1"
| "class_depth TypeError = 1"
| "class_depth AsyncTimeoutError = 1"
| "class_depth _ = 3"

function issubclass :: "exc_class \<Rightarrow> exc_class \<Rightarrow> bool" where
  "issubclass c d = (c = d \<or> (case base_class c of None \<Rightarrow> False | Some b \<Rightarrow> issubclass b d))"
  by pat_completeness auto
termination
proof (relation "measure (class_depth \<circ> fst)")
  fix c d b
  assume "base_class c = Some b"
  then show "((b, d), (c, d)) \<in> measure (class_depth \<circ> fst)"
    by (cases c) auto
qed auto

declare issubclass.simps [simp del]

datatype pyexc = Exc (exc_class_of: exc_class) (exc_message: string)

type_synonym 'a res = "pyexc + 'a"

text \<open>\<^verbatim>\<open>isinstance(exc, cls)\<close>, as an \<^verbatim>\<open>except cls:\<close> clause tests it.\<close>

definition isinstance_exc :: "pyexc \<Rightarrow> exc_class \<Rightarrow> bool" where
  "isinstance_exc e c = issubclass (exc_class_of e) c"

lemma issubclass_refl [simp]: "issubclass c c"
  by (simp add: issubclass.simps)

lemma issubclass_base: "base_class c = Some b \<Longrightarrow> issubclass b d \<Longrightarrow> issubclass c d"
  by (subst issubclass.simps) simp

lemma issubclass_Exception [simp]: "issubclass Exception d \<longleftrightarrow> d = Exception"
  by (subst issubclass.simps) auto

lemma issubclass_trans: "issubclass a b \<Longrightarrow> issubclass b c \<Longrightarrow> issubclass a c"
proof (induction a b rule: issubclass.induct)
  case (1 a b)
  show ?case
  proof (cases "a = b")
    case True
    with "1.prems" show ?thesis by simp
  next
    case False
    with "1.prems"(1) obtain p where p: "base_class a = Some p" "issubclass p b"
      by (auto simp: issubclass.simps [of a b] split: option.splits)
    with "1.IH" [of p] False "1.prems"(2) have "issubclass p c" by blast
    with p(1) show ?thesis by (rule issubclass_base)
  qed
qed

lemma issubclass_RequestException_eval [simp]:
  "issubclass c RequestException = (c \<in> {RequestException, HTTPError, ConnectionError, Timeout,
     TooManyRedirects, InvalidURL, TLSError, ProxyError, InvalidHeader})"
  by (cases c) (simp_all add: issubclass.simps)

lemma issubclass_CycleTLSError_eval [simp]:
  "issubclass c CycleTLSError = (c \<in> {CycleTLSError, RequestException, HTTPError, ConnectionError,
     Timeout, TooManyRedirects, InvalidURL, TLSError, ProxyError, InvalidHeader, WebSocketError,
     SSEError})"
  by (cases c) (simp_all add: issubclass.simps)

lemma issubclass_RuntimeError_eval [simp]: "issubclass c RuntimeError = (c = RuntimeError)"
  by (cases c) (simp_all add: issubclass.simps)

lemma isinstance_Exception [simp]: "isinstance_exc e Exception"
proof -
  have "issubclass c Exception" for c by (cases c) (simp_all add: issubclass.simps [of _ Exception])
  then show ?thesis by (simp add: isinstance_exc_def)
qed

end
