(* ===== verification/Pyval.thy ===== *)
theory Pyval
  imports Exceptions
begin

section \<open>Dynamic values\<close>

text \<open>
  Request options travel through the program as \<^verbatim>\<open>**kwargs: Any\<close>, and the data from
  the Go library arrives as decoded msgpack, so the model has one type of dynamic values,
  \<open>pyval\<close>, with a constructor per Python type the sources test for. A cookie
  (\<^verbatim>\<open>schema.Cookie\<close>) is a value too, since cookies travel inside \<^verbatim>\<open>kwargs\<close>; its
  fields are dynamic because the dataclass does not check them. Dictionaries with string
  keys are \<open>kwargs\<close>.

  A finite float is represented by the decimal \<open>m * 10 ^ e\<close> that its \<^verbatim>\<open>repr\<close> prints.
  \<open>py_truth\<close> is truth testing, \<open>py_str\<close> is \<^verbatim>\<open>str()\<close>, \<open>py_repr\<close> is
  \<^verbatim>\<open>repr()\<close>, \<open>py_or\<close> the operator \<^verbatim>\<open>or\<close>.
\<close>

type_synonym byte = "8 word"
type_synonym bytes = "byte list"

datatype Protocol = HTTP1 | HTTP2 | HTTP3 | WEBSOCKET | SSE

fun protocol_value :: "Protocol \<Rightarrow> string" where
  "protocol_value HTTP1 = ''http1''"
| "protocol_value HTTP2 = ''http2''"
| "protocol_value HTTP3 = ''http3''"
| "protocol_value WEBSOCKET = ''websocket''"
| "protocol_value SSE = ''sse''"

datatype pyfloat = Fin (mantissa: int) (exponent: int) | PosInf | NegInf | NaN

datatype datetime = Datetime (dt_year: int) (dt_month: int) (dt_day: int) (dt_hour: int)
  (dt_minute: int) (dt_second: int) (dt_microsecond: int) (dt_utcoffset: "int option")

datatype 'v Cookie = Cookie (ck_name: 'v) (ck_value: 'v) (ck_path: 'v) (ck_domain: 'v)
  (ck_expires: 'v) (ck_max_age: 'v) (ck_secure: 'v) (ck_http_only: 'v) (ck_same_site: 'v)

datatype pyval =
    PNone
  | PBool bool
  | PInt int
  | PFloat pyfloat
  | PStr string
  | PBytes bytes
  | PList "pyval list"
  | PTuple "pyval list"
  | PDict "(string \<times> pyval) list"
  | PDatetime datetime
  | PProtocol Protocol
  | PCookie "pyval Cookie"
  | PJar "(pyval \<times> pyval Cookie) list"

type_synonym kwargs = "(string, pyval) dict"
type_synonym cookie = "pyval Cookie"

text \<open>\<^verbatim>\<open>Cookie(name=.., value=..)\<close> with the dataclass defaults.\<close>

definition simple_cookie :: "pyval \<Rightarrow> pyval \<Rightarrow> cookie" where
  "simple_cookie n v = Cookie n v PNone PNone PNone PNone (PBool False) (PBool False) PNone"

subsection \<open>Truth, \<^verbatim>\<open>or\<close>, \<^verbatim>\<open>dict.get\<close>\<close>

fun py_truth :: "pyval \<Rightarrow> bool" where
  "py_truth PNone = False"
| "py_truth (PBool b) = b"
| "py_truth (PInt n) = (n \<noteq> 0)"
| "py_truth (PFloat (Fin m e)) = (m \<noteq> 0)"
| "py_truth (PFloat _) = True"
| "py_truth (PStr s) = (s \<noteq> [])"
| "py_truth (PBytes b) = (b \<noteq> [])"
| "py_truth (PList xs) = (xs \<noteq> [])"
| "py_truth (PTuple xs) = (xs \<noteq> [])"
| "py_truth (PDict d) = (d \<noteq> [])"
| "py_truth (PDatetime _) = True"
| "py_truth (PProtocol _) = True"
| "py_truth (PCookie _) = True"
| "py_truth (PJar j) = (j \<noteq> [])"

definition py_or :: "pyval \<Rightarrow> pyval \<Rightarrow> pyval" where
  "py_or a b = (if py_truth a then a else b)"

definition dget :: "kwargs \<Rightarrow> string \<Rightarrow> pyval" where
  "dget d k = dget_or d k PNone"

lemma py_or_simps [simp]: "py_or PNone b = b" "py_truth a \<Longrightarrow> py_or a b = a"
  "\<not> py_truth a \<Longrightarrow> py_or a b = b"
  by (simp_all add: py_or_def)

lemma dget_simps [simp]:
  "map_of d k = None \<Longrightarrow> dget d k = PNone"
  "map_of d k = Some v \<Longrightarrow> dget d k = v"
  by (simp_all add: dget_def)

lemma dget_dset [simp]: "dget (dset d k v) l = (if l = k then v else dget d l)"
  by (simp add: dget_def dget_or_def)

subsection \<open>Numbers\<close>

fun is_number :: "pyval \<Rightarrow> bool" where
  "is_number (PBool _) = True"
| "is_number (PInt _) = True"
| "is_number (PFloat _) = True"
| "is_number _ = False"

fun py_positive :: "pyval \<Rightarrow> bool res" where
  "py_positive (PBool b) = Inr b"
| "py_positive (PInt n) = Inr (n > 0)"
| "py_positive (PFloat (Fin m e)) = Inr (m > 0)"
| "py_positive (PFloat PosInf) = Inr True"
| "py_positive (PFloat NegInf) = Inr False"
| "py_positive (PFloat NaN) = Inr False"
| "py_positive _ = Inl (Exc TypeError ''> not supported'')"

text \<open>\<^verbatim>\<open>math.ceil\<close>.\<close>

fun py_ceil :: "pyval \<Rightarrow> int res" where
  "py_ceil (PBool b) = Inr (if b then 1 else 0)"
| "py_ceil (PInt n) = Inr n"
| "py_ceil (PFloat (Fin m e)) =
     Inr (if e \<ge> 0 then m * 10 ^ nat e else - ((- m) div 10 ^ nat (- e)))"
| "py_ceil (PFloat PosInf) = Inl (Exc OverflowError ''cannot convert float infinity to integer'')"
| "py_ceil (PFloat NegInf) = Inl (Exc OverflowError ''cannot convert float infinity to integer'')"
| "py_ceil (PFloat NaN) = Inl (Exc ValueError ''cannot convert float NaN to integer'')"
| "py_ceil _ = Inl (Exc TypeError ''must be real number'')"

subsection \<open>\<^verbatim>\<open>str()\<close> and \<^verbatim>\<open>repr()\<close>\<close>

definition digit_char :: "nat \<Rightarrow> char" where
  "digit_char n = char_of (48 + n)"

fun nat_str :: "nat \<Rightarrow> string" where
  "nat_str n = (if n < 10 then [digit_char n] else nat_str (n div 10) @ [digit_char (n mod 10)])"

declare nat_str.simps [simp del]

definition int_str :: "int \<Rightarrow> string" where
  "int_str n = (if n < 0 then CHR ''-'' # nat_str (nat (- n)) else nat_str (nat n))"

text \<open>\<^verbatim>\<open>int(s)\<close> of a string of decimal digits.\<close>

definition nat_of_digits :: "string \<Rightarrow> nat" where
  "nat_of_digits s = foldl (\<lambda>n c. 10 * n + (of_char c - 48)) 0 s"

fun strip_zeros :: "nat \<Rightarrow> int \<Rightarrow> nat \<times> int" where
  "strip_zeros m e = (if m \<noteq> 0 \<and> m mod 10 = 0 then strip_zeros (m div 10) (e + 1) else (m, e))"

declare strip_zeros.simps [simp del]

definition pad_left :: "nat \<Rightarrow> string \<Rightarrow> string" where
  "pad_left n s = replicate (n - length s) (CHR ''0'') @ s"

definition float_digits_repr :: "nat \<Rightarrow> int \<Rightarrow> string" where
  "float_digits_repr m0 e0 = (let (m, e) = strip_zeros m0 e0; ds = nat_str m;
       p = (if m = 0 then 1 else int (length ds) + e) in
     if -4 < p \<and> p \<le> 16 then
       (if m = 0 then ''0.0''
        else if p \<le> 0 then ''0.'' @ replicate (nat (- p)) (CHR ''0'') @ ds
        else if p \<ge> int (length ds) then ds @ replicate (nat e) (CHR ''0'') @ ''.0''
        else take (nat p) ds @ ''.'' @ drop (nat p) ds)
     else take 1 ds @ (if length ds = 1 then [] else CHR ''.'' # drop 1 ds) @ ''e'' @
       (if p - 1 < 0 then ''-'' else ''+'') @ pad_left 2 (nat_str (nat \<bar>p - 1\<bar>)))"

fun float_repr :: "pyfloat \<Rightarrow> string" where
  "float_repr (Fin m e) =
     (if m < 0 then CHR ''-'' # float_digits_repr (nat (- m)) e else float_digits_repr (nat m) e)"
| "float_repr PosInf = ''inf''"
| "float_repr NegInf = ''-inf''"
| "float_repr NaN = ''nan''"

definition hex_digit :: "nat \<Rightarrow> char" where
  "hex_digit n = ''0123456789abcdef'' ! (n mod 16)"

definition escape_char :: "char \<Rightarrow> char \<Rightarrow> bool \<Rightarrow> string" where
  "escape_char q c ascii = (let n = of_char c :: nat in
     if c = q \<or> n = 92 then [char_of (92 :: nat), c]
     else if n = 9 then [char_of (92 :: nat), CHR ''t'']
     else if n = 10 then [char_of (92 :: nat), CHR ''n'']
     else if n = 13 then [char_of (92 :: nat), CHR ''r'']
     else if n < 32 \<or> n = 127 \<or> (128 \<le> n \<and> (ascii \<or> n \<le> 160 \<or> n = 173))
     then [char_of (92 :: nat), CHR ''x'', hex_digit (n div 16), hex_digit n]
     else [c])"

definition quote_for :: "string \<Rightarrow> char" where
  "quote_for s = (if char_of (39 :: nat) \<in> set s \<and> char_of (34 :: nat) \<notin> set s
     then char_of (34 :: nat) else char_of (39 :: nat))"

definition str_repr :: "string \<Rightarrow> string" where
  "str_repr s = (let q = quote_for s in q # concat (map (\<lambda>c. escape_char q c False) s) @ [q])"

definition bytes_repr :: "bytes \<Rightarrow> string" where
  "bytes_repr b = (let s = map (\<lambda>w. char_of (unat w)) b; q = quote_for s in
     CHR ''b'' # q # concat (map (\<lambda>c. escape_char q c True) s) @ [q])"

fun join :: "string \<Rightarrow> string list \<Rightarrow> string" where
  "join sep [] = []"
| "join sep [x] = x"
| "join sep (x # y # xs) = x @ sep @ join sep (y # xs)"

fun protocol_member :: "Protocol \<Rightarrow> string" where
  "protocol_member HTTP1 = ''HTTP1''"
| "protocol_member HTTP2 = ''HTTP2''"
| "protocol_member HTTP3 = ''HTTP3''"
| "protocol_member WEBSOCKET = ''WEBSOCKET''"
| "protocol_member SSE = ''SSE''"

definition two_digits :: "int \<Rightarrow> string" where
  "two_digits n = pad_left 2 (nat_str (nat n))"

definition offset_str :: "int \<Rightarrow> string" where
  "offset_str off = (let a = \<bar>off\<bar> in (if off < 0 then ''-'' else ''+'') @
     two_digits (a div 3600) @ '':'' @ two_digits (a div 60 mod 60) @
     (if a mod 60 = 0 then [] else '':'' @ two_digits (a mod 60)))"

definition datetime_str :: "datetime \<Rightarrow> string" where
  "datetime_str d = pad_left 4 (nat_str (nat (dt_year d))) @ ''-'' @ two_digits (dt_month d) @ ''-'' @
     two_digits (dt_day d) @ '' '' @ two_digits (dt_hour d) @ '':'' @ two_digits (dt_minute d) @ '':'' @
     two_digits (dt_second d) @
     (if dt_microsecond d = 0 then [] else ''.'' @ pad_left 6 (nat_str (nat (dt_microsecond d)))) @
     (case dt_utcoffset d of None \<Rightarrow> [] | Some off \<Rightarrow> offset_str off)"

definition datetime_repr :: "datetime \<Rightarrow> string" where
  "datetime_repr d = ''datetime.datetime('' @ join '', '' (map int_str
       ([dt_year d, dt_month d, dt_day d, dt_hour d, dt_minute d] @
        (if dt_microsecond d \<noteq> 0 then [dt_second d, dt_microsecond d]
         else if dt_second d \<noteq> 0 then [dt_second d] else []))) @
     (case dt_utcoffset d of None \<Rightarrow> []
      | Some off \<Rightarrow> if off = 0 then '', tzinfo=datetime.timezone.utc''
          else '', tzinfo=datetime.timezone(datetime.timedelta('' @
            (if off < 0 then ''days=-1, seconds='' @ int_str (off + 86400)
             else ''seconds='' @ int_str off) @ ''))'') @ '')''"

fun py_str :: "pyval \<Rightarrow> string" and py_repr :: "pyval \<Rightarrow> string" where
  "py_str (PStr s) = s"
| "py_str (PDatetime d) = datetime_str d"
| "py_str (PProtocol p) = ''Protocol.'' @ protocol_member p"
| "py_str (PCookie (Cookie n v p d x a s h m)) = py_str n @ ''='' @ py_str v"
| "py_str (PJar j) = ''{'' @ join '', '' (map (\<lambda>(k, c). py_repr k @ '': '' @
     (case c of Cookie n v p d x a s h m \<Rightarrow> py_repr v)) j) @ ''}''"
| "py_str v = py_repr v"
| "py_repr PNone = ''None''"
| "py_repr (PBool b) = (if b then ''True'' else ''False'')"
| "py_repr (PInt n) = int_str n"
| "py_repr (PFloat f) = float_repr f"
| "py_repr (PStr s) = str_repr s"
| "py_repr (PBytes b) = bytes_repr b"
| "py_repr (PList xs) = ''['' @ join '', '' (map py_repr xs) @ '']''"
| "py_repr (PTuple xs) = (case xs of [x] \<Rightarrow> ''('' @ py_repr x @ '',)''
     | _ \<Rightarrow> ''('' @ join '', '' (map py_repr xs) @ '')'')"
| "py_repr (PDict d) =
     ''{'' @ join '', '' (map (\<lambda>(k, v). str_repr k @ '': '' @ py_repr v) d) @ ''}''"
| "py_repr (PDatetime d) = datetime_repr d"
| "py_repr (PProtocol p) =
     ''<Protocol.'' @ protocol_member p @ '': '' @ str_repr (protocol_value p) @ ''>''"
| "py_repr (PCookie (Cookie n v p d x a s h m)) = ''<Cookie '' @ py_str n @ ''='' @ py_str v @ '' for '' @
     (if py_truth d then py_str d else ''any domain'') @ ''>''"
| "py_repr (PJar j) = ''<CookieJar('' @ nat_str (length j) @ '' cookies)>''"

text \<open>Attribute access on a value that has no such attribute.\<close>

definition no_attribute :: "string \<Rightarrow> pyexc" where
  "no_attribute a = Exc AttributeError (''object has no attribute '' @ str_repr a)"

lemma nat_str_nonempty [simp]: "nat_str n \<noteq> []"
  by (subst nat_str.simps) simp

lemma of_char_digit_char [simp]: "n < 10 \<Longrightarrow> (of_char (digit_char n) :: nat) = 48 + n"
  by (simp add: digit_char_def)

lemma nat_of_digits_snoc [simp]: "nat_of_digits (s @ [c]) = 10 * nat_of_digits s + (of_char c - 48)"
  by (simp add: nat_of_digits_def)

lemma nat_of_digits_nat_str [simp]: "nat_of_digits (nat_str n) = n"
proof (induction n rule: nat_str.induct)
  case (1 n)
  show ?case
  proof (cases "n < 10")
    case True
    then show ?thesis by (subst nat_str.simps) (simp add: nat_of_digits_def)
  next
    case False
    with 1 have "nat_of_digits (nat_str (n div 10)) = n div 10" by simp
    with False show ?thesis by (subst nat_str.simps) simp
  qed
qed

lemma nat_str_inject [simp]: "nat_str m = nat_str n \<longleftrightarrow> m = n"
  by (metis nat_of_digits_nat_str)

lemma nat_str_digits: "c \<in> set (nat_str n) \<Longrightarrow> is_digit c"
proof (induction n rule: nat_str.induct)
  case (1 n)
  then show ?case
    by (cases "n < 10") (auto simp: nat_str.simps [of n] is_digit_def)
qed

end
