(* ===== verification/Structures.thy ===== *)
theory Structures
  imports Pyval
begin

section \<open>Header dictionaries and cookie jars (\<^verbatim>\<open>cycletls/structures.py\<close>)\<close>

text \<open>
  \<open>CaseInsensitiveDict\<close> is the class of the same name: \<open>cid_store\<close> is its
  \<^verbatim>\<open>_store\<close>, a dictionary from the lowered key to the pair of the key as last set and its
  value. \<open>CookieJar\<close> keeps \<^verbatim>\<open>_cookies\<close>, a dictionary from the name to the cookie.
  Both classes interpret the contract \<open>keyed_store\<close>. \<open>cid_ok\<close> and \<open>jar_ok\<close> are
  their representation invariants.
\<close>

subsection \<open>CaseInsensitiveDict\<close>

record 'v CaseInsensitiveDict =
  cid_store :: "(string, string \<times> 'v) dict"

definition key_error :: "string \<Rightarrow> pyexc" where
  "key_error k = Exc KeyError (str_repr k)"

definition cid_setitem :: "'v CaseInsensitiveDict \<Rightarrow> string \<Rightarrow> 'v \<Rightarrow> 'v CaseInsensitiveDict" where
  "cid_setitem d k v = d\<lparr>cid_store := dset (cid_store d) (lower k) (k, v)\<rparr>"

definition cid_getitem :: "'v CaseInsensitiveDict \<Rightarrow> string \<Rightarrow> 'v res" where
  "cid_getitem d k = (case map_of (cid_store d) (lower k) of
     None \<Rightarrow> Inl (key_error (lower k)) | Some kv \<Rightarrow> Inr (snd kv))"

definition cid_delitem :: "'v CaseInsensitiveDict \<Rightarrow> string \<Rightarrow> 'v CaseInsensitiveDict res" where
  "cid_delitem d k = (if dhas (cid_store d) (lower k)
     then Inr (d\<lparr>cid_store := ddel (cid_store d) (lower k)\<rparr>)
     else Inl (key_error (lower k)))"

definition cid_iter :: "'v CaseInsensitiveDict \<Rightarrow> string list" where
  "cid_iter d = map fst (dvals (cid_store d))"

definition cid_len :: "'v CaseInsensitiveDict \<Rightarrow> nat" where
  "cid_len d = length (cid_store d)"

definition cid_lower_items :: "'v CaseInsensitiveDict \<Rightarrow> (string \<times> 'v) list" where
  "cid_lower_items d = map (\<lambda>(lk, kv). (lk, snd kv)) (cid_store d)"

text \<open>\<^verbatim>\<open>MutableMapping.update\<close> assigns the pairs one after the other, keyword arguments last: those of the
  constructor are more pairs at the end of its argument.\<close>

fun cid_update :: "'v CaseInsensitiveDict \<Rightarrow> (string \<times> 'v) list \<Rightarrow> 'v CaseInsensitiveDict" where
  "cid_update d [] = d"
| "cid_update d ((k, v) # kvs) = cid_update (cid_setitem d k v) kvs"

definition cid_init :: "(string \<times> 'v) list \<Rightarrow> 'v CaseInsensitiveDict" where
  "cid_init data = cid_update \<lparr>cid_store = []\<rparr> data"

text \<open>\<^verbatim>\<open>Mapping.items\<close>: the keys of \<^verbatim>\<open>__iter__\<close>, each looked up.\<close>

definition cid_items :: "'v CaseInsensitiveDict \<Rightarrow> (string \<times> 'v) list" where
  "cid_items d = dvals (cid_store d)"

text \<open>Equality of two \<^verbatim>\<open>dict\<close> objects ignores their order.\<close>

definition dict_eq :: "('k, 'v) dict \<Rightarrow> ('k, 'v) dict \<Rightarrow> bool" where
  "dict_eq d e = (length d = length e \<and> list_all (\<lambda>(k, v). map_of e k = Some v) d)"

definition cid_eq :: "'v CaseInsensitiveDict \<Rightarrow> (string \<times> 'v) list \<Rightarrow> bool" where
  "cid_eq d other = dict_eq (cid_lower_items d) (cid_lower_items (cid_init other))"

definition cid_copy :: "'v CaseInsensitiveDict \<Rightarrow> 'v CaseInsensitiveDict" where
  "cid_copy d = cid_init (dvals (cid_store d))"

definition cid_repr :: "pyval CaseInsensitiveDict \<Rightarrow> string" where
  "cid_repr d = py_repr (PDict (cid_items d))"

definition cid_get :: "'v CaseInsensitiveDict \<Rightarrow> string \<Rightarrow> 'v \<Rightarrow> 'v" where
  "cid_get d k dflt = (case cid_getitem d k of Inl _ \<Rightarrow> dflt | Inr v \<Rightarrow> v)"

definition cid_ok :: "'v CaseInsensitiveDict \<Rightarrow> bool" where
  "cid_ok d = (distinct (dkeys (cid_store d)) \<and>
     (\<forall>(lk, k, v) \<in> set (cid_store d). lk = lower k))"

definition cid_lookup :: "'v CaseInsensitiveDict \<Rightarrow> string \<Rightarrow> 'v option" where
  "cid_lookup d k = map_option snd (map_of (cid_store d) (lower k))"

subsection \<open>CookieJar\<close>

record CookieJar =
  jar_cookies :: "(pyval, cookie) dict"

fun jar_add_all :: "CookieJar \<Rightarrow> cookie list \<Rightarrow> CookieJar" where
  "jar_add_all j [] = j"
| "jar_add_all j (c # cs) = jar_add_all (j\<lparr>jar_cookies := dset (jar_cookies j) (ck_name c) c\<rparr>) cs"

definition jar_init :: "cookie list option \<Rightarrow> CookieJar" where
  "jar_init cookies = (case cookies of None \<Rightarrow> \<lparr>jar_cookies = []\<rparr>
     | Some cs \<Rightarrow> jar_add_all \<lparr>jar_cookies = []\<rparr> cs)"

definition jar_getitem :: "CookieJar \<Rightarrow> pyval \<Rightarrow> pyval res" where
  "jar_getitem j name = (case map_of (jar_cookies j) name of
     None \<Rightarrow> Inl (Exc KeyError (py_repr name)) | Some c \<Rightarrow> Inr (ck_value c))"

definition jar_setitem :: "CookieJar \<Rightarrow> pyval \<Rightarrow> pyval \<Rightarrow> CookieJar" where
  "jar_setitem j name v = j\<lparr>jar_cookies := dset (jar_cookies j) name (simple_cookie name v)\<rparr>"

definition jar_get :: "CookieJar \<Rightarrow> pyval \<Rightarrow> pyval \<Rightarrow> pyval" where
  "jar_get j name dflt = (case map_of (jar_cookies j) name of None \<Rightarrow> dflt | Some c \<Rightarrow> ck_value c)"

text \<open>\<^verbatim>\<open>Cookie(name=name, value=value, **kwargs)\<close>: the dataclass accepts its own fields only.\<close>

definition cookie_fields :: "string list" where
  "cookie_fields = [''path'', ''domain'', ''expires'', ''max_age'', ''secure'', ''http_only'', ''same_site'']"

definition cookie_of_kwargs :: "pyval \<Rightarrow> pyval \<Rightarrow> kwargs \<Rightarrow> cookie res" where
  "cookie_of_kwargs name v kw =
     (case filter (\<lambda>k. k \<notin> set cookie_fields) (dkeys kw) of
        k # _ \<Rightarrow> Inl (Exc TypeError (''Cookie.__init__() got an unexpected keyword argument '' @ str_repr k))
      | [] \<Rightarrow> Inr (Cookie name v (dget kw ''path'') (dget kw ''domain'') (dget kw ''expires'')
          (dget kw ''max_age'') (dget_or kw ''secure'' (PBool False))
          (dget_or kw ''http_only'' (PBool False)) (dget kw ''same_site'')))"

definition jar_set :: "CookieJar \<Rightarrow> pyval \<Rightarrow> pyval \<Rightarrow> kwargs \<Rightarrow> CookieJar res" where
  "jar_set j name v kw = bindE (cookie_of_kwargs name v kw)
     (\<lambda>c. Inr (j\<lparr>jar_cookies := dset (jar_cookies j) name c\<rparr>))"

definition jar_items :: "CookieJar \<Rightarrow> (pyval \<times> pyval) list" where
  "jar_items j = map (\<lambda>c. (ck_name c, ck_value c)) (dvals (jar_cookies j))"

definition jar_get_dict :: "CookieJar \<Rightarrow> (pyval, pyval) dict" where
  "jar_get_dict j = map (\<lambda>(n, c). (n, ck_value c)) (jar_cookies j)"

definition jar_get_cookies :: "CookieJar \<Rightarrow> cookie list" where
  "jar_get_cookies j = dvals (jar_cookies j)"

definition jar_iter :: "CookieJar \<Rightarrow> pyval list" where
  "jar_iter j = dkeys (jar_cookies j)"

definition jar_len :: "CookieJar \<Rightarrow> nat" where
  "jar_len j = length (jar_cookies j)"

definition jar_contains :: "CookieJar \<Rightarrow> pyval \<Rightarrow> bool" where
  "jar_contains j name = dhas (jar_cookies j) name"

definition jar_eq :: "CookieJar \<Rightarrow> (pyval, pyval) dict \<Rightarrow> bool" where
  "jar_eq j other = dict_eq (jar_get_dict j) other"

definition jar_repr :: "CookieJar \<Rightarrow> string" where
  "jar_repr j = ''<CookieJar('' @ nat_str (jar_len j) @ '' cookies)>''"

definition jar_str :: "CookieJar \<Rightarrow> string" where
  "jar_str j = ''{'' @ join '', '' (map (\<lambda>(n, v). py_repr n @ '': '' @ py_repr v) (jar_get_dict j)) @ ''}''"

definition jar_ok :: "CookieJar \<Rightarrow> bool" where
  "jar_ok j = (distinct (dkeys (jar_cookies j)) \<and> list_all (\<lambda>(n, c). ck_name c = n) (jar_cookies j))"

subsection \<open>Lemmas on CaseInsensitiveDict\<close>

lemma cid_ok_empty [simp]: "cid_ok \<lparr>cid_store = []\<rparr>"
  by (simp add: cid_ok_def)

lemma cid_ok_setitem [simp]: "cid_ok d \<Longrightarrow> cid_ok (cid_setitem d k v)"
  using set_dset_subset [of "cid_store d" "lower k" "(k, v)"]
  by (fastforce simp: cid_ok_def cid_setitem_def)

lemma cid_ok_delitem: "cid_ok d \<Longrightarrow> cid_delitem d k = Inr d' \<Longrightarrow> cid_ok d'"
  using set_ddel_subset [of "cid_store d" "lower k"]
  by (fastforce simp: cid_ok_def cid_delitem_def split: if_splits)

lemma cid_ok_update [simp]: "cid_ok d \<Longrightarrow> cid_ok (cid_update d kvs)"
  by (induction d kvs rule: cid_update.induct) simp_all

lemma cid_ok_init [simp]: "cid_ok (cid_init data)"
  by (simp add: cid_init_def)

lemma cid_getitem_lookup:
  "cid_getitem d k = (case cid_lookup d k of None \<Rightarrow> Inl (key_error (lower k)) | Some v \<Rightarrow> Inr v)"
  by (simp add: cid_getitem_def cid_lookup_def split: option.splits)

lemma cid_get_lookup: "cid_get d k x = (case cid_lookup d k of None \<Rightarrow> x | Some v \<Rightarrow> v)"
  by (simp add: cid_get_def cid_getitem_lookup split: option.splits)

lemma cid_lookup_setitem [simp]:
  "cid_lookup (cid_setitem d k v) k' = (if lower k = lower k' then Some v else cid_lookup d k')"
  by (simp add: cid_lookup_def cid_setitem_def)

definition cid_remove :: "'v CaseInsensitiveDict \<Rightarrow> string \<Rightarrow> 'v CaseInsensitiveDict" where
  "cid_remove d k = (case cid_delitem d k of Inl _ \<Rightarrow> d | Inr d' \<Rightarrow> d')"

lemma cid_lookup_remove:
  "cid_ok d \<Longrightarrow> cid_lookup (cid_remove d k) k' = (if lower k = lower k' then None else cid_lookup d k')"
  by (cases "map_of (cid_store d) (lower k)"; cases "lower k = lower k'")
    (simp_all add: cid_lookup_def cid_remove_def cid_delitem_def cid_ok_def map_of_ddel)

interpretation cid: keyed_store "\<lparr>cid_store = []\<rparr> :: 'v CaseInsensitiveDict" cid_setitem cid_remove
  cid_lookup lower cid_ok
proof unfold_locales
  show "cid_ok (cid_remove s k)" if "cid_ok s" for s :: "'v CaseInsensitiveDict" and k
    using that by (auto simp: cid_remove_def cid_ok_delitem split: sum.split)
qed (auto simp: cid_lookup_remove, simp add: cid_lookup_def)

lemma cid_update_put_all: "cid_update d kvs = cid.put_all d kvs"
  by (induction d kvs rule: cid_update.induct) simp_all

lemma dict_eq_map_of:
  assumes "distinct (dkeys d)" "distinct (dkeys e)"
  shows "dict_eq d e \<longleftrightarrow> map_of d = map_of e"
proof
  assume eq: "dict_eq d e"
  then have sub: "set d \<subseteq> set e"
    by (auto simp: dict_eq_def list_all_iff dest: map_of_SomeD)
  have "card (set d) = length d" "card (set e) = length e"
    using assms by (auto simp: distinct_map distinct_card)
  with eq sub have "set d = set e"
    by (metis List.finite_set card_subset_eq dict_eq_def)
  then show "map_of d = map_of e"
    using assms by (simp add: map_of_inject_set)
next
  assume "map_of d = map_of e"
  with assms have "set d = set e" by (simp add: map_of_inject_set)
  moreover have "length d = length e"
    using assms \<open>set d = set e\<close> by (metis distinct_card distinct_map)
  ultimately show "dict_eq d e"
    using assms(2) by (auto simp: dict_eq_def list_all_iff)
qed

lemma dkeys_lower_items [simp]: "dkeys (cid_lower_items d) = dkeys (cid_store d)"
  by (simp add: cid_lower_items_def comp_def case_prod_beta)

lemma map_of_map_snd: "map_of (map (\<lambda>(k, v). (k, f v)) d) x = map_option f (map_of d x)"
  by (induction d) auto

lemma map_of_lower_items: "map_of (cid_lower_items d) x = map_option snd (map_of (cid_store d) x)"
  using map_of_map_snd [of snd "cid_store d" x] by (simp add: cid_lower_items_def)

lemma cid_store_lowered: "cid_ok d \<Longrightarrow> map_of (cid_store d) x = Some kv \<Longrightarrow> x = lower (fst kv)"
  by (cases kv) (auto simp: cid_ok_def dest!: map_of_SomeD)

lemma map_of_lower_items_lower: "map_of (cid_lower_items d) (lower k) = cid_lookup d k"
  by (simp add: map_of_lower_items cid_lookup_def)

lemma map_of_lower_items_eq_iff:
  assumes "cid_ok d" "cid_ok e"
  shows "map_of (cid_lower_items d) = map_of (cid_lower_items e) \<longleftrightarrow> (\<forall>k. cid_lookup d k = cid_lookup e k)"
proof
  assume "map_of (cid_lower_items d) = map_of (cid_lower_items e)"
  then show "\<forall>k. cid_lookup d k = cid_lookup e k"
    by (metis map_of_lower_items_lower)
next
  assume *: "\<forall>k. cid_lookup d k = cid_lookup e k"
  have none: "map_of (cid_store f) x = None" if "cid_ok f" "lower x \<noteq> x" for f :: "'a CaseInsensitiveDict" and x
    using cid_store_lowered [OF that(1), of x] that(2) by (cases "map_of (cid_store f) x") auto
  show "map_of (cid_lower_items d) = map_of (cid_lower_items e)"
  proof
    fix x
    show "map_of (cid_lower_items d) x = map_of (cid_lower_items e) x"
    proof (cases "lower x = x")
      case True
      with * show ?thesis by (metis map_of_lower_items_lower)
    next
      case False
      with none assms show ?thesis by (simp add: map_of_lower_items)
    qed
  qed
qed

lemma dset_new: "k \<notin> set (dkeys d) \<Longrightarrow> dset d k v = d @ [(k, v)]"
  by (induction d k v rule: dset.induct) auto

lemma cid_update_append:
  assumes "distinct (dkeys (cid_store d) @ map fst s)" "\<forall>(lk, k, v) \<in> set s. lk = lower k"
  shows "cid_update d (dvals s) = d\<lparr>cid_store := cid_store d @ s\<rparr>"
  using assms
proof (induction s arbitrary: d)
  case (Cons p s)
  obtain lk k v where p: "p = (lk, k, v)" by (cases p)
  with Cons.prems have set: "cid_setitem d k v = d\<lparr>cid_store := cid_store d @ [p]\<rparr>"
    by (simp add: cid_setitem_def dset_new)
  have "distinct (dkeys (cid_store (cid_setitem d k v)) @ map fst s)"
    using Cons.prems(1) by (simp add: set)
  moreover have "\<forall>(lk, k, v) \<in> set s. lk = lower k"
    using Cons.prems(2) by simp
  ultimately show ?case
    using Cons.IH [of "cid_setitem d k v"] by (simp add: p set)
qed simp

lemma cid_update_snoc: "cid_update d (pre @ (k, v) # post) = cid_update (cid_setitem (cid_update d pre) k v) post"
  by (induction d pre rule: cid_update.induct) simp_all

lemma cid_update_keeps:
  "lower k \<notin> lower ` fst ` set post \<Longrightarrow>
   map_of (cid_store (cid_update d post)) (lower k) = map_of (cid_store d) (lower k)"
  by (induction d post rule: cid_update.induct) (auto simp: cid_setitem_def)

subsection \<open>Lemmas on CookieJar\<close>

lemma jar_ok_empty [simp]: "jar_ok \<lparr>jar_cookies = []\<rparr>"
  by (simp add: jar_ok_def)

lemma jar_ok_dset [simp]:
  "jar_ok j \<Longrightarrow> ck_name c = n \<Longrightarrow> jar_ok (j\<lparr>jar_cookies := dset (jar_cookies j) n c\<rparr>)"
  using set_dset_subset [of "jar_cookies j" n c]
  by (fastforce simp: jar_ok_def list_all_iff)

lemma ck_name_simple [simp]: "ck_name (simple_cookie n v) = n"
  and ck_value_simple [simp]: "ck_value (simple_cookie n v) = v"
  by (simp_all add: simple_cookie_def)

lemma cookie_of_kwargs_name: "cookie_of_kwargs n v kw = Inr c \<Longrightarrow> ck_name c = n \<and> ck_value c = v"
  by (auto simp: cookie_of_kwargs_def split: list.splits)

lemma jar_ok_setitem [simp]: "jar_ok j \<Longrightarrow> jar_ok (jar_setitem j n v)"
  by (simp add: jar_setitem_def)

lemma jar_ok_set: "jar_ok j \<Longrightarrow> jar_set j n v kw = Inr j' \<Longrightarrow> jar_ok j'"
  by (auto simp: jar_set_def dest: cookie_of_kwargs_name)

lemma jar_ok_add_all [simp]: "jar_ok j \<Longrightarrow> jar_ok (jar_add_all j cs)"
  by (induction j cs rule: jar_add_all.induct) simp_all

lemma jar_ok_init [simp]: "jar_ok (jar_init cs)"
  by (simp add: jar_init_def split: option.split)

definition jar_lookup :: "CookieJar \<Rightarrow> pyval \<Rightarrow> pyval option" where
  "jar_lookup j n = map_option ck_value (map_of (jar_cookies j) n)"

definition jar_remove :: "CookieJar \<Rightarrow> pyval \<Rightarrow> CookieJar" where
  "jar_remove j n = j\<lparr>jar_cookies := ddel (jar_cookies j) n\<rparr>"

interpretation jar: keyed_store "\<lparr>jar_cookies = []\<rparr>" jar_setitem jar_remove jar_lookup "\<lambda>n. n" jar_ok
proof unfold_locales
  show "jar_ok (jar_remove s k)" if "jar_ok s" for s k
    using that set_ddel_subset [of "jar_cookies s" k]
    by (fastforce simp: jar_ok_def jar_remove_def list_all_iff)
  show "jar_lookup (jar_remove s k) k' = (if k = k' then None else jar_lookup s k')"
    if "jar_ok s" for s k k'
    using that by (simp add: jar_lookup_def jar_remove_def jar_ok_def map_of_ddel)
qed (simp_all add: jar_lookup_def jar_setitem_def)

lemma jar_get_lookup: "jar_get j n x = (case jar_lookup j n of None \<Rightarrow> x | Some v \<Rightarrow> v)"
  by (simp add: jar_get_def jar_lookup_def split: option.split)

lemma jar_add_all_lookup:
  "jar_lookup (jar_add_all j cs) n =
     (case find (\<lambda>c. ck_name c = n) (rev cs) of None \<Rightarrow> jar_lookup j n | Some c \<Rightarrow> Some (ck_value c))"
proof (induction j cs rule: jar_add_all.induct)
  case (2 j c cs)
  then show ?case by (simp add: jar_lookup_def find_append split: option.splits)
qed simp

subsection \<open>Properties\<close>

text \<open>C28. A header dictionary built from any sequence of pairs answers a lookup in any spelling of the case
  with the value of the last pair whose key is equal up to case, and iterating it shows that pair's spelling.\<close>

theorem cid_last_value_wins:
  assumes "lower k' = lower k" "lower k \<notin> lower ` fst ` set post"
  shows "cid_getitem (cid_init (pre @ (k', v) # post)) k = Inr v \<and>
    k' \<in> set (cid_iter (cid_init (pre @ (k', v) # post)))"
proof -
  let ?d = "cid_update \<lparr>cid_store = []\<rparr> (pre @ (k', v) # post)"
  have "cid_lookup ?d k = Some v"
    unfolding cid_update_put_all by (rule cid.lookup_put_all_last) (use assms in simp_all)
  moreover have "map_of (cid_store ?d) (lower k') = Some (k', v)"
    unfolding cid_update_snoc using assms cid_update_keeps [of k' post]
    by (simp add: cid_setitem_def)
  then have "(k', v) \<in> set (dvals (cid_store ?d))"
    by (force dest: map_of_SomeD)
  then have "k' \<in> set (cid_iter ?d)"
    unfolding cid_iter_def by force
  ultimately show ?thesis by (simp add: cid_init_def cid_getitem_lookup)
qed

theorem cid_last_value_wins_witness:
  "cid_getitem (cid_init [(''Accept'', 1 :: int), (''ACCEPT'', 2)]) ''accept'' = Inr 2 \<and>
   ''ACCEPT'' \<in> set (cid_iter (cid_init [(''Accept'', 1 :: int), (''ACCEPT'', 2)]))"
proof -
  have "lower ''ACCEPT'' = lower ''accept''" by code_simp
  from cid_last_value_wins [OF this, of "[]" "[(''Accept'', 1)]" 2] show ?thesis by simp
qed

text \<open>A dictionary built from the items of another is that dictionary.\<close>

lemma cid_init_items: "cid_ok d \<Longrightarrow> cid_init (cid_items d) = d"
  using cid_update_append [of "\<lparr>cid_store = []\<rparr>" "cid_store d"]
  by (simp add: cid_init_def cid_items_def cid_ok_def)

text \<open>For every header dictionary the class can build, equality with a mapping holds exactly when both
  answer every lookup alike, and \<^verbatim>\<open>copy\<close> returns the same dictionary, in the same order and spelling.\<close>

theorem cid_equality_and_copy:
  assumes "cid_ok d"
  shows "(cid_eq d other \<longleftrightarrow> (\<forall>k. cid_lookup d k = cid_lookup (cid_init other) k)) \<and> cid_copy d = d"
proof
  have dist: "distinct (dkeys (cid_lower_items e))" if "cid_ok e" for e :: "'a CaseInsensitiveDict"
    using that unfolding dkeys_lower_items cid_ok_def by (rule conjunct1)
  show "cid_eq d other \<longleftrightarrow> (\<forall>k. cid_lookup d k = cid_lookup (cid_init other) k)"
    unfolding cid_eq_def dict_eq_map_of [OF dist [OF assms] dist [OF cid_ok_init]]
    by (rule map_of_lower_items_eq_iff [OF assms cid_ok_init])
  show "cid_copy d = d" unfolding cid_copy_def by (rule cid_init_items [OF assms, unfolded cid_items_def])
qed

theorem cid_equality_and_copy_witness:
  "cid_eq (cid_init [(''Accept'', 1 :: int)]) [(''ACCEPT'', 1)] \<and>
   cid_copy (cid_init [(''Accept'', 1 :: int)]) = cid_init [(''Accept'', 1)]"
proof -
  have eq: "cid_init [(''Accept'', 1 :: int)] = \<lparr>cid_store = [(''accept'', ''Accept'', 1)]\<rparr>"
    "cid_init [(''ACCEPT'', 1 :: int)] = \<lparr>cid_store = [(''accept'', ''ACCEPT'', 1)]\<rparr>"
    by code_simp+
  have "\<forall>k. cid_lookup (cid_init [(''Accept'', 1 :: int)]) k = cid_lookup (cid_init [(''ACCEPT'', 1)]) k"
    unfolding eq by (simp add: cid_lookup_def)
  with cid_equality_and_copy [OF cid_ok_init, of "[(''Accept'', 1 :: int)]" "[(''ACCEPT'', 1)]"]
  show ?thesis by simp
qed

text \<open>A cookie jar built from a list of cookies holds, under each name, the last cookie of that name;
  every entry is stored under its cookie's own name, and \<^verbatim>\<open>items\<close> and \<^verbatim>\<open>get_dict\<close> agree.\<close>

theorem jar_last_cookie_wins:
  "jar_get (jar_init (Some cs)) n dflt =
     (case find (\<lambda>c. ck_name c = n) (rev cs) of None \<Rightarrow> dflt | Some c \<Rightarrow> ck_value c) \<and>
   jar_ok (jar_init (Some cs)) \<and> jar_items (jar_init (Some cs)) = jar_get_dict (jar_init (Some cs))"
proof (intro conjI)
  show "jar_get (jar_init (Some cs)) n dflt =
     (case find (\<lambda>c. ck_name c = n) (rev cs) of None \<Rightarrow> dflt | Some c \<Rightarrow> ck_value c)"
    by (simp add: jar_init_def jar_get_lookup jar_add_all_lookup split: option.split)
      (simp add: jar_lookup_def)
  show ok: "jar_ok (jar_init (Some cs))" by simp
  then show "jar_items (jar_init (Some cs)) = jar_get_dict (jar_init (Some cs))"
    by (auto simp: jar_ok_def jar_items_def jar_get_dict_def list_all_iff)
qed

end
