(* ===== verification/Codec.thy ===== *)
theory Codec
  imports Pyval
begin

section \<open>The codecs of the standard library\<close>

text \<open>
  What the sources use of \<^verbatim>\<open>str.encode("utf-8")\<close> and of the module \<^verbatim>\<open>base64\<close>.
  \<open>b64decode\<close> follows the decoder of \<^verbatim>\<open>binascii\<close> in its default mode: characters
  outside the alphabet are skipped, padding ends the input, a truncated quantum raises.
  \<open>b64_roundtrip\<close> is the law the Basic authentication header, the base64 transport of
  \<^verbatim>\<open>_ffi.py\<close> and the WebSocket frames rely on.
\<close>

subsection \<open>UTF-8\<close>

definition utf8_char :: "char \<Rightarrow> bytes" where
  "utf8_char c = (let n = of_char c :: nat in
     if n < 128 then [word_of_nat n] else [word_of_nat (192 + n div 64), word_of_nat (128 + n mod 64)])"

definition utf8_encode :: "string \<Rightarrow> bytes" where
  "utf8_encode s = concat (map utf8_char s)"

text \<open>Decoding of the encoded strings over U+0000 .. U+00FF.\<close>

fun utf8_decode :: "bytes \<Rightarrow> string option" where
  "utf8_decode [] = Some []"
| "utf8_decode (a # bs) =
     (if unat a < 128 then map_option (\<lambda>s. char_of (unat a) # s) (utf8_decode bs)
      else case bs of [] \<Rightarrow> None
      | b # bs' \<Rightarrow>
          if (unat a = 194 \<or> unat a = 195) \<and> 128 \<le> unat b \<and> unat b < 192
          then map_option (\<lambda>s. char_of ((unat a - 192) * 64 + (unat b - 128)) # s) (utf8_decode bs')
          else None)"

subsection \<open>Base64\<close>

definition b64_alphabet :: string where
  "b64_alphabet = ''ABCDEFGHIJKLMNOPQRSTUVWXYZabcdefghijklmnopqrstuvwxyz0123456789+/''"

definition b64_char :: "nat \<Rightarrow> char" where
  "b64_char n = b64_alphabet ! n"

definition b64_val :: "char \<Rightarrow> nat option" where
  "b64_val c = map_of (zip b64_alphabet [0..<64]) c"

fun b64encode :: "bytes \<Rightarrow> string" where
  "b64encode [] = []"
| "b64encode [a] =
     [b64_char (unat a div 4), b64_char (unat a mod 4 * 16), CHR ''='', CHR ''='']"
| "b64encode [a, b] =
     [b64_char (unat a div 4), b64_char (unat a mod 4 * 16 + unat b div 16),
      b64_char (unat b mod 16 * 4), CHR ''='']"
| "b64encode (a # b # c # rest) =
     b64_char (unat a div 4) # b64_char (unat a mod 4 * 16 + unat b div 16) #
     b64_char (unat b mod 16 * 4 + unat c div 64) # b64_char (unat c mod 64) # b64encode rest"

datatype b64_state = B64 (quad_pos: nat) (leftchar: nat) (pads: nat)

definition b64_step :: "b64_state \<Rightarrow> nat \<Rightarrow> b64_state \<times> bytes" where
  "b64_step st v =
     (if quad_pos st = 0 then (B64 1 v 0, [])
      else if quad_pos st = 1 then (B64 2 (v mod 16) 0, [word_of_nat (leftchar st * 4 + v div 16)])
      else if quad_pos st = 2 then (B64 3 (v mod 4) 0, [word_of_nat (leftchar st * 16 + v div 4)])
      else (B64 0 0 0, [word_of_nat (leftchar st * 64 + v)]))"

definition binascii_error :: "nat \<Rightarrow> pyexc" where
  "binascii_error q = Exc ValueError (if q = 1
     then ''Invalid base64-encoded string: number of data characters cannot be 1 more than a multiple of 4''
     else ''Incorrect padding'')"

fun a2b_base64 :: "string \<Rightarrow> b64_state \<Rightarrow> bytes \<Rightarrow> bytes res" where
  "a2b_base64 [] st acc = (if quad_pos st = 0 then Inr acc else Inl (binascii_error (quad_pos st)))"
| "a2b_base64 (ch # cs) st acc =
     (if ch = CHR ''='' then
        (if quad_pos st \<ge> 2 then
           (if quad_pos st + (pads st + 1) \<ge> 4 then Inr acc
            else a2b_base64 cs (B64 (quad_pos st) (leftchar st) (pads st + 1)) acc)
         else a2b_base64 cs st acc)
      else case b64_val ch of
        None \<Rightarrow> a2b_base64 cs st acc
      | Some v \<Rightarrow> (let (st', out) = b64_step st v in a2b_base64 cs st' (acc @ out)))"

definition b64decode :: "string \<Rightarrow> bytes res" where
  "b64decode s = a2b_base64 s (B64 0 0 0) []"

subsection \<open>Lemmas\<close>

lemma b64_val_char [simp]:
  assumes "n < 64"
  shows "b64_val (b64_char n) = Some n"
proof -
  have "list_all (\<lambda>n. b64_val (b64_char n) = Some n) [0..<64]"
    by code_simp
  with assms show ?thesis by (simp add: list_all_iff)
qed

lemma b64_char_not_pad [simp]:
  assumes "n < 64"
  shows "b64_char n \<noteq> CHR ''=''"
proof -
  have "list_all (\<lambda>n. b64_char n \<noteq> CHR ''='') [0..<64]"
    by code_simp
  with assms show ?thesis by (simp add: list_all_iff)
qed

lemma unat_byte_less [simp]: "unat (w :: byte) < 256"
  using unsigned_less [of w, where 'a = nat] by simp

lemma div_byte_less [simp]:
  "unat (w :: byte) div 4 < 64" "unat w div 16 < 16" "unat w div 64 < 4"
  using unat_byte_less [of w] by (simp_all add: less_mult_imp_div_less)

lemma pack_less:
  fixes q c k :: nat
  assumes "q < c" "0 < k"
  shows "m mod k * c + q < k * c"
proof -
  have "m mod k + 1 \<le> k" using assms(2) by (simp add: Suc_leI)
  then have "(m mod k + 1) * c \<le> k * c" by (rule mult_le_mono1)
  with assms(1) show ?thesis by (simp add: algebra_simps)
qed

lemma a2b_quantum:
  "a2b_base64 (b64_char (unat a div 4) # b64_char (unat a mod 4 * 16 + unat b div 16) #
       b64_char (unat b mod 16 * 4 + unat c div 64) # b64_char (unat c mod 64) # cs) (B64 0 0 0) acc =
   a2b_base64 cs (B64 0 0 0) (acc @ [a, b, c])" for a b c :: byte
proof -
  have s: "unat a mod 4 * 16 + unat b div 16 < 64" "unat b mod 16 * 4 + unat c div 64 < 64"
    using pack_less [of "unat b div 16" 16 4] pack_less [of "unat c div 64" 4 16] by simp_all
  have a: "unat a div 4 * 4 + (unat a mod 4 * 16 + unat b div 16) div 16 = unat a"
    using div_byte_less(2) [of b] by (simp add: div_mult_mod_eq)
  have b: "(unat a mod 4 * 16 + unat b div 16) mod 16 * 16 + (unat b mod 16 * 4 + unat c div 64) div 4 = unat b"
    using div_byte_less(2) [of b] div_byte_less(3) [of c] by (simp add: div_mult_mod_eq)
  have c: "(unat b mod 16 * 4 + unat c div 64) mod 4 * 64 + unat c mod 64 = unat c"
    using div_byte_less(3) [of c] by (simp add: div_mult_mod_eq)
  show ?thesis
    using s by (simp add: b64_step_def a b c)
qed

lemma a2b_last2:
  "a2b_base64 [b64_char (unat a div 4), b64_char (unat a mod 4 * 16 + unat b div 16),
      b64_char (unat b mod 16 * 4), CHR ''=''] (B64 0 0 0) acc = Inr (acc @ [a, b])" for a b :: byte
proof -
  have s: "unat a mod 4 * 16 + unat b div 16 < 64" "unat b mod 16 * 4 < 64"
    using pack_less [of "unat b div 16" 16 4] pack_less [of 0 4 16] by simp_all
  have a: "unat a div 4 * 4 + (unat a mod 4 * 16 + unat b div 16) div 16 = unat a"
    using div_byte_less(2) [of b] by (simp add: div_mult_mod_eq)
  have b: "(unat a mod 4 * 16 + unat b div 16) mod 16 * 16 + unat b mod 16 * 4 div 4 = unat b"
    using div_byte_less(2) [of b] by (simp add: div_mult_mod_eq)
  show ?thesis
    using s by (simp add: b64_step_def a b)
qed

lemma a2b_last1:
  "a2b_base64 [b64_char (unat a div 4), b64_char (unat a mod 4 * 16), CHR ''='', CHR ''='']
     (B64 0 0 0) acc = Inr (acc @ [a])" for a :: byte
proof -
  have s: "unat a mod 4 * 16 < 64" using pack_less [of 0 16 4] by simp
  have a: "unat a div 4 * 4 + unat a mod 4 * 16 div 16 = unat a"
    by (simp add: div_mult_mod_eq)
  show ?thesis
    using s by (simp add: b64_step_def a)
qed

lemma a2b_b64encode: "a2b_base64 (b64encode bs) (B64 0 0 0) acc = Inr (acc @ bs)"
proof (induction bs arbitrary: acc rule: b64encode.induct)
  case (4 a b c rest)
  then show ?case by (simp only: b64encode.simps a2b_quantum) simp
qed (simp_all only: b64encode.simps a2b_last1 a2b_last2, simp)

lemma b64_roundtrip [simp]: "b64decode (b64encode bs) = Inr bs"
  by (simp add: b64decode_def a2b_b64encode)

lemma utf8_roundtrip [simp]: "utf8_decode (utf8_encode s) = Some s"
proof (induction s)
  case (Cons c s)
  define n where "n = (of_char c :: nat)"
  have n: "n < 256" and c: "c = char_of n" by (simp_all add: n_def)
  show ?case
  proof (cases "n < 128")
    case True
    with Cons show ?thesis
      by (simp add: utf8_encode_def utf8_char_def unat_of_nat c)
  next
    case False
    with n have hi: "n div 64 = 2 \<or> n div 64 = 3" by auto
    have w: "unat (word_of_nat (192 + n div 64) :: byte) = 192 + n div 64"
      "unat (word_of_nat (128 + n mod 64) :: byte) = 128 + n mod 64"
      using hi by (auto simp: unat_of_nat simp del: of_nat_add)
    have "n = 64 * (n div 64) + n mod 64" by simp
    then have "n div 64 = 2 \<longrightarrow> 128 + n mod 64 = n" "n div 64 = 3 \<longrightarrow> 192 + n mod 64 = n"
      by linarith+
    with False hi w Cons show ?thesis
      by (auto simp: utf8_encode_def utf8_char_def c simp del: of_nat_add)
  qed
qed (simp add: utf8_encode_def)

end
