(* ===== verification/Schema.thy ===== *)
theory Schema
  imports Structures Codec
begin

section \<open>Requests, responses and error classification (\<^verbatim>\<open>cycletls/schema.py\<close>)\<close>

text \<open>
  \<open>Request\<close> and \<open>Response\<close> are the dataclasses of the same names. A request's option
  fields are dynamic values, because \<^verbatim>\<open>Request(method=method, url=url, **kwargs)\<close> checks
  only the names of its arguments (\<open>request_init\<close>). \<open>request_to_dict\<close> is
  \<^verbatim>\<open>Request.to_dict\<close>, the options dictionary the Go library decodes.
  \<open>raise_for_error_response\<close> is the classification of the Go library's error replies,
  \<open>dict_to_response\<close> the conversion of a reply into a \<open>Response\<close>.

  \<^verbatim>\<open>datetime.fromisoformat\<close> differs between Python versions and is a parameter of
  \<open>dict_to_cookie\<close> and \<open>dict_to_response\<close>.
\<close>

subsection \<open>Status phrases\<close>

definition status_phrases :: "(int \<times> string) list" where
  "status_phrases = [
     (100, ''Continue''), (101, ''Switching Protocols''), (102, ''Processing''), (103, ''Early Hints''),
     (200, ''OK''), (201, ''Created''), (202, ''Accepted''), (203, ''Non-Authoritative Information''),
     (204, ''No Content''), (205, ''Reset Content''), (206, ''Partial Content''), (207, ''Multi-Status''),
     (208, ''Already Reported''), (226, ''IM Used''),
     (300, ''Multiple Choices''), (301, ''Moved Permanently''), (302, ''Found''), (303, ''See Other''),
     (304, ''Not Modified''), (305, ''Use Proxy''), (307, ''Temporary Redirect''), (308, ''Permanent Redirect''),
     (400, ''Bad Request''), (401, ''Unauthorized''), (402, ''Payment Required''), (403, ''Forbidden''),
     (404, ''Not Found''), (405, ''Method Not Allowed''), (406, ''Not Acceptable''),
     (407, ''Proxy Authentication Required''), (408, ''Request Timeout''), (409, ''Conflict''), (410, ''Gone''),
     (411, ''Length Required''), (412, ''Precondition Failed''), (413, ''Payload Too Large''),
     (414, ''URI Too Long''), (415, ''Unsupported Media Type''), (416, ''Range Not Satisfiable''),
     (417, ''Expectation Failed''), (418, ''I'' @ [char_of (39 :: nat)] @ ''m a teapot''),
     (421, ''Misdirected Request''), (422, ''Unprocessable Entity''), (423, ''Locked''),
     (424, ''Failed Dependency''), (425, ''Too Early''), (426, ''Upgrade Required''),
     (428, ''Precondition Required''), (429, ''Too Many Requests''),
     (431, ''Request Header Fields Too Large''), (451, ''Unavailable For Legal Reasons''),
     (500, ''Internal Server Error''), (501, ''Not Implemented''), (502, ''Bad Gateway''),
     (503, ''Service Unavailable''), (504, ''Gateway Timeout''), (505, ''HTTP Version Not Supported''),
     (506, ''Variant Also Negotiates''), (507, ''Insufficient Storage''), (508, ''Loop Detected''),
     (510, ''Not Extended''), (511, ''Network Authentication Required'')]"

subsection \<open>Cookies on the wire\<close>

definition same_site_map :: "(string \<times> int) list" where
  "same_site_map = [(''default'', 1), (''lax'', 2), (''strict'', 3), (''none'', 4)]"

fun convert_same_site :: "pyval \<Rightarrow> pyval" where
  "convert_same_site PNone = PInt 0"
| "convert_same_site (PInt n) = PInt n"
| "convert_same_site (PBool b) = PBool b"
| "convert_same_site v = PInt (dget_or same_site_map (lower (py_str v)) 0)"

definition days_before_month :: "int \<Rightarrow> int \<Rightarrow> int" where
  "days_before_month y m = [0, 31, 59, 90, 120, 151, 181, 212, 243, 273, 304, 334] ! nat (m - 1) +
     (if m > 2 \<and> y mod 4 = 0 \<and> (y mod 100 \<noteq> 0 \<or> y mod 400 = 0) then 1 else 0)"

definition ordinal :: "datetime \<Rightarrow> int" where
  "ordinal d = (let y = dt_year d - 1 in
     y * 365 + y div 4 - y div 100 + y div 400 + days_before_month (dt_year d) (dt_month d) + dt_day d)"

definition weekday_name :: "datetime \<Rightarrow> string" where
  "weekday_name d = [''Mon'', ''Tue'', ''Wed'', ''Thu'', ''Fri'', ''Sat'', ''Sun''] ! nat ((ordinal d + 6) mod 7)"

definition month_name :: "datetime \<Rightarrow> string" where
  "month_name d = [''Jan'', ''Feb'', ''Mar'', ''Apr'', ''May'', ''Jun'', ''Jul'', ''Aug'', ''Sep'', ''Oct'',
     ''Nov'', ''Dec''] ! nat (dt_month d - 1)"

text \<open>\<^verbatim>\<open>strftime("%a, %d %b %Y %H:%M:%S GMT")\<close>.\<close>

definition strftime_gmt :: "datetime \<Rightarrow> string" where
  "strftime_gmt d = weekday_name d @ '', '' @ two_digits (dt_day d) @ '' '' @ month_name d @ '' '' @
     int_str (dt_year d) @ '' '' @ two_digits (dt_hour d) @ '':'' @ two_digits (dt_minute d) @ '':'' @
     two_digits (dt_second d) @ '' GMT''"

definition opt_set :: "kwargs \<Rightarrow> string \<Rightarrow> pyval \<Rightarrow> kwargs" where
  "opt_set d k v = (if v = PNone then d else dset d k v)"

fun raw_expires :: "pyval \<Rightarrow> pyval" where
  "raw_expires PNone = PNone"
| "raw_expires (PDatetime t) = PStr (strftime_gmt t)"
| "raw_expires v = PStr (py_str v)"

definition cookie_result :: "cookie \<Rightarrow> kwargs" where
  "cookie_result c =
     (let r0 = [(''name'', ck_name c), (''value'', ck_value c), (''secure'', ck_secure c),
                (''httpOnly'', ck_http_only c)];
          r1 = opt_set r0 ''path'' (ck_path c);
          r2 = opt_set r1 ''domain'' (ck_domain c);
          r3 = opt_set r2 ''rawExpires'' (raw_expires (ck_expires c));
          r4 = opt_set r3 ''maxAge'' (ck_max_age c)
      in if ck_same_site c = PNone then r4 else dset r4 ''sameSite'' (convert_same_site (ck_same_site c)))"

definition cookie_fields_of_dict :: "kwargs \<Rightarrow> cookie" where
  "cookie_fields_of_dict d = Cookie (dget_or d ''name'' (PStr '''')) (dget_or d ''value'' (PStr ''''))
     (dget d ''path'') (dget d ''domain'') (dget d ''expires'')
     (py_or (dget d ''maxAge'') (dget d ''max_age'')) (dget_or d ''secure'' (PBool False))
     (dget_or d ''httpOnly'' (dget_or d ''http_only'' (PBool False)))
     (py_or (dget d ''sameSite'') (dget d ''same_site''))"

fun cookie_to_dict :: "pyval \<Rightarrow> kwargs res" where
  "cookie_to_dict (PDict d) = Inr (cookie_result (cookie_fields_of_dict d))"
| "cookie_to_dict (PCookie c) = Inr (cookie_result c)"
| "cookie_to_dict _ = Inl (no_attribute ''name'')"

subsection \<open>Request\<close>

record Request =
  rq_url :: string
  rq_method :: string
  rq_body :: pyval
  rq_body_bytes :: pyval
  rq_headers :: pyval
  rq_ja3 :: pyval
  rq_ja4r :: pyval
  rq_http2_fingerprint :: pyval
  rq_quic_fingerprint :: pyval
  rq_disable_grease :: pyval
  rq_server_name :: pyval
  rq_insecure_skip_verify :: pyval
  rq_tls13_auto_retry :: pyval
  rq_force_http1 :: pyval
  rq_force_http3 :: pyval
  rq_protocol :: pyval
  rq_user_agent :: pyval
  rq_proxy :: pyval
  rq_local_address :: pyval
  rq_cookies :: pyval
  rq_timeout :: pyval
  rq_disable_redirect :: pyval
  rq_enable_connection_reuse :: pyval
  rq_header_order :: pyval
  rq_order_headers_as_provided :: pyval
  rq_header_values :: pyval

definition default_user_agent :: string where
  "default_user_agent = ''Mozilla/5.0 (X11; Linux x86_64) AppleWebKit/537.36 (KHTML, like Gecko) Chrome/149.0.0.0 Safari/537.36''"

definition request_fields :: "string list" where
  "request_fields = [''body'', ''body_bytes'', ''headers'', ''ja3'', ''ja4r'', ''http2_fingerprint'',
     ''quic_fingerprint'', ''disable_grease'', ''server_name'', ''insecure_skip_verify'',
     ''tls13_auto_retry'', ''force_http1'', ''force_http3'', ''protocol'', ''user_agent'', ''proxy'',
     ''local_address'', ''cookies'', ''timeout'', ''disable_redirect'', ''enable_connection_reuse'',
     ''header_order'', ''order_headers_as_provided'', ''header_values'']"

definition request_init :: "string \<Rightarrow> string \<Rightarrow> kwargs \<Rightarrow> Request res" where
  "request_init url meth kw =
     (case filter (\<lambda>k. k \<notin> set request_fields) (dkeys kw) of
        k # _ \<Rightarrow> Inl (Exc TypeError (''Request.__init__() got an unexpected keyword argument '' @ str_repr k))
      | [] \<Rightarrow> Inr \<lparr>rq_url = url, rq_method = meth,
          rq_body = dget_or kw ''body'' (PStr ''''),
          rq_body_bytes = dget kw ''body_bytes'',
          rq_headers = dget_or kw ''headers'' (PDict []),
          rq_ja3 = dget kw ''ja3'', rq_ja4r = dget kw ''ja4r'',
          rq_http2_fingerprint = dget kw ''http2_fingerprint'',
          rq_quic_fingerprint = dget kw ''quic_fingerprint'',
          rq_disable_grease = dget_or kw ''disable_grease'' (PBool False),
          rq_server_name = dget kw ''server_name'',
          rq_insecure_skip_verify = dget_or kw ''insecure_skip_verify'' (PBool False),
          rq_tls13_auto_retry = dget_or kw ''tls13_auto_retry'' (PBool True),
          rq_force_http1 = dget_or kw ''force_http1'' (PBool False),
          rq_force_http3 = dget_or kw ''force_http3'' (PBool False),
          rq_protocol = dget kw ''protocol'',
          rq_user_agent = dget_or kw ''user_agent'' (PStr default_user_agent),
          rq_proxy = dget_or kw ''proxy'' (PStr ''''),
          rq_local_address = dget kw ''local_address'',
          rq_cookies = dget kw ''cookies'',
          rq_timeout = dget_or kw ''timeout'' (PInt 6),
          rq_disable_redirect = dget_or kw ''disable_redirect'' (PBool False),
          rq_enable_connection_reuse = dget_or kw ''enable_connection_reuse'' (PBool True),
          rq_header_order = dget kw ''header_order'',
          rq_order_headers_as_provided = dget kw ''order_headers_as_provided'',
          rq_header_values = dget kw ''header_values''\<rparr>)"

definition request_repr :: "Request \<Rightarrow> string" where
  "request_repr r = ''<Request ['' @ rq_method r @ '' '' @ rq_url r @
     (if py_truth (rq_proxy r) then '' via '' @ py_str (rq_proxy r) else '''') @ '']>''"

definition request_str :: "Request \<Rightarrow> string" where
  "request_str r = rq_method r @ '' '' @ rq_url r"

definition timeout_int :: "pyval \<Rightarrow> int res" where
  "timeout_int t = bindE (py_positive t) (\<lambda>pos.
     if pos then bindE (py_ceil t) (\<lambda>c. Inr (max 1 c)) else Inr 0)"

fun protocol_value_attr :: "pyval \<Rightarrow> pyval res" where
  "protocol_value_attr (PProtocol p) = Inr (PStr (protocol_value p))"
| "protocol_value_attr _ = Inl (no_attribute ''value'')"

fun iter_values :: "pyval \<Rightarrow> pyval list res" where
  "iter_values (PList xs) = Inr xs"
| "iter_values (PTuple xs) = Inr xs"
| "iter_values (PStr s) = Inr (map (\<lambda>c. PStr [c]) s)"
| "iter_values (PBytes b) = Inr (map (\<lambda>w. PInt (uint w)) b)"
| "iter_values (PDict d) = Inr (map PStr (dkeys d))"
| "iter_values (PJar j) = Inr (dkeys j)"
| "iter_values (PProtocol p) = Inr (map (\<lambda>c. PStr [c]) (protocol_value p))"
| "iter_values _ = Inl (Exc TypeError ''object is not iterable'')"

text \<open>\<^verbatim>\<open>{k: list(v) if isinstance(v, (list, tuple)) else [v] for k, v in ....items()}\<close>.\<close>

fun as_value_list :: "pyval \<Rightarrow> pyval" where
  "as_value_list (PList xs) = PList xs"
| "as_value_list (PTuple xs) = PList xs"
| "as_value_list v = PList [v]"

fun normalize_header_values :: "pyval \<Rightarrow> pyval res" where
  "normalize_header_values (PDict d) = Inr (PDict (map (\<lambda>(k, v). (k, as_value_list v)) d))"
| "normalize_header_values _ = Inl (no_attribute ''items'')"

definition required_options :: "Request \<Rightarrow> int \<Rightarrow> kwargs" where
  "required_options r t = [(''url'', PStr (rq_url r)), (''method'', PStr (rq_method r)),
     (''body'', rq_body r), (''headers'', rq_headers r), (''disableGrease'', rq_disable_grease r),
     (''insecureSkipVerify'', rq_insecure_skip_verify r), (''tls13AutoRetry'', rq_tls13_auto_retry r),
     (''forceHTTP1'', rq_force_http1 r), (''forceHTTP3'', rq_force_http3 r),
     (''userAgent'', rq_user_agent r), (''proxy'', rq_proxy r), (''timeout'', PInt t),
     (''disableRedirect'', rq_disable_redirect r),
     (''enableConnectionReuse'', rq_enable_connection_reuse r)]"

definition opt_setE :: "kwargs \<Rightarrow> string \<Rightarrow> pyval \<Rightarrow> (pyval \<Rightarrow> pyval res) \<Rightarrow> kwargs res" where
  "opt_setE d k v f = (if v = PNone then Inr d else bindE (f v) (\<lambda>w. Inr (dset d k w)))"

definition plain_options :: "Request \<Rightarrow> int \<Rightarrow> kwargs" where
  "plain_options r t =
     (let d = required_options r t;
          d = opt_set d ''ja3'' (rq_ja3 r);
          d = opt_set d ''bodyBytes'' (rq_body_bytes r);
          d = opt_set d ''ja4r'' (rq_ja4r r);
          d = opt_set d ''http2Fingerprint'' (rq_http2_fingerprint r);
          d = opt_set d ''quicFingerprint'' (rq_quic_fingerprint r);
          d = opt_set d ''serverName'' (rq_server_name r)
      in opt_set d ''localAddress'' (rq_local_address r))"

definition cookie_dicts :: "pyval \<Rightarrow> pyval res" where
  "cookie_dicts cs = bindE (iter_values cs) (\<lambda>xs. bindE (mapE cookie_to_dict xs)
     (\<lambda>ds. Inr (PList (map PDict ds))))"

definition request_to_dict :: "Request \<Rightarrow> kwargs res" where
  "request_to_dict r = bindE (timeout_int (rq_timeout r)) (\<lambda>t.
     bindE (opt_setE (plain_options r t) ''protocol'' (rq_protocol r) protocol_value_attr) (\<lambda>d.
     bindE (opt_setE d ''cookies'' (rq_cookies r) cookie_dicts) (\<lambda>d.
     let d = opt_set d ''headerOrder'' (rq_header_order r);
         d = opt_set d ''orderHeadersAsProvided'' (rq_order_headers_as_provided r)
     in opt_setE d ''headerValues'' (rq_header_values r) normalize_header_values)))"

subsection \<open>Response\<close>

record Response =
  resp_request_id :: pyval
  status_code :: int
  raw_headers :: pyval
  resp_body :: pyval
  resp_body_bytes :: "bytes option"
  raw_cookies :: "cookie list option"
  final_url :: pyval
  proto :: pyval
  headers_dict :: "pyval CaseInsensitiveDict option"
  cookie_jar :: "CookieJar option"

definition response_text :: "Response \<Rightarrow> pyval" where
  "response_text r = resp_body r"

fun encode_body :: "pyval \<Rightarrow> bytes res" where
  "encode_body (PStr s) = Inr (utf8_encode s)"
| "encode_body _ = Inl (no_attribute ''encode'')"

definition response_content :: "Response \<Rightarrow> bytes res" where
  "response_content r = (case resp_body_bytes r of Some b \<Rightarrow> Inr b | None \<Rightarrow> encode_body (resp_body r))"

fun header_pairs :: "pyval \<Rightarrow> (string \<times> pyval) list res" where
  "header_pairs (PDict d) = Inr d"
| "header_pairs _ = Inl (Exc TypeError ''object is not iterable'')"

definition response_headers :: "Response \<Rightarrow> (pyval CaseInsensitiveDict \<times> Response) res" where
  "response_headers r = (case headers_dict r of
     Some h \<Rightarrow> Inr (h, r)
   | None \<Rightarrow> bindE (header_pairs (raw_headers r))
       (\<lambda>ps. let h = cid_init ps in Inr (h, r\<lparr>headers_dict := Some h\<rparr>)))"

definition response_cookies :: "Response \<Rightarrow> CookieJar \<times> Response" where
  "response_cookies r = (case cookie_jar r of
     Some j \<Rightarrow> (j, r)
   | None \<Rightarrow> let j = jar_init (Some (case raw_cookies r of None \<Rightarrow> [] | Some cs \<Rightarrow> cs))
       in (j, r\<lparr>cookie_jar := Some j\<rparr>))"

definition response_ok :: "Response \<Rightarrow> bool" where
  "response_ok r = (200 \<le> status_code r \<and> status_code r < 400)"

definition is_redirect :: "Response \<Rightarrow> bool" where
  "is_redirect r = (300 \<le> status_code r \<and> status_code r < 400)"

definition is_client_error :: "Response \<Rightarrow> bool" where
  "is_client_error r = (400 \<le> status_code r \<and> status_code r < 500)"

definition is_server_error :: "Response \<Rightarrow> bool" where
  "is_server_error r = (500 \<le> status_code r \<and> status_code r < 600)"

definition is_error :: "Response \<Rightarrow> bool" where
  "is_error r = (status_code r \<ge> 400)"

definition reason :: "Response \<Rightarrow> string" where
  "reason r = dget_or status_phrases (status_code r) ''Unknown''"

definition response_url :: "Response \<Rightarrow> pyval" where
  "response_url r = final_url r"

text \<open>\<^verbatim>\<open>re.search(r"charset=([^\s;]+)", s, re.IGNORECASE)\<close>: the group of the leftmost match.\<close>

fun search_charset :: "string \<Rightarrow> string option" where
  "search_charset [] = None"
| "search_charset (c # cs) =
     (let v = takeWhile (\<lambda>x. \<not> is_space x \<and> x \<noteq> CHR '';'') (drop 8 (c # cs)) in
      if startswith (lower (c # cs)) ''charset='' \<and> v \<noteq> [] then Some v else search_charset cs)"

definition is_quote :: "char \<Rightarrow> bool" where
  "is_quote c = (c = char_of (34 :: nat) \<or> c = char_of (39 :: nat))"

fun encoding_of_content_type :: "pyval \<Rightarrow> string res" where
  "encoding_of_content_type (PStr s) = (case search_charset s of
     Some v \<Rightarrow> Inr (strip_with is_quote v) | None \<Rightarrow> Inr ''utf-8'')"
| "encoding_of_content_type _ = Inl (Exc TypeError ''expected string or bytes-like object'')"

definition response_encoding :: "Response \<Rightarrow> string res" where
  "response_encoding r = bindE (response_headers r)
     (\<lambda>(h, _). encoding_of_content_type (cid_get h ''content-type'' (PStr '''')))"

datatype http_error = HTTPErrorObj (he_message: string) (he_response: Response)

definition raise_for_status :: "Response \<Rightarrow> http_error + unit" where
  "raise_for_status r = (if is_error r then
     Inl (HTTPErrorObj (int_str (status_code r) @ '' '' @ reason r @
       (if py_truth (final_url r) then '' for url: '' @ py_str (final_url r) else '''')) r)
     else Inr ())"

text \<open>\<^verbatim>\<open>_json_loads\<close> is the parser of \<^verbatim>\<open>orjson\<close> or of the standard library.\<close>

definition response_json :: "(pyval \<Rightarrow> pyval res) \<Rightarrow> Response \<Rightarrow> pyval res" where
  "response_json loads r = loads (resp_body r)"

definition response_repr :: "Response \<Rightarrow> string" where
  "response_repr r = ''<Response ['' @ int_str (status_code r) @ '' '' @ reason r @ '']>''"

definition response_str :: "Response \<Rightarrow> string" where
  "response_str r = ''<Response ['' @ int_str (status_code r) @ '']>''"

subsection \<open>Classifying error replies\<close>

definition matches_any :: "string \<Rightarrow> string list \<Rightarrow> bool" where
  "matches_any txt pats = list_ex (\<lambda>p. contains txt p) pats"

definition dns_patterns :: "string list" where
  "dns_patterns = [''no such host'', ''lookup'', ''dnserror'', ''getaddrinfo'', ''could not resolve'', ''dns'']"

definition timeout_patterns :: "string list" where
  "timeout_patterns = [''timeout'', ''deadline exceeded'', ''request canceled'', ''context canceled'',
     ''context done'', ''i/o timeout'']"

definition connection_patterns :: "string list" where
  "connection_patterns = [''connection reset'', ''connection closed'', ''closed network connection'',
     ''eof'', ''broken pipe'', ''network is unreachable'']"

definition tls495_patterns :: "string list" where
  "tls495_patterns = [''certificate'', ''x509:'', ''tls: failed to verify'', ''handshake'']"

definition tls_patterns :: "string list" where
  "tls_patterns = [''certificate'', ''x509:'', ''tls: failed to verify'', ''ssl'']"

definition refused_patterns :: "string list" where
  "refused_patterns = [''connection refused'', ''refused'', ''no connection could be made'']"

definition url_patterns :: "string list" where
  "url_patterns = [''invalid url'', ''unsupported protocol'', ''missing protocol scheme'',
     ''invalid character'', ''parse'', ''first path segment in url cannot contain colon'',
     ''unsupported scheme'']"

definition is_error_response :: "int \<Rightarrow> string \<Rightarrow> bool" where
  "is_error_response status msg = (status = 0 \<or> contains (lower msg) ''syscall error:'' \<or>
     (status \<in> {401, 405, 408, 421, 495, 502} \<and> contains msg ''->''))"

definition classify_error :: "int \<Rightarrow> string \<Rightarrow> pyexc option" where
  "classify_error status msg = (let low = lower msg in
     if status = 421 \<or> matches_any low dns_patterns
     then Some (Exc ConnectionError (''DNS lookup failed: '' @ msg))
     else if status = 408 \<or> matches_any low timeout_patterns
     then Some (Exc Timeout (''Request timed out: '' @ msg))
     else if matches_any low connection_patterns
     then Some (Exc ConnectionError (''Connection error: '' @ msg))
     else if status = 495 \<and> matches_any low tls495_patterns
     then Some (Exc TLSError (''TLS error: '' @ msg))
     else if matches_any low tls_patterns
     then Some (Exc TLSError (''TLS error: '' @ msg))
     else if status = 502 \<or> matches_any low refused_patterns
     then Some (Exc ConnectionError (''Connection refused: '' @ msg))
     else if status = 405 \<and> contains low ''addr''
     then Some (Exc ConnectionError (''Address error: '' @ msg))
     else if matches_any low url_patterns
     then Some (Exc InvalidURL (''Invalid URL: '' @ msg))
     else if status = 401 \<and> contains low ''syscall''
     then Some (Exc ConnectionError (''Syscall error: '' @ msg))
     else if status = 0
     then Some (Exc CycleTLSError (''Request failed: '' @ msg))
     else None)"

text \<open>The status of a reply is an integer of the library; a float there is treated like any other value.\<close>

fun as_int :: "pyval \<Rightarrow> int res" where
  "as_int (PInt n) = Inr n"
| "as_int (PBool b) = Inr (if b then 1 else 0)"
| "as_int _ = Inl (Exc TypeError ''<= not supported'')"

fun as_text :: "pyval \<Rightarrow> string res" where
  "as_text (PStr s) = Inr s"
| "as_text _ = Inl (no_attribute ''lower'')"

definition raise_for_error_response :: "kwargs \<Rightarrow> unit res" where
  "raise_for_error_response data = bindE (as_int (dget_or data ''Status'' (PInt 0))) (\<lambda>status.
     if 200 \<le> status \<and> status < 400 then Inr ()
     else bindE (as_text (dget_or data ''Body'' (PStr ''''))) (\<lambda>msg.
       if \<not> is_error_response status msg then Inr ()
       else case classify_error status msg of Some e \<Rightarrow> Inl e | None \<Rightarrow> Inr ()))"

subsection \<open>Replies into responses\<close>

definition normalize_zulu :: "string \<Rightarrow> string" where
  "normalize_zulu s = (if endswith s ''Z'' then butlast s @ ''+00:00'' else s)"

fun parse_expires :: "(string \<Rightarrow> datetime res) \<Rightarrow> pyval \<Rightarrow> pyval res" where
  "parse_expires fromiso (PStr s) =
     (if s = [] then Inr PNone else bindE (fromiso (normalize_zulu s)) (\<lambda>t. Inr (PDatetime t)))"
| "parse_expires fromiso v = (if py_truth v then Inl (no_attribute ''endswith'') else Inr PNone)"

definition getitem :: "kwargs \<Rightarrow> string \<Rightarrow> pyval res" where
  "getitem d k = (case map_of d k of None \<Rightarrow> Inl (key_error k) | Some v \<Rightarrow> Inr v)"

fun dict_to_cookie :: "(string \<Rightarrow> datetime res) \<Rightarrow> pyval \<Rightarrow> cookie res" where
  "dict_to_cookie fromiso (PDict d) =
     bindE (parse_expires fromiso (dget d ''expires'')) (\<lambda>ex.
     bindE (getitem d ''name'') (\<lambda>n.
     bindE (getitem d ''value'') (\<lambda>v.
       Inr (Cookie n v (dget d ''path'') (dget d ''domain'') ex (dget d ''maxAge'')
         (dget_or d ''secure'' (PBool False)) (dget_or d ''httpOnly'' (PBool False)) (dget d ''sameSite'')))))"
| "dict_to_cookie fromiso _ = Inl (Exc TypeError ''not a dictionary'')"

fun parse_body_bytes :: "pyval \<Rightarrow> bytes option res" where
  "parse_body_bytes (PBytes b) = Inr (if b = [] then None else Some b)"
| "parse_body_bytes (PStr s) = (if s = [] then Inr None else
     (case b64decode s of
        Inr b \<Rightarrow> Inr (Some b)
      | Inl e \<Rightarrow> Inl (Exc CycleTLSError (''Failed to decode BodyBytes from base64: '' @ exc_message e))))"
| "parse_body_bytes _ = Inr None"

definition parse_cookies :: "(string \<Rightarrow> datetime res) \<Rightarrow> pyval \<Rightarrow> cookie list option res" where
  "parse_cookies fromiso v = (if py_truth v
     then bindE (iter_values v) (\<lambda>xs. bindE (mapE (dict_to_cookie fromiso) xs) (\<lambda>cs. Inr (Some cs)))
     else Inr None)"

definition dict_to_response :: "(string \<Rightarrow> datetime res) \<Rightarrow> kwargs \<Rightarrow> bool \<Rightarrow> Response res" where
  "dict_to_response fromiso data raise_on_error =
     bindE (if raise_on_error then raise_for_error_response data else Inr ()) (\<lambda>_.
     bindE (parse_body_bytes (dget data ''BodyBytes'')) (\<lambda>bb.
     bindE (parse_cookies fromiso (dget data ''Cookies'')) (\<lambda>cs.
     bindE (as_int (dget_or data ''Status'' (PInt 0))) (\<lambda>status.
       Inr \<lparr>resp_request_id = dget_or data ''RequestID'' (PStr ''''),
         status_code = status,
         raw_headers = dget_or data ''Headers'' (PDict []),
         resp_body = dget_or data ''Body'' (PStr ''''),
         resp_body_bytes = bb, raw_cookies = cs,
         final_url = dget data ''FinalUrl'', proto = dget data ''Proto'',
         headers_dict = None, cookie_jar = None\<rparr>))))"

subsection \<open>Lemmas\<close>

lemma map_of_opt_set [simp]:
  "map_of (opt_set d k v) x = (if v \<noteq> PNone \<and> x = k then Some v else map_of d x)"
  by (simp add: opt_set_def)

lemma opt_setE_Inr:
  "opt_setE d k v f = Inr d' \<longleftrightarrow> (v = PNone \<and> d' = d) \<or> (v \<noteq> PNone \<and> (\<exists>w. f v = Inr w \<and> d' = dset d k w))"
  by (auto simp: opt_setE_def)

lemma opt_setE_other: "opt_setE d k v f = Inr d' \<Longrightarrow> x \<noteq> k \<Longrightarrow> map_of d' x = map_of d x"
  by (auto simp: opt_setE_Inr)

lemma request_to_dict_plain:
  assumes "request_to_dict r = Inr d"
    and k: "k \<notin> {''protocol'', ''cookies'', ''headerOrder'', ''orderHeadersAsProvided'', ''headerValues''}"
  shows "map_of d k = map_of (plain_options r (projr (timeout_int (rq_timeout r)))) k"
proof -
  from assms(1) obtain t d1 d2 where t: "timeout_int (rq_timeout r) = Inr t"
    and d1: "opt_setE (plain_options r t) ''protocol'' (rq_protocol r) protocol_value_attr = Inr d1"
    and d2: "opt_setE d1 ''cookies'' (rq_cookies r) cookie_dicts = Inr d2"
    and d: "opt_setE (opt_set (opt_set d2 ''headerOrder'' (rq_header_order r)) ''orderHeadersAsProvided''
        (rq_order_headers_as_provided r)) ''headerValues'' (rq_header_values r) normalize_header_values = Inr d"
    unfolding request_to_dict_def Let_def bindE_eq_Inr by (elim exE conjE)
  from k have ne: "k \<noteq> ''protocol''" "k \<noteq> ''cookies''" "k \<noteq> ''headerOrder''"
    "k \<noteq> ''orderHeadersAsProvided''" "k \<noteq> ''headerValues''" by simp_all
  have "map_of d k = map_of d2 k"
    unfolding opt_setE_other [OF d ne(5)] map_of_opt_set using ne(3,4) by (simp only: simp_thms if_False)
  also have "\<dots> = map_of (plain_options r t) k"
    unfolding opt_setE_other [OF d2 ne(2)] opt_setE_other [OF d1 ne(1)] ..
  finally show ?thesis by (simp only: t sum.sel)
qed

lemma timeout_int_finite:
  assumes "m > 0"
  shows "timeout_int (PFloat (Fin m (- int k))) = Inr (- ((- m) div 10 ^ k)) \<and> - ((- m) div 10 ^ k) \<ge> 1"
proof -
  have "(- m) div 10 ^ k < 0" using assms by (intro div_neg_pos_less0) simp_all
  then have "- ((- m) div 10 ^ k) \<ge> 1" by simp
  moreover have "timeout_int (PFloat (Fin m (- int k))) = Inr (max 1 (- ((- m) div 10 ^ k)))"
    using assms by (cases "k = 0") (simp_all add: timeout_int_def)
  ultimately show ?thesis by (simp add: max_def)
qed

lemma neg_div_bounds:
  fixes m p :: int
  assumes "p > 0"
  shows "m \<le> - ((- m) div p) * p" "(- ((- m) div p) - 1) * p < m"
proof -
  define q where "q = (- m) div p"
  have "q * p + (- m) mod p = - m" by (simp add: q_def)
  moreover have "0 \<le> (- m) mod p" "(- m) mod p < p" using assms by simp_all
  moreover have "(- q - 1) * p = - (q * p) - p" "- q * p = - (q * p)" by (simp_all add: algebra_simps)
  ultimately show "m \<le> - ((- m) div p) * p" "(- ((- m) div p) - 1) * p < m"
    unfolding q_def [symmetric] by linarith+
qed

lemma classify_error_class:
  "classify_error status msg = Some e \<Longrightarrow>
     exc_class_of e \<in> {ConnectionError, Timeout, TLSError, InvalidURL, CycleTLSError}"
  by (auto simp: classify_error_def Let_def split: if_splits)

lemma classify_error_total_status0: "classify_error 0 msg \<noteq> None"
  by (auto simp: classify_error_def Let_def)

lemma classify_error_502:
  "\<exists>e. classify_error 502 msg = Some e \<and> exc_class_of e \<in> {ConnectionError, Timeout, TLSError}"
  by (simp add: classify_error_def Let_def)

lemma raise_for_error_response_int:
  "map_of data ''Status'' = Some (PInt status) \<Longrightarrow> map_of data ''Body'' = Some (PStr msg) \<Longrightarrow>
   raise_for_error_response data =
     (if (200 \<le> status \<and> status < 400) \<or> \<not> is_error_response status msg then Inr ()
      else case classify_error status msg of Some e \<Rightarrow> Inl e | None \<Rightarrow> Inr ())"
  by (auto simp: raise_for_error_response_def)

lemma response_headers_cached: "response_headers r = Inr (h, r') \<Longrightarrow> response_headers r' = Inr (h, r')"
  by (auto simp: response_headers_def Let_def split: option.splits)

lemma response_cookies_cached: "response_cookies r = (j, r') \<Longrightarrow> response_cookies r' = (j, r')"
  by (auto simp: response_cookies_def Let_def split: option.splits)

lemma dget_map_of: "dget d k = (case map_of d k of None \<Rightarrow> PNone | Some v \<Rightarrow> v)"
  by (simp add: dget_def dget_or_def)

lemma cookie_result_lookup:
  "map_of (cookie_result c) ''name'' = Some (ck_name c)"
  "map_of (cookie_result c) ''value'' = Some (ck_value c)"
  "dget (cookie_result c) ''path'' = ck_path c"
  "dget (cookie_result c) ''domain'' = ck_domain c"
  "dget (cookie_result c) ''maxAge'' = ck_max_age c"
  "map_of (cookie_result c) ''secure'' = Some (ck_secure c)"
  "map_of (cookie_result c) ''httpOnly'' = Some (ck_http_only c)"
  "map_of (cookie_result c) ''sameSite'' =
     (if ck_same_site c = PNone then None else Some (convert_same_site (ck_same_site c)))"
  by (simp_all add: cookie_result_def Let_def dget_map_of)

lemma convert_same_site_names:
  "convert_same_site (PStr ''Lax'') = PInt 2"
  "convert_same_site (PStr ''Strict'') = PInt 3"
  "convert_same_site (PStr ''None'') = PInt 4"
  by code_simp+

subsection \<open>Properties\<close>

text \<open>A positive timeout, a float \<open>m * 10 ^ - k\<close> with \<open>m > 0\<close>, is sent to the Go library as the
  least integer that is not below it, and never as 0 (which the Go side would read as its own default).\<close>

theorem timeout_rounds_up:
  assumes "m > 0"
  shows "\<exists>n. timeout_int (PFloat (Fin m (- int k))) = Inr n \<and> 1 \<le> n \<and> m \<le> n * 10 ^ k \<and> (n - 1) * 10 ^ k < m"
  using timeout_int_finite [OF assms, of k] neg_div_bounds [of "10 ^ k" m] by auto

theorem timeout_rounds_up_witness:
  "\<exists>n. timeout_int (PFloat (Fin 25 (- int 1))) = Inr n \<and> 1 \<le> n \<and> 25 \<le> n * 10 ^ 1 \<and> (n - 1) * 10 ^ 1 < 25"
  by (rule timeout_rounds_up) simp

text \<open>The options dictionary built by \<^verbatim>\<open>Request.to_dict\<close> has every fingerprint option exactly when
  it is set: in particular a JA3 string is sent also when a JA4_r string is set.\<close>

theorem request_to_dict_fingerprints:
  assumes "request_to_dict r = Inr d"
  shows "map_of d ''ja3'' = (if rq_ja3 r = PNone then None else Some (rq_ja3 r)) \<and>
    map_of d ''ja4r'' = (if rq_ja4r r = PNone then None else Some (rq_ja4r r)) \<and>
    map_of d ''http2Fingerprint'' = (if rq_http2_fingerprint r = PNone then None else Some (rq_http2_fingerprint r)) \<and>
    map_of d ''quicFingerprint'' = (if rq_quic_fingerprint r = PNone then None else Some (rq_quic_fingerprint r)) \<and>
    map_of d ''url'' = Some (PStr (rq_url r)) \<and> map_of d ''method'' = Some (PStr (rq_method r)) \<and>
    map_of d ''headers'' = Some (rq_headers r) \<and> map_of d ''body'' = Some (rq_body r)"
  by (intro conjI; subst request_to_dict_plain [OF assms])
    (simp_all add: plain_options_def Let_def required_options_def)

text \<open>C1. \<^verbatim>\<open>_raise_for_error_response\<close> on a reply with an integer status and a text body: a 2xx or 3xx
  reply is never an error, whatever its body says; a reply with status 0 always raises; and whatever is raised
  is a \<^verbatim>\<open>CycleTLSError\<close>, so the documented \<^verbatim>\<open>except CycleTLSError\<close> catches it.\<close>

theorem error_reply_classification:
  assumes "map_of data ''Status'' = Some (PInt status)" "map_of data ''Body'' = Some (PStr msg)"
  shows "(200 \<le> status \<and> status < 400 \<longrightarrow> raise_for_error_response data = Inr ()) \<and>
    (status = 0 \<longrightarrow> (\<exists>e. raise_for_error_response data = Inl e)) \<and>
    (\<forall>e. raise_for_error_response data = Inl e \<longrightarrow> isinstance_exc e CycleTLSError)"
proof -
  have "\<exists>e. classify_error 0 msg = Some e"
    using classify_error_total_status0 [of msg] by simp
  then show ?thesis
    unfolding raise_for_error_response_int [OF assms]
    by (auto simp: isinstance_exc_def is_error_response_def dest: classify_error_class split: option.splits)
qed

theorem error_reply_classification_witness:
  "(\<exists>e. raise_for_error_response [(''Status'', PInt 0), (''Body'', PStr ''boom'')] = Inl e) \<and>
   raise_for_error_response [(''Status'', PInt 200), (''Body'', PStr ''syscall error: x'')] = Inr ()"
  using error_reply_classification [of "[(''Status'', PInt 0), (''Body'', PStr ''boom'')]" 0 "''boom''"]
    error_reply_classification [of "[(''Status'', PInt 200), (''Body'', PStr ''syscall error: x'')]" 200
      "''syscall error: x''"]
  by simp

text \<open>A reply is raised only if the Go library marked it: an ordinary HTTP error response whose body holds
  neither the syscall marker nor an arrow is returned to the caller, whatever words its body contains.\<close>

theorem unmarked_http_error_returned:
  assumes "map_of data ''Status'' = Some (PInt status)" "map_of data ''Body'' = Some (PStr msg)"
    and "status \<noteq> 0" "\<not> contains (lower msg) ''syscall error:''" "\<not> contains msg ''->''"
  shows "raise_for_error_response data = Inr ()"
  using assms(3-5) unfolding raise_for_error_response_int [OF assms(1,2)]
  by (simp add: is_error_response_def)

theorem unmarked_http_error_returned_witness:
  "raise_for_error_response [(''Status'', PInt 404), (''Body'', PStr ''dns timeout'')] = Inr ()"
  by (rule unmarked_http_error_returned [where status = 404 and msg = "''dns timeout''"])
    (simp_all add: contains_def lower_def lower_char_def sublist_eval)

text \<open>The arrow test takes the end of an HTML comment for a marker of the Go library: a genuine
  \<^verbatim>\<open>502\<close> page that contains a comment is raised as a refused connection, or as another transport
  error, and never reaches the caller.\<close>

theorem html_comment_502_raised:
  "\<exists>e. raise_for_error_response [(''Status'', PInt 502), (''Body'', PStr (pre @ ''-->'' @ post))] = Inl e \<and>
     exc_class_of e \<in> {ConnectionError, Timeout, TLSError}"
proof -
  have "contains (pre @ ''-->'' @ post) ''->''"
    unfolding contains_def sublist_def by (rule exI [of _ "pre @ ''-''"], rule exI [of _ post]) simp
  then have marked: "is_error_response 502 (pre @ ''-->'' @ post)"
    unfolding is_error_response_def by simp
  obtain e where "classify_error 502 (pre @ ''-->'' @ post) = Some e"
    "exc_class_of e \<in> {ConnectionError, Timeout, TLSError}"
    using classify_error_502 by blast
  with marked show ?thesis
    by (subst raise_for_error_response_int [where status = 502 and msg = "pre @ ''-->'' @ post"]) simp_all
qed

text \<open>\<^verbatim>\<open>raise_for_status\<close> raises exactly for the statuses from 400 on, hands the response to the
  handler, and agrees with the status predicates: a client or server error is never \<^verbatim>\<open>ok\<close>, and a
  redirect never raises.\<close>

theorem raise_for_status_iff:
  "(raise_for_status r \<noteq> Inr () \<longleftrightarrow> status_code r \<ge> 400) \<and>
   (case raise_for_status r of Inl e \<Rightarrow> he_response e = r | Inr _ \<Rightarrow> \<not> is_error r) \<and>
   (response_ok r \<or> is_redirect r \<longleftrightarrow> 200 \<le> status_code r \<and> status_code r < 400) \<and>
   \<not> ((is_client_error r \<or> is_server_error r) \<and> (response_ok r \<or> raise_for_status r = Inr ()))"
  by (auto simp: raise_for_status_def is_error_def response_ok_def is_redirect_def is_client_error_def
      is_server_error_def)

text \<open>A successful reply with its headers becomes a response whose header dictionary answers a lookup in
  any spelling of the header's case with the value of the last matching header, and reading the property a
  second time gives the same dictionary object.\<close>

theorem response_headers_case_insensitive:
  assumes "dict_to_response fromiso data True = Inr r"
    and "map_of data ''Headers'' = Some (PDict (pre @ (k', v) # post))"
    and "lower k' = lower k" "lower k \<notin> lower ` fst ` set post"
  shows "\<exists>h r'. response_headers r = Inr (h, r') \<and> cid_getitem h k = Inr v \<and> response_headers r' = Inr (h, r')"
proof -
  from assms(1,2) have r: "raw_headers r = PDict (pre @ (k', v) # post)" "headers_dict r = None"
    by (auto simp: dict_to_response_def)
  let ?h = "cid_init (pre @ (k', v) # post)"
  have "cid_lookup ?h k = Some v"
    unfolding cid_init_def cid_update_put_all
    by (rule cid.lookup_put_all_last) (use assms(3,4) in simp_all)
  moreover have "response_headers r = Inr (?h, r\<lparr>headers_dict := Some ?h\<rparr>)"
    using r by (simp add: response_headers_def Let_def)
  ultimately show ?thesis
    using response_headers_cached by (fastforce simp: cid_getitem_lookup)
qed

theorem response_headers_case_insensitive_witness:
  "\<exists>h r'. response_headers (projr (dict_to_response (\<lambda>_. Inl (Exc ValueError []))
      [(''Status'', PInt 200), (''Headers'', PDict [(''X-Id'', PStr ''1'')])] True)) = Inr (h, r') \<and>
    cid_getitem h ''x-id'' = Inr (PStr ''1'') \<and> response_headers r' = Inr (h, r')"
proof (rule response_headers_case_insensitive [where fromiso = "\<lambda>_. Inl (Exc ValueError [])"
        and data = "[(''Status'', PInt 200), (''Headers'', PDict [(''X-Id'', PStr ''1'')])]"
        and pre = "[]" and post = "[]" and k' = "''X-Id''"])
  show "lower ''X-Id'' = lower ''x-id''" by code_simp
qed (simp_all add: dict_to_response_def raise_for_error_response_def parse_cookies_def)

text \<open>A cookie in the Go library's reply keeps its attributes when it is sent again: converting the reply's
  dictionary to a \<^verbatim>\<open>Cookie\<close> and the cookie back to a dictionary preserves name, value, path, domain,
  age and the flags, and maps each \<^verbatim>\<open>SameSite\<close> name to the number the Go side decodes.\<close>

theorem cookie_wire_roundtrip:
  assumes "dict_to_cookie fromiso (PDict d) = Inr c" "cookie_to_dict (PCookie c) = Inr d'"
  shows "map_of d' ''name'' = map_of d ''name'' \<and> map_of d' ''value'' = map_of d ''value'' \<and>
    dget d' ''path'' = dget d ''path'' \<and> dget d' ''domain'' = dget d ''domain'' \<and>
    dget d' ''maxAge'' = dget d ''maxAge'' \<and>
    map_of d' ''secure'' = Some (dget_or d ''secure'' (PBool False)) \<and>
    map_of d' ''httpOnly'' = Some (dget_or d ''httpOnly'' (PBool False)) \<and>
    (dget d ''sameSite'' = PStr ''Lax'' \<longrightarrow> map_of d' ''sameSite'' = Some (PInt 2)) \<and>
    (dget d ''sameSite'' = PStr ''Strict'' \<longrightarrow> map_of d' ''sameSite'' = Some (PInt 3)) \<and>
    (dget d ''sameSite'' = PStr ''None'' \<longrightarrow> map_of d' ''sameSite'' = Some (PInt 4))"
proof -
  from assms(1) obtain ex n v where ex: "map_of d ''name'' = Some n" "map_of d ''value'' = Some v"
    and c: "c = Cookie n v (dget d ''path'') (dget d ''domain'') ex (dget d ''maxAge'')
         (dget_or d ''secure'' (PBool False)) (dget_or d ''httpOnly'' (PBool False)) (dget d ''sameSite'')"
    by (auto simp: getitem_def split: option.splits)
  from assms(2) have d': "d' = cookie_result c" by simp
  show ?thesis
    unfolding d' cookie_result_lookup unfolding c
    by (simp add: ex convert_same_site_names del: convert_same_site.simps)
qed

theorem cookie_wire_roundtrip_witness:
  "map_of (cookie_result (Cookie (PStr ''sid'') (PStr ''1'') PNone PNone PNone PNone (PBool False)
     (PBool False) (PStr ''Lax''))) ''sameSite'' = Some (PInt 2)"
proof -
  let ?d = "[(''name'', PStr ''sid''), (''value'', PStr ''1''), (''sameSite'', PStr ''Lax'')]"
  let ?c = "Cookie (PStr ''sid'') (PStr ''1'') PNone PNone PNone PNone (PBool False) (PBool False) (PStr ''Lax'')"
  have "dict_to_cookie (\<lambda>_. Inl (Exc ValueError [])) (PDict ?d) = Inr ?c"
    by (simp add: getitem_def)
  from cookie_wire_roundtrip [OF this] show ?thesis by simp
qed

theorem request_to_dict_fingerprints_witness:
  "\<exists>r d. request_init ''https://a.b'' ''get'' [(''ja3'', PStr ''771,1,2,3,4''), (''ja4r'', PStr ''t13d'')] = Inr r \<and>
     request_to_dict r = Inr d \<and> map_of d ''ja3'' = Some (PStr ''771,1,2,3,4'') \<and>
     map_of d ''ja4r'' = Some (PStr ''t13d'')"
proof -
  let ?kw = "[(''ja3'', PStr ''771,1,2,3,4''), (''ja4r'', PStr ''t13d'')]"
  obtain r where r: "request_init ''https://a.b'' ''get'' ?kw = Inr r"
    by (simp add: request_init_def request_fields_def)
  then have f: "rq_ja3 r = PStr ''771,1,2,3,4''" "rq_ja4r r = PStr ''t13d''" "rq_timeout r = PInt 6"
    "rq_protocol r = PNone" "rq_cookies r = PNone" "rq_header_values r = PNone"
    by (auto simp: request_init_def request_fields_def)
  obtain d where d: "request_to_dict r = Inr d"
    by (simp add: request_to_dict_def Let_def opt_setE_def f timeout_int_def)
  from request_to_dict_fingerprints [OF d] r d f show ?thesis by auto
qed

end
