(* ===== verification/Config.thy ===== *)
theory Config
  imports Pyval
begin

section \<open>Module-level defaults (\<^verbatim>\<open>cycletls/_config.py\<close>)\<close>

text \<open>
  \<open>config_state\<close> holds the module's two mutable globals: \<open>cfg\<close> is \<^verbatim>\<open>_config\<close> and
  \<open>merged_cache\<close> is \<^verbatim>\<open>_merged_cache\<close>. An operation that raises returns the state it
  leaves behind with the exception, since a failing \<^verbatim>\<open>set_default\<close> has already stored the
  options before the invalid one. \<open>coherent\<close> says that a cached result is the result the
  current configuration gives.
\<close>

record config_state =
  cfg :: kwargs
  merged_cache :: "kwargs option"

definition config_to_param :: "(string \<times> string) list" where
  "config_to_param = [
     (''default_ja3'', ''ja3''), (''default_ja4r'', ''ja4r''),
     (''default_http2_fingerprint'', ''http2_fingerprint''),
     (''default_quic_fingerprint'', ''quic_fingerprint''),
     (''default_disable_grease'', ''disable_grease''), (''default_user_agent'', ''user_agent''),
     (''default_proxy'', ''proxy''), (''default_local_address'', ''local_address''),
     (''default_timeout'', ''timeout''),
     (''default_enable_connection_reuse'', ''enable_connection_reuse''),
     (''default_insecure_skip_verify'', ''insecure_skip_verify''),
     (''default_server_name'', ''server_name''), (''default_force_http1'', ''force_http1''),
     (''default_force_http3'', ''force_http3''), (''default_protocol'', ''protocol''),
     (''default_disable_redirect'', ''disable_redirect''), (''default_header_order'', ''header_order''),
     (''default_order_headers_as_provided'', ''order_headers_as_provided''),
     (''default_headers'', ''headers'')]"

definition configurable_attrs :: "string list" where
  "configurable_attrs = dkeys config_to_param"

text \<open>The key \<^verbatim>\<open>f"default_{key}"\<close> under which an option is stored.\<close>

definition config_key_of :: "string \<Rightarrow> string" where
  "config_key_of key = ''default_'' @ key"

subsection \<open>Validation\<close>

fun is_bool :: "pyval \<Rightarrow> bool" where
  "is_bool (PBool _) = True" | "is_bool _ = False"

fun is_none_or_str :: "pyval \<Rightarrow> bool" where
  "is_none_or_str PNone = True" | "is_none_or_str (PStr _) = True"
| "is_none_or_str (PProtocol _) = True" | "is_none_or_str _ = False"

fun is_none_or_list :: "pyval \<Rightarrow> bool" where
  "is_none_or_list PNone = True" | "is_none_or_list (PList _) = True" | "is_none_or_list _ = False"

fun is_none_or_dict :: "pyval \<Rightarrow> bool" where
  "is_none_or_dict PNone = True" | "is_none_or_dict (PDict _) = True" | "is_none_or_dict _ = False"

definition is_positive_number :: "pyval \<Rightarrow> bool" where
  "is_positive_number v = (is_number v \<and> py_positive v = Inr True)"

definition validators :: "(string \<times> (pyval \<Rightarrow> bool)) list" where
  "validators = [
     (''default_timeout'', is_positive_number),
     (''default_enable_connection_reuse'', is_bool), (''default_insecure_skip_verify'', is_bool),
     (''default_force_http1'', is_bool), (''default_force_http3'', is_bool),
     (''default_disable_redirect'', is_bool), (''default_disable_grease'', is_bool),
     (''default_order_headers_as_provided'', is_bool),
     (''default_proxy'', is_none_or_str), (''default_local_address'', is_none_or_str),
     (''default_ja3'', is_none_or_str), (''default_ja4r'', is_none_or_str),
     (''default_user_agent'', is_none_or_str), (''default_server_name'', is_none_or_str),
     (''default_http2_fingerprint'', is_none_or_str), (''default_quic_fingerprint'', is_none_or_str),
     (''default_header_order'', is_none_or_list), (''default_headers'', is_none_or_dict)]"

definition validate_config :: "string \<Rightarrow> pyval \<Rightarrow> unit res" where
  "validate_config name v = (case map_of validators name of
     None \<Rightarrow> Inr ()
   | Some ok \<Rightarrow> if ok v then Inr ()
       else Inl (Exc ValueError (''Invalid value for '' @ name @ '': '' @ py_str v)))"

subsection \<open>Merging\<close>

text \<open>The loop over \<^verbatim>\<open>_CONFIG_TO_PARAM_MAPPING\<close>; \<open>skip\<close> are the parameters the request sets itself.\<close>

fun collect_defaults :: "kwargs \<Rightarrow> (string \<Rightarrow> bool) \<Rightarrow> (string \<times> string) list \<Rightarrow> kwargs \<Rightarrow> kwargs" where
  "collect_defaults c skip [] result = result"
| "collect_defaults c skip ((config_key, param_key) # rest) result =
     collect_defaults c skip rest
       (case map_of c config_key of
          Some v \<Rightarrow> if skip param_key then result else dset result param_key v
        | None \<Rightarrow> result)"

definition merge_defaults :: "config_state \<Rightarrow> kwargs \<Rightarrow> kwargs \<times> config_state" where
  "merge_defaults st kw =
     (if cfg st = [] then (kw, st)
      else if kw = [] then
        (case merged_cache st of
           Some c \<Rightarrow> (c, st)
         | None \<Rightarrow> let r = collect_defaults (cfg st) (\<lambda>_. False) config_to_param []
             in (r, st\<lparr>merged_cache := Some r\<rparr>))
      else (dupdate (collect_defaults (cfg st) (\<lambda>p. dhas kw p) config_to_param []) kw, st))"

subsection \<open>Setting, resetting, reading\<close>

fun set_default_loop :: "config_state \<Rightarrow> kwargs \<Rightarrow> config_state \<times> unit res" where
  "set_default_loop st [] = (st, Inr ())"
| "set_default_loop st ((key, v) # kw) =
     (let config_key = config_key_of key in
      if config_key \<notin> set configurable_attrs
      then (st, Inl (Exc ValueError (''Unknown configuration option: '' @ key)))
      else case validate_config config_key v of
        Inl e \<Rightarrow> (st, Inl e)
      | Inr _ \<Rightarrow> set_default_loop (st\<lparr>cfg := dset (cfg st) config_key v\<rparr>) kw)"

definition set_default :: "config_state \<Rightarrow> kwargs \<Rightarrow> config_state \<times> unit res" where
  "set_default st kw = (case set_default_loop st kw of
     (st', Inl e) \<Rightarrow> (st', Inl e)
   | (st', Inr _) \<Rightarrow> (st'\<lparr>merged_cache := None\<rparr>, Inr ()))"

definition reset_defaults :: "config_state \<Rightarrow> config_state" where
  "reset_defaults st = \<lparr>cfg = [], merged_cache = None\<rparr>"

definition get_default :: "config_state \<Rightarrow> string \<Rightarrow> pyval res" where
  "get_default st key = (let config_key = config_key_of key in
     if config_key \<notin> set configurable_attrs
     then Inl (Exc ValueError (''Unknown configuration option: '' @ key))
     else Inr (dget (cfg st) config_key))"

text \<open>The module starts empty; importing the package sets one option (\<^verbatim>\<open>cycletls/__init__.py\<close>).\<close>

definition initial_config :: config_state where
  "initial_config = \<lparr>cfg = [], merged_cache = None\<rparr>"

definition import_config :: config_state where
  "import_config = fst (set_default initial_config [(''enable_connection_reuse'', PBool True)])"

text \<open>\<^verbatim>\<open>cycletls.__getattr__\<close>.\<close>

definition module_getattr :: "config_state \<Rightarrow> string \<Rightarrow> pyval res" where
  "module_getattr st name = (if name \<in> set configurable_attrs then Inr (dget (cfg st) name)
     else Inl (Exc AttributeError (''module '' @ str_repr ''cycletls'' @ '' has no attribute '' @ str_repr name)))"

subsection \<open>Invariants and specification\<close>

definition coherent :: "config_state \<Rightarrow> bool" where
  "coherent st = (case merged_cache st of None \<Rightarrow> True
     | Some c \<Rightarrow> c = collect_defaults (cfg st) (\<lambda>_. False) config_to_param [])"

definition config_ok :: "config_state \<Rightarrow> bool" where
  "config_ok st = (distinct (dkeys (cfg st)) \<and>
     list_all (\<lambda>(k, v). k \<in> set configurable_attrs \<and> validate_config k v = Inr ()) (cfg st))"

text \<open>What a merge promises for one parameter: the request's value, else the configured default.\<close>

definition effective :: "config_state \<Rightarrow> kwargs \<Rightarrow> string \<Rightarrow> pyval option" where
  "effective st kw p = (case map_of kw p of Some v \<Rightarrow> Some v
     | None \<Rightarrow> if config_key_of p \<in> set configurable_attrs then map_of (cfg st) (config_key_of p) else None)"

subsection \<open>Lemmas\<close>

lemma config_key_of_eq [simp]: "config_key_of k = config_key_of l \<longleftrightarrow> k = l"
  by (simp add: config_key_of_def)

lemma config_to_param_prefix: "(c, p) \<in> set config_to_param \<Longrightarrow> c = config_key_of p"
proof -
  have "list_all (\<lambda>(c, p). c = config_key_of p) config_to_param" by code_simp
  then show "(c, p) \<in> set config_to_param \<Longrightarrow> c = config_key_of p"
    by (auto simp: list_all_iff)
qed

lemma collect_defaults_lookup:
  assumes "\<And>c p. (c, p) \<in> set m \<Longrightarrow> c = config_key_of p"
  shows "map_of (collect_defaults c skip m r) k =
    (if config_key_of k \<in> set (dkeys m) \<and> \<not> skip k \<and> map_of c (config_key_of k) \<noteq> None
     then map_of c (config_key_of k) else map_of r k)"
  using assms
proof (induction c skip m r rule: collect_defaults.induct)
  case (2 c skip ck pk rest r)
  have "ck = config_key_of pk" using "2.prems" by simp
  moreover note "2.IH" [OF "2.prems"]
  ultimately show ?case by (auto split: option.splits)
qed simp

lemma collect_defaults_config:
  "map_of (collect_defaults c skip config_to_param []) k =
    (if config_key_of k \<in> set configurable_attrs \<and> \<not> skip k then map_of c (config_key_of k) else None)"
  by (subst collect_defaults_lookup) (auto simp: configurable_attrs_def dest: config_to_param_prefix)

lemma set_default_loop_cache: "merged_cache (fst (set_default_loop st kw)) = merged_cache st"
proof (induction st kw rule: set_default_loop.induct)
  case (2 st key v kw)
  then show ?case by (simp add: Let_def split: sum.splits)
qed simp

lemma coherent_after_set_default: "snd (set_default st kw) = Inr () \<Longrightarrow> coherent (fst (set_default st kw))"
  by (auto simp: set_default_def coherent_def split: prod.splits sum.splits)

lemma config_ok_dset:
  assumes "config_ok st" "ck \<in> set configurable_attrs" "validate_config ck v = Inr ()"
  shows "config_ok (st\<lparr>cfg := dset (cfg st) ck v\<rparr>)"
  using assms set_dset_subset [of "cfg st" ck v] by (fastforce simp: config_ok_def list_all_iff)

lemma config_ok_set_default_loop: "config_ok st \<Longrightarrow> config_ok (fst (set_default_loop st kw))"
proof (induction st kw rule: set_default_loop.induct)
  case (2 st key v kw)
  then show ?case by (simp add: Let_def config_ok_dset split: sum.splits)
qed simp

lemma set_default_loop_lookup:
  "snd (set_default_loop st kw) = Inr () \<Longrightarrow> distinct (dkeys kw) \<Longrightarrow>
   map_of (cfg (fst (set_default_loop st kw))) (config_key_of k) =
     (case map_of kw k of Some v \<Rightarrow> Some v | None \<Rightarrow> map_of (cfg st) (config_key_of k))"
proof (induction st kw rule: set_default_loop.induct)
  case (2 st key v kw)
  have "map_of kw key = None" using "2.prems"(2) by (simp add: map_of_eq_None_iff)
  with 2 show ?case by (cases "k = key") (simp_all add: Let_def split: sum.splits if_splits option.splits)
qed simp

lemma set_default_loop_known:
  "snd (set_default_loop st kw) = Inr () \<Longrightarrow> k \<in> set (dkeys kw) \<Longrightarrow> config_key_of k \<in> set configurable_attrs"
proof (induction st kw rule: set_default_loop.induct)
  case (2 st key v kw)
  then show ?case by (auto simp: Let_def split: sum.splits if_splits)
qed simp

lemma merge_defaults_effective:
  assumes "coherent st" "distinct (dkeys kw)"
  shows "map_of (fst (merge_defaults st kw)) p = effective st kw p" "coherent (snd (merge_defaults st kw))"
proof -
  have "map_of (fst (merge_defaults st kw)) p = effective st kw p \<and> coherent (snd (merge_defaults st kw))"
  proof (cases "cfg st = []")
    case True
    with assms show ?thesis by (simp add: merge_defaults_def effective_def split: option.split)
  next
    case False
    show ?thesis
    proof (cases "kw = []")
      case True
      with False assms(1) show ?thesis
        by (auto simp: merge_defaults_def effective_def coherent_def Let_def collect_defaults_config split: option.splits)
    next
      case kw: False
      with False assms show ?thesis
        by (auto simp: merge_defaults_def effective_def map_of_dupdate_distinct map_add_def
            collect_defaults_config split: option.splits)
    qed
  qed
  then show "map_of (fst (merge_defaults st kw)) p = effective st kw p" "coherent (snd (merge_defaults st kw))" by simp_all
qed

subsection \<open>Properties\<close>

text \<open>C8. The optimised merge refines its specification: with a coherent cache, on every one of its paths (no
  defaults, cached defaults, first call without options, merge with options) each parameter gets the request's
  value if the request sets it and the configured default otherwise, and the cache stays coherent.\<close>

theorem merge_defaults_refines:
  assumes "coherent st" "distinct (dkeys kw)"
  shows "map_of (fst (merge_defaults st kw)) p = effective st kw p \<and> coherent (snd (merge_defaults st kw))"
  using merge_defaults_effective [OF assms] by blast

theorem merge_defaults_refines_witness:
  "map_of (fst (merge_defaults import_config [(''timeout'', PInt 5)])) ''timeout'' = Some (PInt 5) \<and>
   coherent (snd (merge_defaults import_config [(''timeout'', PInt 5)]))"
proof -
  have "coherent import_config"
    by code_simp
  from merge_defaults_refines [OF this, of "[(''timeout'', PInt 5)]" "''timeout''"] show ?thesis
    by (simp add: effective_def)
qed

text \<open>A call of \<^verbatim>\<open>set_default\<close> that succeeds makes every option it was given readable through
  \<^verbatim>\<open>get_default\<close>, keeps all other options, invalidates the cache, and leaves only known options with
  validated values in the configuration.\<close>

theorem set_default_then_get:
  assumes "set_default st kw = (st', Inr ())" "distinct (dkeys kw)" "config_ok st"
  shows "get_default st' k = (case map_of kw k of Some v \<Rightarrow> Inr v | None \<Rightarrow> get_default st k) \<and>
    merged_cache st' = None \<and> config_ok st'"
proof -
  from assms(1) have loop: "snd (set_default_loop st kw) = Inr ()"
    and st': "st' = (fst (set_default_loop st kw))\<lparr>merged_cache := None\<rparr>"
    by (auto simp: set_default_def split: prod.splits sum.splits)
  have "config_ok st'"
    using config_ok_set_default_loop [OF assms(3), of kw] by (simp add: st' config_ok_def)
  moreover have "get_default st' k = (case map_of kw k of Some v \<Rightarrow> Inr v | None \<Rightarrow> get_default st k)"
  proof (cases "map_of kw k")
    case None
    then show ?thesis using set_default_loop_lookup [OF loop assms(2), of k]
      by (simp add: get_default_def st' dget_def dget_or_def Let_def)
  next
    case (Some v)
    then have "k \<in> set (dkeys kw)" by (metis domI dom_map_of_conv_image_fst list.set_map)
    with Some show ?thesis
      using set_default_loop_lookup [OF loop assms(2), of k] set_default_loop_known [OF loop, of k]
      by (simp add: get_default_def st' dget_def dget_or_def Let_def)
  qed
  ultimately show ?thesis by (simp add: st')
qed

theorem set_default_then_get_witness:
  "get_default (fst (set_default initial_config [(''timeout'', PInt 10)])) ''timeout'' = Inr (PInt 10)"
proof -
  have "set_default initial_config [(''timeout'', PInt 10)] =
      (\<lparr>cfg = [(''default_timeout'', PInt 10)], merged_cache = None\<rparr>, Inr ())"
    by code_simp
  from set_default_then_get [OF this, of "''timeout''"] this show ?thesis
    by (simp add: config_ok_def initial_config_def)
qed

text \<open>A call of \<^verbatim>\<open>set_default\<close> that fails half-way breaks the cache: the options before the invalid
  one are stored, but the cached defaults are kept, so a request without options still gets the old value
  while a request with any option gets the new one.\<close>

theorem failed_set_default_leaves_stale_cache:
  "\<exists>st1 st2 e. st1 = snd (merge_defaults (fst (set_default initial_config [(''timeout'', PInt 10)])) []) \<and>
     coherent st1 \<and> set_default st1 [(''timeout'', PInt 5), (''bogus'', PInt 1)] = (st2, Inl e) \<and>
     \<not> coherent st2 \<and>
     map_of (fst (merge_defaults st2 [])) ''timeout'' = Some (PInt 10) \<and>
     map_of (fst (merge_defaults st2 [(''proxy'', PNone)])) ''timeout'' = Some (PInt 5)"
proof -
  let ?st1 = "\<lparr>cfg = [(''default_timeout'', PInt 10)], merged_cache = Some [(''timeout'', PInt 10)]\<rparr>"
  let ?st2 = "\<lparr>cfg = [(''default_timeout'', PInt 5)], merged_cache = Some [(''timeout'', PInt 10)]\<rparr>"
  have "?st1 = snd (merge_defaults (fst (set_default initial_config [(''timeout'', PInt 10)])) [])"
    by code_simp
  moreover have "coherent ?st1" "\<not> coherent ?st2" by code_simp+
  moreover have "set_default ?st1 [(''timeout'', PInt 5), (''bogus'', PInt 1)] =
      (?st2, Inl (Exc ValueError ''Unknown configuration option: bogus''))"
    by code_simp
  moreover have "map_of (fst (merge_defaults ?st2 [])) ''timeout'' = Some (PInt 10)"
    "map_of (fst (merge_defaults ?st2 [(''proxy'', PNone)])) ''timeout'' = Some (PInt 5)"
    by code_simp+
  ultimately show ?thesis by metis
qed

end
