(* ===== verification/Global.thy ===== *)
theory Global
  imports Prelude
begin

section \<open>The global session (\<^verbatim>\<open>cycletls/_global.py\<close>)\<close>

text \<open>
  \<open>global_vars\<close> holds the module's globals. A session object is its identity, a number drawn
  from \<open>next_session\<close>; \<open>closed_sessions\<close> lists the objects whose \<^verbatim>\<open>close\<close> ran, in order, and
  \<open>atexit_handlers\<close> counts the calls of \<^verbatim>\<open>atexit.register(_cleanup_global_session)\<close>. The
  \<^verbatim>\<open>close\<close> of a session without batching cannot raise, so the \<^verbatim>\<open>except\<close> arms add no branch.

  The functions of the module come twice: as functions on the globals (what one thread sees when no
  other runs) and as \<open>gstep\<close>, the interleaving of threads at the granularity of single reads and
  writes of the globals and of the lock. \<open>ops\<close> are the operations threads may start, \<open>pid\<close> is what
  \<^verbatim>\<open>os.getpid\<close> returns to them. \<open>initial_machine parent\<close> has the globals as the import of the module in
  the process \<open>parent\<close> left them: with \<open>parent = pid\<close> the threads run in that process, otherwise in a child
  forked from it, where the first calls take the branch that drops the inherited session without the lock.
\<close>

record global_vars =
  global_session :: "nat option"
  cleanup_registered :: bool
  parent_pid :: int
  next_session :: nat
  closed_sessions :: "nat list"
  atexit_handlers :: nat

definition initial_globals :: "int \<Rightarrow> global_vars" where
  "initial_globals pid = \<lparr>global_session = None, cleanup_registered = False, parent_pid = pid,
     next_session = 0, closed_sessions = [], atexit_handlers = 0\<rparr>"

definition create_session :: "global_vars \<Rightarrow> global_vars" where
  "create_session g = g\<lparr>global_session := Some (next_session g), next_session := Suc (next_session g)\<rparr>"

definition register_cleanup :: "global_vars \<Rightarrow> global_vars" where
  "register_cleanup g = (if cleanup_registered g then g
     else g\<lparr>atexit_handlers := Suc (atexit_handlers g), cleanup_registered := True\<rparr>)"

definition fork_check :: "int \<Rightarrow> global_vars \<Rightarrow> global_vars" where
  "fork_check current_pid g = (if current_pid \<noteq> parent_pid g
     then g\<lparr>global_session := None, parent_pid := current_pid\<rparr> else g)"

definition get_global_session :: "int \<Rightarrow> global_vars \<Rightarrow> nat option \<times> global_vars" where
  "get_global_session current_pid g0 =
    (let g1 = fork_check current_pid g0;
         g2 = (if global_session g1 = None then register_cleanup (create_session g1) else g1)
     in (global_session g2, g2))"

definition close_session :: "global_vars \<Rightarrow> global_vars" where
  "close_session g = (case global_session g of None \<Rightarrow> g
     | Some i \<Rightarrow> g\<lparr>closed_sessions := closed_sessions g @ [i]\<rparr>)"

definition cleanup_global_session :: "global_vars \<Rightarrow> global_vars" where
  "cleanup_global_session g = (if global_session g \<noteq> None
     then (close_session g)\<lparr>global_session := None\<rparr> else g)"

definition close_global_session :: "global_vars \<Rightarrow> global_vars" where
  "close_global_session g = (if global_session g \<noteq> None
     then (close_session g)\<lparr>global_session := None\<rparr> else g)"

subsection \<open>Interleaving\<close>

datatype gop = OpGet | OpClose | OpCleanup

datatype gpc =
    Idle
  | GetCheckPid | GetReset | GetSetPid | GetTest1 | GetAcquire | GetTest2 | GetCreate | GetRegister
  | GetRelease | GetReturn | Returned "nat option"
  | CloseTest1 | CloseAcquire | CloseTest2 | CloseCall | CloseClear | CloseRelease
  | CleanupTest | CleanupCall | CleanupClear

record gmachine =
  vars :: global_vars
  lock :: "nat option"
  pc :: "nat \<Rightarrow> gpc"

abbreviation goto :: "gmachine \<Rightarrow> nat \<Rightarrow> gpc \<Rightarrow> gmachine" where
  "goto s t p \<equiv> s\<lparr>pc := (pc s)(t := p)\<rparr>"

abbreviation upd :: "gmachine \<Rightarrow> global_vars \<Rightarrow> gmachine" where
  "upd s g \<equiv> s\<lparr>vars := g\<rparr>"

definition initial_machine :: "int \<Rightarrow> gmachine" where
  "initial_machine parent = \<lparr>vars = initial_globals parent, lock = None, pc = (\<lambda>_. Idle)\<rparr>"

inductive gstep :: "gop set \<Rightarrow> int \<Rightarrow> gmachine \<Rightarrow> gmachine \<Rightarrow> bool" for ops pid where
  start_get: "OpGet \<in> ops \<Longrightarrow> pc s t = Idle \<Longrightarrow> gstep ops pid s (goto s t GetCheckPid)"
| check_pid: "pc s t = GetCheckPid \<Longrightarrow>
    gstep ops pid s (goto s t (if pid \<noteq> parent_pid (vars s) then GetReset else GetTest1))"
| get_reset: "pc s t = GetReset \<Longrightarrow>
    gstep ops pid s (goto (upd s ((vars s)\<lparr>global_session := None\<rparr>)) t GetSetPid)"
| get_set_pid: "pc s t = GetSetPid \<Longrightarrow>
    gstep ops pid s (goto (upd s ((vars s)\<lparr>parent_pid := pid\<rparr>)) t GetTest1)"
| get_test1: "pc s t = GetTest1 \<Longrightarrow>
    gstep ops pid s (goto s t (if global_session (vars s) = None then GetAcquire else GetReturn))"
| get_acquire: "pc s t = GetAcquire \<Longrightarrow> lock s = None \<Longrightarrow>
    gstep ops pid s (goto (s\<lparr>lock := Some t\<rparr>) t GetTest2)"
| get_test2: "pc s t = GetTest2 \<Longrightarrow>
    gstep ops pid s (goto s t (if global_session (vars s) = None then GetCreate else GetRelease))"
| get_create: "pc s t = GetCreate \<Longrightarrow> gstep ops pid s (goto (upd s (create_session (vars s))) t GetRegister)"
| get_register: "pc s t = GetRegister \<Longrightarrow> gstep ops pid s (goto (upd s (register_cleanup (vars s))) t GetRelease)"
| get_release: "pc s t = GetRelease \<Longrightarrow> gstep ops pid s (goto (s\<lparr>lock := None\<rparr>) t GetReturn)"
| get_return: "pc s t = GetReturn \<Longrightarrow> gstep ops pid s (goto s t (Returned (global_session (vars s))))"
| start_close: "OpClose \<in> ops \<Longrightarrow> pc s t = Idle \<Longrightarrow> gstep ops pid s (goto s t CloseTest1)"
| close_test1: "pc s t = CloseTest1 \<Longrightarrow>
    gstep ops pid s (goto s t (if global_session (vars s) \<noteq> None then CloseAcquire else Idle))"
| close_acquire: "pc s t = CloseAcquire \<Longrightarrow> lock s = None \<Longrightarrow>
    gstep ops pid s (goto (s\<lparr>lock := Some t\<rparr>) t CloseTest2)"
| close_test2: "pc s t = CloseTest2 \<Longrightarrow>
    gstep ops pid s (goto s t (if global_session (vars s) \<noteq> None then CloseCall else CloseRelease))"
| close_call: "pc s t = CloseCall \<Longrightarrow> gstep ops pid s (goto (upd s (close_session (vars s))) t CloseClear)"
| close_clear: "pc s t = CloseClear \<Longrightarrow>
    gstep ops pid s (goto (upd s ((vars s)\<lparr>global_session := None\<rparr>)) t CloseRelease)"
| close_release: "pc s t = CloseRelease \<Longrightarrow> gstep ops pid s (goto (s\<lparr>lock := None\<rparr>) t Idle)"
| start_cleanup: "OpCleanup \<in> ops \<Longrightarrow> pc s t = Idle \<Longrightarrow> gstep ops pid s (goto s t CleanupTest)"
| cleanup_test: "pc s t = CleanupTest \<Longrightarrow>
    gstep ops pid s (goto s t (if global_session (vars s) \<noteq> None then CleanupCall else Idle))"
| cleanup_call: "pc s t = CleanupCall \<Longrightarrow> gstep ops pid s (goto (upd s (close_session (vars s))) t CleanupClear)"
| cleanup_clear: "pc s t = CleanupClear \<Longrightarrow>
    gstep ops pid s (goto (upd s ((vars s)\<lparr>global_session := None\<rparr>)) t Idle)"

abbreviation gsteps :: "gop set \<Rightarrow> int \<Rightarrow> gmachine \<Rightarrow> gmachine \<Rightarrow> bool" where
  "gsteps ops pid \<equiv> (gstep ops pid)\<^sup>*\<^sup>*"

subsection \<open>Invariants\<close>

fun critical :: "gpc \<Rightarrow> bool" where
  "critical GetTest2 = True" | "critical GetCreate = True" | "critical GetRegister = True"
| "critical GetRelease = True" | "critical CloseTest2 = True" | "critical CloseCall = True"
| "critical CloseClear = True" | "critical CloseRelease = True" | "critical _ = False"

text \<open>The lock is held exactly by the thread inside a \<^verbatim>\<open>with _global_lock\<close> block.\<close>

definition lock_ok :: "gmachine \<Rightarrow> bool" where
  "lock_ok s = (\<forall>t. critical (pc s t) \<longleftrightarrow> lock s = Some t)"

definition register_ok :: "global_vars \<Rightarrow> bool" where
  "register_ok g = (atexit_handlers g = (if cleanup_registered g then 1 else 0))"

fun unlocked_write :: "gpc \<Rightarrow> bool" where
  "unlocked_write GetReset = True" | "unlocked_write GetSetPid = True"
| "unlocked_write CleanupTest = True" | "unlocked_write CleanupCall = True"
| "unlocked_write CleanupClear = True" | "unlocked_write _ = False"

definition no_unlocked_write :: "int \<Rightarrow> gmachine \<Rightarrow> bool" where
  "no_unlocked_write pid s = (parent_pid (vars s) = pid \<and> (\<forall>t. \<not> unlocked_write (pc s t)))"

fun holder_view :: "global_vars \<Rightarrow> gpc \<Rightarrow> bool" where
  "holder_view g GetCreate = (global_session g = None)"
| "holder_view g CloseCall = (global_session g \<noteq> None)"
| "holder_view g CloseClear = (global_session g \<noteq> None)"
| "holder_view g _ = True"

text \<open>
  Every session object created so far is either the current one or was closed, no object is closed
  twice, and the current one is closed only while its closer is about to clear the variable.
\<close>

definition no_leak :: "gmachine \<Rightarrow> bool" where
  "no_leak s = ({..<next_session (vars s)} = set (closed_sessions (vars s)) \<union> set_option (global_session (vars s)) \<and>
     distinct (closed_sessions (vars s)) \<and>
     (\<forall>i \<in> set_option (global_session (vars s)). i \<in> set (closed_sessions (vars s)) \<longrightarrow> (\<exists>t. pc s t = CloseClear)) \<and>
     (\<forall>t. pc s t = CloseClear \<longrightarrow> set_option (global_session (vars s)) \<subseteq> set (closed_sessions (vars s))) \<and>
     (\<forall>t. holder_view (vars s) (pc s t)))"

lemma register_cleanup_keeps [simp]:
  "global_session (register_cleanup g) = global_session g" "closed_sessions (register_cleanup g) = closed_sessions g"
  "next_session (register_cleanup g) = next_session g" "parent_pid (register_cleanup g) = parent_pid g"
  by (simp_all add: register_cleanup_def)

lemma lock_ok_goto:
  "lock_ok s \<Longrightarrow> critical p = critical (pc s t) \<Longrightarrow> lock_ok (goto s t p)"
  "lock_ok s \<Longrightarrow> critical p = critical (pc s t) \<Longrightarrow> lock_ok (s\<lparr>vars := g, pc := (pc s)(t := p)\<rparr>)"
  by (simp_all add: lock_ok_def)

lemma lock_ok_acquire:
  "lock_ok s \<Longrightarrow> lock s = None \<Longrightarrow> critical p \<Longrightarrow> lock_ok (s\<lparr>lock := Some t, pc := (pc s)(t := p)\<rparr>)"
  by (auto simp: lock_ok_def)

lemma lock_ok_release:
  "lock_ok s \<Longrightarrow> critical (pc s t) \<Longrightarrow> \<not> critical p \<Longrightarrow> lock_ok (s\<lparr>lock := None, pc := (pc s)(t := p)\<rparr>)"
  by (auto simp: lock_ok_def)

lemmas lock_ok_moves = lock_ok_goto lock_ok_acquire lock_ok_release

lemma lock_ok_step: "gstep ops pid s s' \<Longrightarrow> lock_ok s \<Longrightarrow> lock_ok s'"
  by (induction rule: gstep.induct) (simp_all add: lock_ok_moves)

lemma register_ok_step: "gstep ops pid s s' \<Longrightarrow> register_ok (vars s) \<Longrightarrow> register_ok (vars s')"
  by (induction rule: gstep.induct)
    (simp_all add: register_ok_def register_cleanup_def create_session_def close_session_def split: option.split)

lemma no_unlocked_write_step:
  "gstep ops pid s s' \<Longrightarrow> OpCleanup \<notin> ops \<Longrightarrow> no_unlocked_write pid s \<Longrightarrow> no_unlocked_write pid s'"
proof (induction rule: gstep.induct)
  case (get_reset s t)
  then show ?case by (metis no_unlocked_write_def unlocked_write.simps(1))
next
  case (cleanup_test s t)
  then show ?case by (metis no_unlocked_write_def unlocked_write.simps(3))
next
  case (cleanup_call s t)
  then show ?case by (metis no_unlocked_write_def unlocked_write.simps(4))
next
  case (cleanup_clear s t)
  then show ?case by (metis no_unlocked_write_def unlocked_write.simps(5))
qed (auto simp: no_unlocked_write_def register_cleanup_def create_session_def close_session_def split: option.split)

lemma closer_unique: "lock_ok s \<Longrightarrow> critical (pc s t) \<Longrightarrow> critical (pc s u) \<Longrightarrow> t = u"
  by (metis lock_ok_def option.inject)

text \<open>A step of one thread that keeps the shared variables.\<close>

lemma lessThan_option:
  assumes "{..<n} = set_option x"
  shows "case x of None \<Rightarrow> n = 0 | Some i \<Rightarrow> n = (1 :: nat) \<and> i = 0"
proof (cases x)
  case None
  with assms show ?thesis by (cases n) auto
next
  case (Some i)
  with assms have eq: "{..<n} = {i}" by simp
  then have "i < n" by blast
  with eq have "0 \<in> {i}" by (metis lessThan_iff neq0_conv not_less_zero)
  moreover have "\<not> 1 < n" using eq calculation by (metis lessThan_iff singleton_iff zero_neq_one)
  ultimately show ?thesis using Some \<open>i < n\<close> by simp
qed

lemma no_leak_goto:
  assumes "no_leak s" "holder_view (vars s) p" "pc s t \<noteq> CloseClear" "p \<noteq> CloseClear"
  shows "no_leak (goto s t p)" "no_leak (s\<lparr>lock := l, pc := (pc s)(t := p)\<rparr>)"
  using assms by (auto simp: no_leak_def; metis)+

text \<open>While one thread is in the critical section, no other thread has expectations on the variables.\<close>

lemma others_outside:
  assumes "lock_ok s" "critical (pc s t)" "u \<noteq> t"
  shows "holder_view g (pc s u)" "pc s u \<noteq> CloseClear"
  using closer_unique [OF assms(1), of t u] assms(2,3) by (cases "pc s u"; auto)+

lemma no_leak_create:
  assumes "no_leak s" "lock_ok s" "pc s t = GetCreate"
  shows "no_leak (s\<lparr>vars := create_session (vars s), pc := (pc s)(t := GetRegister)\<rparr>)"
proof -
  have none: "global_session (vars s) = None" using assms(1,3) unfolding no_leak_def by (metis holder_view.simps(1))
  with assms(1) have "{..<next_session (vars s)} = set (closed_sessions (vars s))" by (simp add: no_leak_def)
  then show ?thesis using assms(1) none others_outside [OF assms(2), of t] assms(3)
    by (auto simp: no_leak_def create_session_def lessThan_Suc)
qed

lemma no_leak_register:
  assumes "no_leak s" "pc s t = GetRegister"
  shows "no_leak (s\<lparr>vars := register_cleanup (vars s), pc := (pc s)(t := GetRelease)\<rparr>)"
proof -
  have "holder_view (register_cleanup g) p = holder_view g p" for g p
    by (cases p) (simp_all add: register_cleanup_def)
  then show ?thesis using assms
    by (auto simp: no_leak_def register_cleanup_def; metis gpc.distinct(279,280))
qed

lemma no_leak_close_call:
  assumes "no_leak s" "lock_ok s" "pc s t = CloseCall"
  shows "no_leak (s\<lparr>vars := close_session (vars s), pc := (pc s)(t := CloseClear)\<rparr>)"
proof -
  obtain i where i: "global_session (vars s) = Some i"
    using assms(1,3) unfolding no_leak_def by (metis holder_view.simps(2) not_None_eq)
  have "pc s u \<noteq> CloseClear" for u
    using others_outside(2) [OF assms(2), of t u] assms(3) by (cases "u = t") auto
  then have "i \<notin> set (closed_sessions (vars s))" using assms(1) i by (auto simp: no_leak_def)
  then show ?thesis using assms(1) i others_outside [OF assms(2), of t] assms(3)
    by (auto simp: no_leak_def close_session_def)
qed

lemma no_leak_close_clear:
  assumes "no_leak s" "lock_ok s" "pc s t = CloseClear"
  shows "no_leak (s\<lparr>vars := (vars s)\<lparr>global_session := None\<rparr>, pc := (pc s)(t := CloseRelease)\<rparr>)"
proof -
  have "set_option (global_session (vars s)) \<subseteq> set (closed_sessions (vars s))"
    using assms(1,3) by (auto simp: no_leak_def)
  then show ?thesis using assms(1) others_outside [OF assms(2), of t] assms(3)
    by (auto simp: no_leak_def)
qed

lemma no_leak_step:
  "gstep ops pid s s' \<Longrightarrow> lock_ok s \<Longrightarrow> no_unlocked_write pid s \<Longrightarrow> no_leak s \<Longrightarrow> no_leak s'"
proof (induction rule: gstep.induct)
  case (get_reset s t)
  then show ?case by (metis no_unlocked_write_def unlocked_write.simps(1))
next
  case (get_set_pid s t)
  then show ?case by (metis no_unlocked_write_def unlocked_write.simps(2))
next
  case (cleanup_call s t)
  then show ?case by (metis no_unlocked_write_def unlocked_write.simps(4))
next
  case (cleanup_clear s t)
  then show ?case by (metis no_unlocked_write_def unlocked_write.simps(5))
qed (simp_all add: no_leak_goto no_leak_create no_leak_register no_leak_close_call no_leak_close_clear)

lemma initial_ok: "lock_ok (initial_machine parent)" "register_ok (vars (initial_machine parent))"
  "no_unlocked_write pid (initial_machine pid)" "no_leak (initial_machine parent)"
  by (simp_all add: initial_machine_def initial_globals_def lock_ok_def register_ok_def no_unlocked_write_def no_leak_def)

text \<open>The lock and the registration do not depend on where the process came from.\<close>

lemma gsteps_lock_ok:
  assumes "gsteps ops pid (initial_machine parent) s"
  shows "lock_ok s \<and> register_ok (vars s)"
  using assms
proof (induction rule: rtranclp_induct)
  case (step s s')
  then show ?case using lock_ok_step register_ok_step by blast
qed (simp add: initial_ok)

lemma gsteps_invariants:
  assumes "gsteps ops pid (initial_machine pid) s" "OpCleanup \<notin> ops"
  shows "lock_ok s \<and> register_ok (vars s) \<and> no_unlocked_write pid s \<and> no_leak s"
  using assms(1)
proof (induction rule: rtranclp_induct)
  case (step s s')
  then show ?case
    using lock_ok_step register_ok_step no_unlocked_write_step [OF _ assms(2)] no_leak_step by blast
qed (simp add: initial_ok)

fun closes :: "gpc \<Rightarrow> bool" where
  "closes CloseTest1 = True" | "closes CloseAcquire = True" | "closes CloseTest2 = True"
| "closes CloseCall = True" | "closes CloseClear = True" | "closes CloseRelease = True"
| "closes CleanupTest = True" | "closes CleanupCall = True" | "closes CleanupClear = True"
| "closes _ = False"

fun sees_session :: "global_vars \<Rightarrow> gpc \<Rightarrow> bool" where
  "sees_session g GetRegister = (global_session g \<noteq> None)"
| "sees_session g GetRelease = (global_session g \<noteq> None)"
| "sees_session g GetReturn = (global_session g \<noteq> None)"
| "sees_session g (Returned r) = (r \<noteq> None \<and> r = global_session g)"
| "sees_session g _ = True"

text \<open>With no thread closing: nothing is closed, and who passed a test sees the session.\<close>

definition get_only :: "gmachine \<Rightarrow> bool" where
  "get_only s = (closed_sessions (vars s) = [] \<and> (\<forall>t. \<not> closes (pc s t) \<and> sees_session (vars s) (pc s t)))"

lemma get_only_goto:
  assumes "get_only s" "\<not> closes p" "sees_session (vars s) p"
  shows "get_only (goto s t p)" "get_only (s\<lparr>lock := l, pc := (pc s)(t := p)\<rparr>)"
  using assms by (auto simp: get_only_def)

lemma get_only_create:
  assumes "get_only s" "global_session (vars s) = None"
  shows "get_only (s\<lparr>vars := create_session (vars s), pc := (pc s)(t := GetRegister)\<rparr>)"
proof -
  have "sees_session (create_session (vars s)) (pc s u)" for u
    using assms by (cases "pc s u") (auto simp: get_only_def create_session_def dest: spec [of _ u])
  then show ?thesis using assms by (auto simp: get_only_def create_session_def)
qed

lemma get_only_register:
  assumes "get_only s" "pc s t = GetRegister"
  shows "get_only (s\<lparr>vars := register_cleanup (vars s), pc := (pc s)(t := GetRelease)\<rparr>)"
proof -
  have *: "sees_session (register_cleanup g) p = sees_session g p" for g p
    by (cases p) (simp_all add: register_cleanup_def)
  have "global_session (vars s) \<noteq> None" using assms unfolding get_only_def by (metis sees_session.simps(1))
  with assms show ?thesis by (auto simp: get_only_def *)
qed

lemma get_only_step:
  assumes "gstep {OpGet} pid s s'" "get_only s" "no_unlocked_write pid s" "no_leak s"
  shows "get_only s'"
  using assms
proof (induction rule: gstep.induct)
  case (get_reset s t)
  then show ?case by (metis no_unlocked_write_def unlocked_write.simps(1))
next
  case (get_set_pid s t)
  then show ?case by (metis no_unlocked_write_def unlocked_write.simps(2))
next
  case (get_create s t)
  then have "global_session (vars s) = None" unfolding no_leak_def by (metis holder_view.simps(1))
  with get_create show ?case by (simp add: get_only_create)
next
  case (get_release s t)
  then have "global_session (vars s) \<noteq> None" unfolding get_only_def by (metis sees_session.simps(2))
  with get_release show ?case by (simp add: get_only_goto)
next
  case (get_return s t)
  then have "global_session (vars s) \<noteq> None" unfolding get_only_def by (metis sees_session.simps(3))
  with get_return show ?case by (simp add: get_only_goto)
qed (simp_all add: get_only_goto get_only_register; metis get_only_def closes.simps)+

lemma gsteps_get_only: "gsteps {OpGet} pid (initial_machine pid) s \<Longrightarrow> get_only s"
proof (induction rule: rtranclp_induct)
  case base
  then show ?case by (simp add: get_only_def initial_machine_def initial_globals_def)
next
  case (step s s')
  with gsteps_invariants [OF step.hyps(1)] get_only_step show ?case by simp
qed

text \<open>One thread running alone performs the function of the module.\<close>

definition solo :: "nat option \<Rightarrow> global_vars \<Rightarrow> (nat \<Rightarrow> gpc) \<Rightarrow> nat \<Rightarrow> gpc \<Rightarrow> gmachine" where
  "solo l g q t p = \<lparr>vars = g, lock = l, pc = q(t := p)\<rparr>"

lemma solo_sel [simp]: "vars (solo l g q t p) = g" "lock (solo l g q t p) = l" "pc (solo l g q t p) t = p"
  "(solo l g q t p)\<lparr>vars := g'\<rparr> = solo l g' q t p" "(solo l g q t p)\<lparr>lock := l'\<rparr> = solo l' g q t p"
  "(solo l g q t p)\<lparr>pc := (pc (solo l g q t p))(t := p')\<rparr> = solo l g q t p'"
  "(solo l g q t p)\<lparr>pc := (q(t := p))(t := p')\<rparr> = solo l g q t p'"
  by (simp_all add: solo_def)

lemma initial_machine_solo: "initial_machine pid = solo None (initial_globals pid) (\<lambda>_. Idle) t Idle"
  by (auto simp: solo_def initial_machine_def)

lemmas gsteps_extend [trans] = rtranclp.rtrancl_into_rtrancl [of "gstep ops pid" for ops pid]

lemma solo_fork_check:
  "gsteps ops pid (solo l g q t GetCheckPid)
     (solo l (fork_check pid g) q t GetTest1)"
proof -
  have c: "gstep ops pid (solo l g q t GetCheckPid)
      (solo l g q t (if pid \<noteq> parent_pid g then GetReset else GetTest1))"
    using gstep.check_pid [of "solo l g q t GetCheckPid" t ops pid] by (simp add: solo_def)
  have "gstep ops pid (solo l g q t GetReset) (solo l (g\<lparr>global_session := None\<rparr>) q t GetSetPid)"
    using gstep.get_reset [of "solo l g q t GetReset" t ops pid] by (simp add: solo_def)
  moreover have "gstep ops pid (solo l (g\<lparr>global_session := None\<rparr>) q t GetSetPid)
      (solo l (g\<lparr>global_session := None, parent_pid := pid\<rparr>) q t GetTest1)"
    using gstep.get_set_pid [of "solo l (g\<lparr>global_session := None\<rparr>) q t GetSetPid" t ops pid]
    by (simp add: solo_def)
  ultimately show ?thesis using c
    by (cases "pid = parent_pid g") (auto simp: fork_check_def intro: converse_rtranclp_into_rtranclp)
qed

lemma solo_create:
  assumes "global_session g = None"
  shows "gsteps ops pid (solo None g q t GetTest1)
    (solo None (register_cleanup (create_session g)) q t GetReturn)"
proof -
  let ?g' = "create_session g" and ?g'' = "register_cleanup (create_session g)"
  have "gstep ops pid (solo None g q t GetTest1) (solo None g q t GetAcquire)"
    using assms gstep.get_test1 [of "solo None g q t GetTest1" t ops pid] by (simp add: solo_def)
  moreover have "gstep ops pid (solo None g q t GetAcquire) (solo (Some t) g q t GetTest2)"
    using gstep.get_acquire [of "solo None g q t GetAcquire" t ops pid] by (simp add: solo_def)
  moreover have "gstep ops pid (solo (Some t) g q t GetTest2) (solo (Some t) g q t GetCreate)"
    using assms gstep.get_test2 [of "solo (Some t) g q t GetTest2" t ops pid] by (simp add: solo_def)
  moreover have "gstep ops pid (solo (Some t) g q t GetCreate) (solo (Some t) ?g' q t GetRegister)"
    using gstep.get_create [of "solo (Some t) g q t GetCreate" t ops pid] by (simp add: solo_def)
  moreover have "gstep ops pid (solo (Some t) ?g' q t GetRegister) (solo (Some t) ?g'' q t GetRelease)"
    using gstep.get_register [of "solo (Some t) ?g' q t GetRegister" t ops pid] by (simp add: solo_def)
  moreover have "gstep ops pid (solo (Some t) ?g'' q t GetRelease) (solo None ?g'' q t GetReturn)"
    using gstep.get_release [of "solo (Some t) ?g'' q t GetRelease" t ops pid] by (simp add: solo_def)
  ultimately show ?thesis by (meson converse_rtranclp_into_rtranclp rtranclp.rtrancl_refl)
qed

lemma get_solo:
  assumes "OpGet \<in> ops" "get_global_session pid g = (r, g')"
  shows "gsteps ops pid (solo None g q t Idle) (solo None g' q t (Returned r))"
proof -
  let ?g1 = "fork_check pid g"
  have r: "r = global_session g'" using assms(2) by (auto simp: get_global_session_def Let_def)
  have "gstep ops pid (solo None g q t Idle) (solo None g q t GetCheckPid)"
    using assms(1) gstep.start_get [of ops "solo None g q t Idle" t pid] by (simp add: solo_def)
  moreover have "gsteps ops pid (solo None ?g1 q t GetTest1) (solo None g' q t GetReturn)"
  proof (cases "global_session ?g1 = None")
    case True
    then show ?thesis using solo_create [OF True] assms(2) by (simp add: get_global_session_def Let_def)
  next
    case False
    then have "g' = ?g1" using assms(2) by (auto simp: get_global_session_def Let_def)
    moreover have "gstep ops pid (solo None ?g1 q t GetTest1) (solo None ?g1 q t GetReturn)"
      using False gstep.get_test1 [of "solo None ?g1 q t GetTest1" t ops pid] by (auto simp: solo_def)
    ultimately show ?thesis by (simp add: r_into_rtranclp)
  qed
  moreover have "gstep ops pid (solo None g' q t GetReturn) (solo None g' q t (Returned r))"
    using gstep.get_return [of "solo None g' q t GetReturn" t ops pid] by (simp add: solo_def r)
  ultimately show ?thesis
    using solo_fork_check [of ops pid None g q t]
    by (meson converse_rtranclp_into_rtranclp rtranclp.rtrancl_into_rtrancl rtranclp_trans)
qed

text \<open>In the importing process, with no thread closing, there is one session.\<close>

lemma get_only_result:
  assumes "gsteps {OpGet} pid (initial_machine pid) s"
  shows "next_session (vars s) \<le> 1 \<and> (\<forall>t r. pc s t = Returned r \<longrightarrow> r = Some 0)"
proof -
  from gsteps_invariants [OF assms] have leak: "no_leak s" by simp
  from gsteps_get_only [OF assms] have only: "get_only s" .
  then have "{..<next_session (vars s)} = set_option (global_session (vars s))"
    using leak by (simp add: no_leak_def get_only_def)
  then have sess: "case global_session (vars s) of None \<Rightarrow> next_session (vars s) = 0
      | Some i \<Rightarrow> next_session (vars s) = 1 \<and> i = 0"
    by (rule lessThan_option)
  have "r = Some 0" if "pc s t = Returned r" for t r
    using only that sess unfolding get_only_def
    by (metis (mono_tags, lifting) not_None_eq option.simps(5) sees_session.simps(4))
  with sess show ?thesis by (cases "global_session (vars s)") auto
qed

text \<open>
  In a forked child: thread 1 sees the parent's number and is about to reset when thread 0 makes its whole call;
  then thread 1 resets the session thread 0 has just created and creates another.
\<close>

lemma fork_race:
  assumes "OpGet \<in> ops" "parent_pid g \<noteq> pid"
  shows "\<exists>s. gsteps ops pid (solo None g (\<lambda>_. Idle) 0 Idle) s \<and>
    pc s 0 = Returned (Some (next_session g)) \<and> pc s 1 = Returned (Some (Suc (next_session g))) \<and>
    global_session (vars s) = Some (Suc (next_session g)) \<and> closed_sessions (vars s) = closed_sessions g \<and>
    next_session (vars s) = Suc (Suc (next_session g))"
proof -
  let ?i = "\<lambda>_ :: nat. Idle" and ?q1 = "(\<lambda>_. Idle)(1 := GetReset)"
  let ?q0 = "(\<lambda>_. Idle)(0 := Returned (Some (next_session g)))"
  define g1 where "g1 = snd (get_global_session pid g)"
  define g2 where "g2 = g1\<lparr>global_session := None, parent_pid := pid\<rparr>"
  define g3 where "g3 = register_cleanup (create_session g2)"
  have get: "get_global_session pid g = (Some (next_session g), g1)"
    using assms(2) by (simp add: g1_def get_global_session_def fork_check_def create_session_def Let_def)
  have g1: "next_session g1 = Suc (next_session g)" "closed_sessions g1 = closed_sessions g"
    using assms(2) by (simp_all add: g1_def get_global_session_def fork_check_def create_session_def Let_def)
  have g3: "global_session g3 = Some (Suc (next_session g))" "next_session g3 = Suc (Suc (next_session g))"
    "closed_sessions g3 = closed_sessions g"
    by (simp_all add: g3_def g2_def create_session_def g1)
  have swap: "solo None g ?q1 0 Idle = solo None g ?i 1 GetReset" "solo None g ?i 0 Idle = solo None g ?i 1 Idle"
    "solo None g1 ?q1 0 (Returned (Some (next_session g))) = solo None g1 ?q0 1 GetReset"
    by (auto simp: solo_def fun_eq_iff)
  have "gstep ops pid (solo None g ?i 1 Idle) (solo None g ?i 1 GetCheckPid)"
    using assms(1) start_get [of ops "solo None g ?i 1 Idle" 1 pid] by (simp add: solo_def)
  moreover have "gstep ops pid (solo None g ?i 1 GetCheckPid) (solo None g ?i 1 GetReset)"
    using assms(2) check_pid [of "solo None g ?i 1 GetCheckPid" 1 ops pid] by (simp add: solo_def)
  moreover have "gsteps ops pid (solo None g ?i 1 GetReset) (solo None g1 ?q0 1 GetReset)"
    using get_solo [OF assms(1) get, of ?q1 0] unfolding swap(1,3) .
  moreover have "gstep ops pid (solo None g1 ?q0 1 GetReset) (solo None (g1\<lparr>global_session := None\<rparr>) ?q0 1 GetSetPid)"
    using get_reset [of "solo None g1 ?q0 1 GetReset" 1 ops pid] by (simp add: solo_def)
  moreover have "gstep ops pid (solo None (g1\<lparr>global_session := None\<rparr>) ?q0 1 GetSetPid) (solo None g2 ?q0 1 GetTest1)"
    using get_set_pid [of "solo None (g1\<lparr>global_session := None\<rparr>) ?q0 1 GetSetPid" 1 ops pid]
    by (simp add: solo_def g2_def)
  moreover have "gsteps ops pid (solo None g2 ?q0 1 GetTest1) (solo None g3 ?q0 1 GetReturn)"
    using solo_create [of g2 ops pid ?q0 1] by (simp add: g3_def g2_def)
  moreover have "gstep ops pid (solo None g3 ?q0 1 GetReturn) (solo None g3 ?q0 1 (Returned (global_session g3)))"
    using get_return [of "solo None g3 ?q0 1 GetReturn" 1 ops pid] by (simp add: solo_def)
  ultimately have "gsteps ops pid (solo None g ?i 1 Idle) (solo None g3 ?q0 1 (Returned (global_session g3)))"
    by (meson converse_rtranclp_into_rtranclp rtranclp.rtrancl_into_rtrancl rtranclp_trans)
  then have "gsteps ops pid (solo None g ?i 0 Idle) (solo None g3 ?q0 1 (Returned (global_session g3)))"
    by (simp add: swap(2))
  then show ?thesis
    by (intro exI [of _ "solo None g3 ?q0 1 (Returned (global_session g3))"]) (simp add: g3 solo_def)
qed

lemma forked_child_race:
  assumes "OpGet \<in> ops" "parent \<noteq> pid"
  shows "\<exists>s. gsteps ops pid (initial_machine parent) s \<and> pc s 0 = Returned (Some 0) \<and> pc s 1 = Returned (Some 1) \<and>
    global_session (vars s) = Some 1 \<and> closed_sessions (vars s) = [] \<and> next_session (vars s) = 2"
proof -
  have "parent_pid (initial_globals parent) \<noteq> pid" using assms(2) by (simp add: initial_globals_def)
  from fork_race [OF assms(1) this] show ?thesis
    unfolding initial_machine_solo [of parent 0] by (simp add: initial_globals_def numeral_2_eq_2)
qed

subsection \<open>Properties\<close>

text \<open>C7. Double-checked locking, in the process that imported the module: however any number of threads calling
  \<^verbatim>\<open>get_global_session\<close> are interleaved, at most one session is ever created and every call that returns,
  returns that one session. The exit handler is registered at most once in any process. In a forked child the
  first statement fails, because the branch that resets the inherited session runs without the lock: there
  are two calls that return two different sessions, the first of which is neither current nor closed.\<close>

theorem global_session_created_once:
  "(\<forall>s. gsteps {OpGet} pid (initial_machine parent) s \<longrightarrow> parent = pid \<longrightarrow>
      next_session (vars s) \<le> 1 \<and> (\<forall>t r. pc s t = Returned r \<longrightarrow> r = Some 0)) \<and>
   (\<forall>s. gsteps {OpGet} pid (initial_machine parent) s \<longrightarrow> atexit_handlers (vars s) \<le> 1) \<and>
   (parent \<noteq> pid \<longrightarrow> (\<exists>s. gsteps {OpGet} pid (initial_machine parent) s \<and>
      pc s 0 = Returned (Some 0) \<and> pc s 1 = Returned (Some 1) \<and>
      global_session (vars s) = Some 1 \<and> closed_sessions (vars s) = []))"
proof (intro conjI allI impI)
  fix s assume "gsteps {OpGet} pid (initial_machine parent) s"
  then show "atexit_handlers (vars s) \<le> 1" using gsteps_lock_ok by (auto simp: register_ok_def)
next
  fix s assume "gsteps {OpGet} pid (initial_machine parent) s" "parent = pid"
  then have "gsteps {OpGet} pid (initial_machine pid) s" by simp
  from get_only_result [OF this] show "next_session (vars s) \<le> 1" "\<And>t r. pc s t = Returned r \<Longrightarrow> r = Some 0" by blast+
next
  assume "parent \<noteq> pid"
  with forked_child_race [of "{OpGet}"] show "\<exists>s. gsteps {OpGet} pid (initial_machine parent) s \<and> pc s 0 = Returned (Some 0) \<and> pc s 1 = Returned (Some 1) \<and>
      global_session (vars s) = Some 1 \<and> closed_sessions (vars s) = []" by blast
qed

theorem global_session_created_once_witness:
  "next_session (vars (solo None (snd (get_global_session 7 (initial_globals 7))) (\<lambda>_. Idle) 3 (Returned (Some 0)))) \<le> 1 \<and>
   (\<exists>s. gsteps {OpGet} 8 (initial_machine 7) s \<and> pc s 0 = Returned (Some 0) \<and> pc s 1 = Returned (Some 1))"
proof
  have "get_global_session 7 (initial_globals 7) = (Some 0, snd (get_global_session 7 (initial_globals 7)))"
    by (simp add: get_global_session_def fork_check_def initial_globals_def create_session_def register_cleanup_def Let_def)
  from get_solo [OF _ this, of "{OpGet}" "\<lambda>_. Idle" 3] have
    "gsteps {OpGet} 7 (initial_machine 7)
      (solo None (snd (get_global_session 7 (initial_globals 7))) (\<lambda>_. Idle) 3 (Returned (Some 0)))"
    by (simp add: initial_machine_solo [of 7 3])
  with global_session_created_once [of 7 7] show "next_session (vars (solo None (snd (get_global_session 7
      (initial_globals 7))) (\<lambda>_. Idle) 3 (Returned (Some 0)))) \<le> 1" by blast
  show "\<exists>s. gsteps {OpGet} 8 (initial_machine 7) s \<and> pc s 0 = Returned (Some 0) \<and> pc s 1 = Returned (Some 1)"
    using global_session_created_once [of 8 7] by auto
qed

text \<open>C26. With any interleaving of \<^verbatim>\<open>get_global_session\<close> and \<^verbatim>\<open>close_global_session\<close>, in the process that
  imported the module or in a child forked from it, two threads are never in the critical section and the exit handler
  is registered at most once. No session is closed twice and every session ever created is the current one or was
  closed, in all interleavings, exactly when the process is not a forked child: the unlocked reset of a child can
  drop a session of its own that nobody closes.\<close>

theorem global_session_no_leak:
  "(\<forall>s t u. gsteps {OpGet, OpClose} pid (initial_machine parent) s \<longrightarrow>
      (critical (pc s t) \<longrightarrow> critical (pc s u) \<longrightarrow> t = u) \<and> atexit_handlers (vars s) \<le> 1) \<and>
   ((\<forall>s. gsteps {OpGet, OpClose} pid (initial_machine parent) s \<longrightarrow> distinct (closed_sessions (vars s)) \<and>
       {..<next_session (vars s)} = set (closed_sessions (vars s)) \<union> set_option (global_session (vars s)))
    \<longleftrightarrow> parent = pid)"
proof (intro conjI allI impI iffI)
  fix s t u assume run: "gsteps {OpGet, OpClose} pid (initial_machine parent) s"
  then show "atexit_handlers (vars s) \<le> 1" using gsteps_lock_ok by (auto simp: register_ok_def)
  assume "critical (pc s t)" "critical (pc s u)"
  with gsteps_lock_ok [OF run] show "t = u" using closer_unique by blast
next
  fix s assume "parent = pid" "gsteps {OpGet, OpClose} pid (initial_machine parent) s"
  with gsteps_invariants [of "{OpGet, OpClose}" pid s]
  show "distinct (closed_sessions (vars s))"
    "{..<next_session (vars s)} = set (closed_sessions (vars s)) \<union> set_option (global_session (vars s))"
    by (simp_all add: no_leak_def)
next
  assume all: "\<forall>s. gsteps {OpGet, OpClose} pid (initial_machine parent) s \<longrightarrow> distinct (closed_sessions (vars s)) \<and>
       {..<next_session (vars s)} = set (closed_sessions (vars s)) \<union> set_option (global_session (vars s))"
  show "parent = pid"
  proof (rule ccontr)
    assume "parent \<noteq> pid"
    with forked_child_race [of "{OpGet, OpClose}"] obtain s where s: "gsteps {OpGet, OpClose} pid (initial_machine parent) s" "global_session (vars s) = Some 1"
      "closed_sessions (vars s) = []" "next_session (vars s) = 2"
by blast
    from all s(1) have "{..<next_session (vars s)} = set (closed_sessions (vars s)) \<union> set_option (global_session (vars s))"
      by blast
    with s have "0 \<in> {1 :: nat}" by (metis empty_set lessThan_iff option.set(2) zero_less_numeral sup_bot_left)
    then show False by simp
  qed
qed

text \<open>A run in which one thread closes the session between another thread's test and its return.\<close>

lemma close_race_run:
  "\<exists>s. gsteps {OpGet, OpClose} pid (initial_machine pid) s \<and> pc s 2 = Returned None \<and>
     closed_sessions (vars s) = [0]"
proof -
  let ?S = "gstep {OpGet, OpClose} pid"
  define g where "g = snd (get_global_session pid (initial_globals pid))"
  define c where "c = close_session g"
  define m where "m = (\<lambda>g l p1 p2. \<lparr>vars = g, lock = l, pc = (\<lambda>_. Idle)(0 := Returned (Some 0), 1 := p1, 2 := p2)\<rparr>)"
  have gs: "global_session g = Some 0" "parent_pid g = pid" "closed_sessions g = []"
    by (simp_all add: g_def get_global_session_def fork_check_def initial_globals_def create_session_def
        register_cleanup_def Let_def)
  have g: "get_global_session pid (initial_globals pid) = (Some 0, g)"
    using gs(1) by (auto simp: g_def get_global_session_def Let_def)
  have "m g None Idle Idle = solo None g (\<lambda>_. Idle) 0 (Returned (Some 0))"
    by (auto simp: m_def solo_def fun_eq_iff)
  then have "gsteps {OpGet, OpClose} pid (initial_machine pid) (m g None Idle Idle)"
    using get_solo [of "{OpGet, OpClose}", OF _ g, of "\<lambda>_. Idle" 0] by (simp add: initial_machine_solo [of pid 0])
  also have "?S (m g None Idle Idle) (m g None Idle GetCheckPid)"
    using start_get [of "{OpGet, OpClose}" "m g None Idle Idle" 2 pid] by (simp add: m_def)
  also have "?S (m g None Idle GetCheckPid) (m g None Idle GetTest1)"
    using check_pid [of "m g None Idle GetCheckPid" 2 "{OpGet, OpClose}" pid] gs by (simp add: m_def)
  also have "?S (m g None Idle GetTest1) (m g None Idle GetReturn)"
    using get_test1 [of "m g None Idle GetTest1" 2 "{OpGet, OpClose}" pid] gs by (simp add: m_def)
  also have "?S (m g None Idle GetReturn) (m g None CloseTest1 GetReturn)"
    using start_close [of "{OpGet, OpClose}" "m g None Idle GetReturn" 1 pid] by (simp add: m_def fun_upd_twist)
  also have "?S (m g None CloseTest1 GetReturn) (m g None CloseAcquire GetReturn)"
    using close_test1 [of "m g None CloseTest1 GetReturn" 1 "{OpGet, OpClose}" pid] gs by (simp add: m_def fun_upd_twist)
  also have "?S (m g None CloseAcquire GetReturn) (m g (Some 1) CloseTest2 GetReturn)"
    using close_acquire [of "m g None CloseAcquire GetReturn" 1 "{OpGet, OpClose}" pid] by (simp add: m_def fun_upd_twist)
  also have "?S (m g (Some 1) CloseTest2 GetReturn) (m g (Some 1) CloseCall GetReturn)"
    using close_test2 [of "m g (Some 1) CloseTest2 GetReturn" 1 "{OpGet, OpClose}" pid] gs by (simp add: m_def fun_upd_twist)
  also have "?S (m g (Some 1) CloseCall GetReturn) (m c (Some 1) CloseClear GetReturn)"
    using close_call [of "m g (Some 1) CloseCall GetReturn" 1 "{OpGet, OpClose}" pid] by (simp add: m_def c_def fun_upd_twist)
  also have "?S (m c (Some 1) CloseClear GetReturn) (m (c\<lparr>global_session := None\<rparr>) (Some 1) CloseRelease GetReturn)"
    using close_clear [of "m c (Some 1) CloseClear GetReturn" 1 "{OpGet, OpClose}" pid] by (simp add: m_def fun_upd_twist)
  also have "?S (m (c\<lparr>global_session := None\<rparr>) (Some 1) CloseRelease GetReturn)
      (m (c\<lparr>global_session := None\<rparr>) (Some 1) CloseRelease (Returned None))"
    using get_return [of "m (c\<lparr>global_session := None\<rparr>) (Some 1) CloseRelease GetReturn" 2 "{OpGet, OpClose}" pid] by (simp add: m_def)
  finally have "gsteps {OpGet, OpClose} pid (initial_machine pid)
      (m (c\<lparr>global_session := None\<rparr>) (Some 1) CloseRelease (Returned None))" .
  moreover have "pc (m (c\<lparr>global_session := None\<rparr>) (Some 1) CloseRelease (Returned None)) 2 = Returned None"
    "closed_sessions (vars (m (c\<lparr>global_session := None\<rparr>) (Some 1) CloseRelease (Returned None))) = [0]"
    using gs by (simp_all add: m_def c_def close_session_def)
  ultimately show ?thesis by blast
qed

theorem global_session_no_leak_witness:
  "\<exists>s. gsteps {OpGet, OpClose} 1 (initial_machine 1) s \<and> closed_sessions (vars s) = [0] \<and>
     {..<next_session (vars s)} = {0} \<union> set_option (global_session (vars s))"
proof -
  obtain s where "gsteps {OpGet, OpClose} 1 (initial_machine 1) s" "closed_sessions (vars s) = [0]"
    using close_race_run [of 1] by (elim exE conjE)
  moreover from this global_session_no_leak [of 1 1]
  have "{..<next_session (vars s)} = set (closed_sessions (vars s)) \<union> set_option (global_session (vars s))" by blast
  ultimately show ?thesis by (intro exI [of _ s]) simp
qed

text \<open>The session is read again after the lock is released: when another thread closes the session between
  the test and the return, \<^verbatim>\<open>get_global_session\<close> returns \<^verbatim>\<open>None\<close> and not a session.\<close>

theorem get_global_session_may_return_none:
  "\<exists>s. gsteps {OpGet, OpClose} pid (initial_machine pid) s \<and> pc s 2 = Returned None"
  using close_race_run [of pid] by (elim exE conjE, intro exI conjI)

text \<open>In a forked child the inherited session is dropped without being closed, and the child gets a session
  of its own; in the same process the session is reused, and after a close a new one is made.\<close>

theorem get_global_session_after_fork:
  "fst (get_global_session pid g) \<noteq> None \<and>
   (pid \<noteq> parent_pid g \<longrightarrow> fst (get_global_session pid g) = Some (next_session g) \<and>
      closed_sessions (snd (get_global_session pid g)) = closed_sessions g) \<and>
   (pid = parent_pid g \<longrightarrow> global_session g \<noteq> None \<longrightarrow> get_global_session pid g = (global_session g, g)) \<and>
   (pid = parent_pid g \<longrightarrow> fst (get_global_session pid (close_global_session g)) = Some (next_session g))"
  by (auto simp: get_global_session_def fork_check_def close_global_session_def close_session_def
      create_session_def register_cleanup_def Let_def split: option.splits)

theorem get_global_session_after_fork_witness:
  "fst (get_global_session 2 (snd (get_global_session 1 (initial_globals 1)))) = Some 1"
proof -
  let ?g = "snd (get_global_session 1 (initial_globals 1))"
  have "parent_pid ?g = 1 \<and> next_session ?g = 1" by code_simp
  with get_global_session_after_fork [of 2 ?g] show ?thesis by simp
qed

end
