(* ===== verification/Batcher.thy ===== *)
theory Batcher
  imports Pyval
begin

section \<open>The request batcher (\<^verbatim>\<open>cycletls/_batcher.py\<close>)\<close>

text \<open>
  \<open>batcher\<close> is one \<^verbatim>\<open>RequestBatcher\<close>: its queue, its shutdown event, the program counter of its
  background thread and the futures of all requests submitted to it. A future is its number, the index of
  its state in \<open>futures\<close>; \<open>submitted\<close> has the payload of each. \<open>calls\<close> is the history of the calls of
  \<^verbatim>\<open>batch_fn\<close> with what they returned or raised and \<open>sent\<close> the futures of the requests they contained.

  \<open>worker_step\<close> is the background thread (\<^verbatim>\<open>_run\<close>, \<^verbatim>\<open>_collect_batch\<close>,
  \<^verbatim>\<open>_drain_remaining\<close>, \<^verbatim>\<open>_flush\<close>), one rule per queue operation, per test of the event, per call of
  \<^verbatim>\<open>batch_fn\<close>, per test and per assignment of a future; \<open>caller_step\<close> is what other threads do:
  \<^verbatim>\<open>submit_sync\<close> and \<^verbatim>\<open>submit_async\<close> up to their wait, a cancellation of an awaiting task and the parts
  of \<^verbatim>\<open>shutdown\<close>. The clock is not modelled: a deadline may pass whenever the code tests it.
  \<^verbatim>\<open>batch_fn\<close> is not restricted: a call may return any list or raise any exception.
\<close>

subsection \<open>Queues\<close>

locale fifo =
  fixes empty :: 'q
    and put :: "'q \<Rightarrow> 'a \<Rightarrow> 'q"
    and get :: "'q \<Rightarrow> ('a \<times> 'q) option"
    and contents :: "'q \<Rightarrow> 'a list"
  assumes contents_empty: "contents empty = []"
    and contents_put: "contents (put q x) = contents q @ [x]"
    and get_None: "get q = None \<longleftrightarrow> contents q = []"
    and get_Some: "get q = Some (x, q') \<Longrightarrow> contents q = x # contents q'"
begin

text \<open>Taking an item moves it from the head of the queue to the end of what the consumer holds.\<close>

lemma get_moves: "get q = Some (x, q') \<Longrightarrow> held @ contents q = (held @ [x]) @ contents q'"
  by (simp add: get_Some)

lemma get_shrinks: "get q = Some (x, q') \<Longrightarrow> length (contents q') < length (contents q)"
  by (simp add: get_Some)

lemma get_progress: "contents q \<noteq> [] \<Longrightarrow> \<exists>x q'. get q = Some (x, q')"
  using get_None [of q] by (cases "get q") auto

end

definition q_put :: "'a list \<Rightarrow> 'a \<Rightarrow> 'a list" where
  "q_put q x = q @ [x]"

fun q_get :: "'a list \<Rightarrow> ('a \<times> 'a list) option" where
  "q_get [] = None"
| "q_get (x # q) = Some (x, q)"

interpretation pyqueue: fifo "[]" q_put q_get "\<lambda>q. q"
proof unfold_locales
  show "q = x # q'" if "q_get q = Some (x, q')" for q and x :: 'a and q' using that by (cases q) auto
  show "(q_get q = None) = (q = [])" for q :: "'a list" by (cases q) auto
qed (simp_all add: q_put_def)

subsection \<open>State\<close>

record PendingRequest =
  payload :: kwargs
  future :: nat
  request_id :: pyval

datatype fut = FPending | FCancelled | FException pyexc | FResult pyval

datatype wpc =
    WLoop | WFirst
  | WMore "PendingRequest list"
  | WFlush bool "PendingRequest list"
  | WDist bool "(PendingRequest \<times> fut) list"
  | WSet bool PendingRequest fut "(PendingRequest \<times> fut) list"
  | WDrain "PendingRequest list"
  | WExit | WDead

record batcher =
  bqueue :: "PendingRequest option list"
  shutdown_event :: bool
  worker :: wpc
  futures :: "fut list"
  closers_checked :: nat
  closers_set :: nat
  submitted :: "kwargs list"
  calls :: "(kwargs list \<times> (pyexc + pyval list)) list"
  sent :: "nat list"

definition batcher_init :: batcher where
  "batcher_init = \<lparr>bqueue = [], shutdown_event = False, worker = WLoop, futures = [],
     closers_checked = 0, closers_set = 0, submitted = [], calls = [], sent = []\<rparr>"

subsection \<open>Operations of the callers\<close>

definition submit :: "kwargs \<Rightarrow> batcher \<Rightarrow> batcher" where
  "submit p b = b\<lparr>bqueue := q_put (bqueue b) (Some \<lparr>payload = p, future = length (futures b),
       request_id = dget_or p ''requestId'' (PStr [])\<rparr>),
     futures := futures b @ [FPending], submitted := submitted b @ [p]\<rparr>"

inductive caller_step :: "batcher \<Rightarrow> batcher \<Rightarrow> bool" where
  submit: "caller_step b (submit p b)"
| cancel: "i < length (futures b) \<Longrightarrow> futures b ! i = FPending \<Longrightarrow>
    caller_step b (b\<lparr>futures := (futures b)[i := FCancelled]\<rparr>)"
| shutdown_check: "\<not> shutdown_event b \<Longrightarrow>
    caller_step b (b\<lparr>closers_checked := Suc (closers_checked b)\<rparr>)"
| shutdown_set: "closers_checked b = Suc n \<Longrightarrow>
    caller_step b (b\<lparr>shutdown_event := True, closers_checked := n, closers_set := Suc (closers_set b)\<rparr>)"
| shutdown_put: "closers_set b = Suc n \<Longrightarrow>
    caller_step b (b\<lparr>bqueue := q_put (bqueue b) None, closers_set := n\<rparr>)"

subsection \<open>The background thread\<close>

text \<open>What \<^verbatim>\<open>_flush\<close> hands to each future of the batch, given what \<^verbatim>\<open>batch_fn\<close> did.\<close>

definition mismatch :: "nat \<Rightarrow> nat \<Rightarrow> pyexc" where
  "mismatch got wanted = Exc RuntimeError
     (''Batch FFI returned '' @ nat_str got @ '' results for '' @ nat_str wanted @ '' requests'')"

fun flush_outcomes :: "nat \<Rightarrow> pyexc + pyval list \<Rightarrow> fut list" where
  "flush_outcomes n (Inl e) = replicate n (FException e)"
| "flush_outcomes n (Inr results) = (if length results \<noteq> n
     then replicate n (FException (mismatch (length results) n)) else map FResult results)"

inductive worker_step :: "nat \<Rightarrow> batcher \<Rightarrow> batcher \<Rightarrow> bool" for batch_size where
  loop_collect: "worker b = WLoop \<Longrightarrow> \<not> shutdown_event b \<Longrightarrow> worker_step batch_size b (b\<lparr>worker := WFirst\<rparr>)"
| loop_stop: "worker b = WLoop \<Longrightarrow> shutdown_event b \<Longrightarrow> worker_step batch_size b (b\<lparr>worker := WDrain []\<rparr>)"
| first_timeout: "worker b = WFirst \<Longrightarrow> q_get (bqueue b) = None \<Longrightarrow>
    worker_step batch_size b (b\<lparr>worker := WLoop\<rparr>)"
| first_sentinel: "worker b = WFirst \<Longrightarrow> q_get (bqueue b) = Some (None, q) \<Longrightarrow>
    worker_step batch_size b (b\<lparr>bqueue := q, worker := WLoop\<rparr>)"
| first_item: "worker b = WFirst \<Longrightarrow> q_get (bqueue b) = Some (Some p, q) \<Longrightarrow>
    worker_step batch_size b (b\<lparr>bqueue := q, worker := WMore [p]\<rparr>)"
| more_full: "worker b = WMore ps \<Longrightarrow> length ps \<ge> batch_size \<Longrightarrow>
    worker_step batch_size b (b\<lparr>worker := WFlush False ps\<rparr>)"
| more_deadline: "worker b = WMore ps \<Longrightarrow> length ps < batch_size \<Longrightarrow>
    worker_step batch_size b (b\<lparr>worker := WFlush False ps\<rparr>)"
| more_sentinel: "worker b = WMore ps \<Longrightarrow> length ps < batch_size \<Longrightarrow> q_get (bqueue b) = Some (None, q) \<Longrightarrow>
    worker_step batch_size b (b\<lparr>bqueue := q, worker := WFlush False ps\<rparr>)"
| more_item: "worker b = WMore ps \<Longrightarrow> length ps < batch_size \<Longrightarrow> q_get (bqueue b) = Some (Some p, q) \<Longrightarrow>
    worker_step batch_size b (b\<lparr>bqueue := q, worker := WMore (ps @ [p])\<rparr>)"
| flush: "worker b = WFlush final ps \<Longrightarrow>
    worker_step batch_size b (b\<lparr>worker := WDist final (zip ps (flush_outcomes (length ps) result)),
      calls := calls b @ [(map payload ps, result)], sent := sent b @ map future ps\<rparr>)"
| dist_skip: "worker b = WDist final ((p, x) # rest) \<Longrightarrow> futures b ! future p \<noteq> FPending \<Longrightarrow>
    worker_step batch_size b (b\<lparr>worker := WDist final rest\<rparr>)"
| dist_check: "worker b = WDist final ((p, x) # rest) \<Longrightarrow> futures b ! future p = FPending \<Longrightarrow>
    worker_step batch_size b (b\<lparr>worker := WSet final p x rest\<rparr>)"
| dist_set: "worker b = WSet final p x rest \<Longrightarrow> futures b ! future p = FPending \<Longrightarrow>
    worker_step batch_size b (b\<lparr>futures := (futures b)[future p := x], worker := WDist final rest\<rparr>)"
| dist_invalid: "worker b = WSet final p x rest \<Longrightarrow> futures b ! future p \<noteq> FPending \<Longrightarrow>
    worker_step batch_size b (b\<lparr>worker := WDead\<rparr>)"
| dist_end: "worker b = WDist final [] \<Longrightarrow>
    worker_step batch_size b (b\<lparr>worker := (if final then WExit else WLoop)\<rparr>)"
| drain_item: "worker b = WDrain ps \<Longrightarrow> q_get (bqueue b) = Some (Some p, q) \<Longrightarrow>
    worker_step batch_size b (b\<lparr>bqueue := q, worker := WDrain (ps @ [p])\<rparr>)"
| drain_sentinel: "worker b = WDrain ps \<Longrightarrow> q_get (bqueue b) = Some (None, q) \<Longrightarrow>
    worker_step batch_size b (b\<lparr>bqueue := q\<rparr>)"
| drain_end: "worker b = WDrain ps \<Longrightarrow> q_get (bqueue b) = None \<Longrightarrow>
    worker_step batch_size b (b\<lparr>worker := (if ps = [] then WExit else WFlush True ps)\<rparr>)"

inductive bstep :: "nat \<Rightarrow> batcher \<Rightarrow> batcher \<Rightarrow> bool" for batch_size where
  by_caller: "caller_step b b' \<Longrightarrow> bstep batch_size b b'"
| by_worker: "worker_step batch_size b b' \<Longrightarrow> bstep batch_size b b'"

abbreviation bsteps :: "nat \<Rightarrow> batcher \<Rightarrow> batcher \<Rightarrow> bool" where
  "bsteps batch_size \<equiv> (bstep batch_size)\<^sup>*\<^sup>*"


subsection \<open>The module-level batcher\<close>

text \<open>
  \<open>batcher_module\<close> has the global variable and every batcher object made, by its number; \<open>obj_shut\<close> says
  that its \<^verbatim>\<open>shutdown\<close> was called. Both functions run under the module's lock (the first test of
  \<^verbatim>\<open>get_batcher\<close> returns what the second one would), so they are functions on this state.
\<close>

record batcher_object =
  obj_batch_size :: pyval
  obj_flush_interval :: pyval
  obj_shut :: bool

record batcher_module =
  global_batcher :: "nat option"
  objects :: "batcher_object list"

definition get_batcher :: "pyval \<Rightarrow> pyval \<Rightarrow> batcher_module \<Rightarrow> nat \<times> batcher_module" where
  "get_batcher batch_size flush_interval m = (case global_batcher m of
     Some i \<Rightarrow> (i, m)
   | None \<Rightarrow> let i = length (objects m) in
       (i, m\<lparr>global_batcher := Some i, objects := objects m @
         [\<lparr>obj_batch_size = batch_size, obj_flush_interval = flush_interval, obj_shut = False\<rparr>]\<rparr>))"

definition shutdown_batcher :: "batcher_module \<Rightarrow> batcher_module" where
  "shutdown_batcher m = (case global_batcher m of
     None \<Rightarrow> m
   | Some i \<Rightarrow> m\<lparr>objects := (objects m)[i := (objects m ! i)\<lparr>obj_shut := True\<rparr>], global_batcher := None\<rparr>)"

definition module_ok :: "batcher_module \<Rightarrow> bool" where
  "module_ok m = (case global_batcher m of None \<Rightarrow> True
     | Some i \<Rightarrow> i < length (objects m) \<and> \<not> obj_shut (objects m ! i))"

lemma module_ok_get: "module_ok m \<Longrightarrow> module_ok (snd (get_batcher bs fi m))"
  by (auto simp: module_ok_def get_batcher_def Let_def nth_append split: option.splits)

lemma module_ok_shutdown: "module_ok m \<Longrightarrow> module_ok (shutdown_batcher m)"
  by (auto simp: module_ok_def shutdown_batcher_def split: option.splits)

lemma get_batcher_live:
  assumes "module_ok m"
  shows "fst (get_batcher bs fi m) < length (objects (snd (get_batcher bs fi m)))"
    "\<not> obj_shut (objects (snd (get_batcher bs fi m)) ! fst (get_batcher bs fi m))"
    "global_batcher (snd (get_batcher bs fi m)) = Some (fst (get_batcher bs fi m))"
  using assms by (auto simp: module_ok_def get_batcher_def Let_def split: option.splits)

lemma get_batcher_same:
  "global_batcher m = Some i \<Longrightarrow> get_batcher bs fi m = (i, m)"
  by (simp add: get_batcher_def)

subsection \<open>Invariants\<close>

fun held :: "wpc \<Rightarrow> PendingRequest list" where
  "held (WMore ps) = ps" | "held (WFlush _ ps) = ps" | "held (WDrain ps) = ps" | "held _ = []"

fun to_set :: "wpc \<Rightarrow> (PendingRequest \<times> fut) list" where
  "to_set (WDist _ xs) = xs" | "to_set (WSet _ p x xs) = (p, x) # xs" | "to_set _ = []"

fun requests :: "'a option list \<Rightarrow> 'a list" where
  "requests [] = []" | "requests (None # q) = requests q" | "requests (Some p # q) = p # requests q"

text \<open>The requests not yet sent, oldest first.\<close>

definition unsent :: "batcher \<Rightarrow> PendingRequest list" where
  "unsent b = held (worker b) @ requests (bqueue b)"

text \<open>
  The specification of a call of \<^verbatim>\<open>batch_fn\<close>, without \<^verbatim>\<open>_flush\<close>: what the request at position \<open>j\<close> of the
  payloads is answered. \<open>own_call b i\<close> says that request \<open>i\<close> is at a position of one of the calls and that its
  future has the outcome of that position; \<open>answers\<close> lists the outcomes of all positions of all calls.
\<close>

definition own_outcome :: "kwargs list \<times> (pyexc + pyval list) \<Rightarrow> nat \<Rightarrow> fut" where
  "own_outcome c j = (case snd c of
     Inl e \<Rightarrow> FException e
   | Inr rs \<Rightarrow> if length rs = length (fst c) then FResult (rs ! j)
       else FException (Exc RuntimeError (''Batch FFI returned '' @ nat_str (length rs) @ '' results for '' @
         nat_str (length (fst c)) @ '' requests'')))"

definition own_call :: "batcher \<Rightarrow> nat \<Rightarrow> bool" where
  "own_call b i = (\<exists>k < length (calls b). \<exists>j < length (fst (calls b ! k)).
     i = length (concat (map fst (take k (calls b)))) + j \<and> fst (calls b ! k) ! j = submitted b ! i \<and>
     futures b ! i = own_outcome (calls b ! k) j)"

definition answers :: "(kwargs list \<times> (pyexc + pyval list)) list \<Rightarrow> fut list" where
  "answers cs = concat (map (\<lambda>c. map (own_outcome c) [0..<length (fst c)]) cs)"

definition conserves :: "batcher \<Rightarrow> bool" where
  "conserves b = (sent b @ map future (unsent b) = [0..<length (futures b)] \<and>
     concat (map fst (calls b)) @ map payload (unsent b) = submitted b \<and>
     length (concat (map fst (calls b))) = length (sent b))"

definition answered :: "batcher \<Rightarrow> bool" where
  "answered b = (\<forall>i < length (futures b). futures b ! i \<in> {FPending, FCancelled} \<or>
     i < length (sent b) \<and> futures b ! i = answers (calls b) ! i)"

definition distributing :: "batcher \<Rightarrow> bool" where
  "distributing b = ((\<forall>(p, x) \<in> set (to_set (worker b)). future p < length (sent b) \<and> x = answers (calls b) ! future p) \<and>
     (worker b \<noteq> WDead \<longrightarrow> (\<forall>i < length (sent b). futures b ! i = FPending \<longrightarrow>
        (\<exists>(p, x) \<in> set (to_set (worker b)). future p = i))))"

lemma requests_append [simp]: "requests (p @ q) = requests p @ requests q"
  by (induction p rule: requests.induct) auto

lemma length_flush_outcomes [simp]: "length (flush_outcomes n r) = n"
  by (cases r) auto

lemma flush_outcomes_own: "flush_outcomes (length ps) r = map (own_outcome (ps, r)) [0..<length ps]"
proof (cases r)
  case (Inr rs)
  show ?thesis
  proof (cases "length rs = length ps")
    case True
    then have "map (own_outcome (ps, r)) [0..<length ps] = map (\<lambda>j. FResult (rs ! j)) [0..<length rs]"
      by (simp add: own_outcome_def Inr)
    also have "\<dots> = map FResult (map ((!) rs) [0..<length rs])" by simp
    also have "\<dots> = flush_outcomes (length ps) r" using True map_nth [of rs] by (simp add: Inr del: map_map)
    finally show ?thesis by (rule sym)
  qed (intro nth_equalityI, simp_all add: Inr own_outcome_def mismatch_def)
qed (intro nth_equalityI, simp_all add: own_outcome_def)

lemma own_outcome_final: "own_outcome c j \<noteq> FPending \<and> own_outcome c j \<noteq> FCancelled"
  by (simp add: own_outcome_def split: sum.split)

lemma length_answers: "length (answers cs) = length (concat (map fst cs))"
  by (induction cs) (auto simp: answers_def)

lemma answers_final: "x \<in> set (answers cs) \<Longrightarrow> x \<noteq> FPending \<and> x \<noteq> FCancelled"
  by (auto simp: answers_def own_outcome_final)

lemma answers_snoc: "answers (cs @ [(map payload ps, r)]) = answers cs @ flush_outcomes (length ps) r"
  using flush_outcomes_own [of "map payload ps" r] by (simp add: answers_def)

lemma answers_nth:
  assumes "i < length (answers cs)"
  shows "\<exists>k < length cs. \<exists>j < length (fst (cs ! k)). i = length (concat (map fst (take k cs))) + j \<and>
    fst (cs ! k) ! j = concat (map fst cs) ! i \<and> answers cs ! i = own_outcome (cs ! k) j"
  using assms
proof (induction cs arbitrary: i)
  case (Cons c cs)
  have split: "answers (c # cs) = map (own_outcome c) [0..<length (fst c)] @ answers cs" by (simp add: answers_def)
  show ?case
  proof (cases "i < length (fst c)")
    case True
    then show ?thesis by (intro exI [of _ 0] conjI exI [of _ i]) (simp_all add: split nth_append)
  next
    case False
    with Cons.prems have "i - length (fst c) < length (answers cs)" by (simp add: split)
    from Cons.IH [OF this] obtain k j where kj: "k < length cs" "j < length (fst (cs ! k))"
      "i - length (fst c) = length (concat (map fst (take k cs))) + j"
      "fst (cs ! k) ! j = concat (map fst cs) ! (i - length (fst c))"
      "answers cs ! (i - length (fst c)) = own_outcome (cs ! k) j" by blast
    with False show ?thesis by (intro exI [of _ "Suc k"] conjI exI [of _ j]) (auto simp: split nth_append)
  qed
qed (simp add: answers_def)

lemma q_get_Some_eq [simp]: "q_get q = Some (x, q') \<longleftrightarrow> q = x # q'"
  by (cases q) auto

lemma q_get_None_eq [simp]: "q_get q = None \<longleftrightarrow> q = []"
  by (cases q) auto

lemma unsent_submit [simp]: "unsent (submit p b) = unsent b @ [\<lparr>payload = p, future = length (futures b),
    request_id = dget_or p ''requestId'' (PStr [])\<rparr>]"
  by (simp add: unsent_def submit_def q_put_def)

lemma conserves_init [simp]: "conserves batcher_init"
  by (simp add: conserves_def batcher_init_def unsent_def)

lemma conserves_caller: "caller_step b b' \<Longrightarrow> conserves b \<Longrightarrow> conserves b'"
proof (induction rule: caller_step.induct)
  case (submit b p)
  then show ?case
    using unsent_submit [of p b] by (auto simp: conserves_def submit_def)
qed (simp_all add: conserves_def unsent_def q_put_def)

lemma conserves_worker: "worker_step n b b' \<Longrightarrow> conserves b \<Longrightarrow> conserves b'"
  by (induction rule: worker_step.induct) (auto simp: conserves_def unsent_def)

text \<open>The futures of the unsent requests are the numbers from \<^term>\<open>length (sent b)\<close> on.\<close>

lemma conserves_sent:
  assumes "conserves b"
  shows "sent b = [0..<length (sent b)]" "map future (unsent b) = [length (sent b)..<length (futures b)]"
    "length (sent b) + length (unsent b) = length (futures b)"
proof -
  let ?n = "length (sent b)"
  have all: "sent b @ map future (unsent b) = [0..<length (futures b)]" using assms by (simp add: conserves_def)
  have len: "?n + length (unsent b) = length (futures b)" using arg_cong [OF all, of length] by simp
  then have "[0..<length (futures b)] = [0..<?n] @ [?n..<length (futures b)]" by (metis le_add1 le_add2 plus_nat.add_0 upt_add_eq_append)
  with all show "sent b = [0..<?n]" "map future (unsent b) = [?n..<length (futures b)]" by (simp_all add: append_eq_append_conv)
  show "?n + length (unsent b) = length (futures b)" by (rule len)
qed

lemma held_futures:
  assumes "conserves b" "k < length (held (worker b))"
  shows "future (held (worker b) ! k) = length (sent b) + k"
proof -
  have "map future (unsent b) ! k = length (sent b) + k"
    using assms(2) conserves_sent(3) [OF assms(1)]
    by (subst conserves_sent(2) [OF assms(1)]) (simp add: unsent_def)
  then show ?thesis using assms(2) by (simp add: unsent_def nth_append)
qed

lemma length_answers_sent: "conserves b \<Longrightarrow> length (answers (calls b)) = length (sent b)"
  by (simp add: conserves_def length_answers)

text \<open>\<^verbatim>\<open>_flush\<close>: the outcomes it is about to distribute are those the history assigns to these futures.\<close>

lemma flush_distributes:
  assumes "conserves b" "worker b = WFlush final ps" "(p, x) \<in> set (zip ps (flush_outcomes (length ps) r))"
  shows "future p < length (sent b) + length ps"
    "x = answers (calls b @ [(map payload ps, r)]) ! future p"
proof -
  from assms(3) obtain k where k: "k < length ps" "p = ps ! k" "x = flush_outcomes (length ps) r ! k"
    by (auto simp: set_zip)
  with held_futures [OF assms(1), of k] have f: "future p = length (sent b) + k" by (simp add: assms(2))
  then show "future p < length (sent b) + length ps" using k(1) by simp
  show "x = answers (calls b @ [(map payload ps, r)]) ! future p"
    using k f length_answers_sent [OF assms(1)] by (simp add: answers_snoc nth_append)
qed

lemma flush_covers:
  assumes "conserves b" "worker b = WFlush final ps" "length (sent b) \<le> i" "i < length (sent b) + length ps"
  shows "\<exists>(p, x) \<in> set (zip ps (flush_outcomes (length ps) r)). future p = i"
proof -
  let ?k = "i - length (sent b)"
  have k: "?k < length ps" using assms(3,4) by simp
  then have "(ps ! ?k, flush_outcomes (length ps) r ! ?k) \<in> set (zip ps (flush_outcomes (length ps) r))"
    by (auto simp: set_zip)
  moreover have "future (ps ! ?k) = i" using held_futures [OF assms(1), of ?k] assms(2,3) k by simp
  ultimately show ?thesis by (intro bexI) auto
qed

lemma answered_caller: "caller_step b b' \<Longrightarrow> answered b \<Longrightarrow> answered b'"
proof (induction rule: caller_step.induct)
  case (submit b p)
  then show ?case by (auto simp: answered_def submit_def nth_append less_Suc_eq)
next
  case (cancel i b)
  then show ?case by (auto simp: answered_def nth_list_update)
qed (simp_all add: answered_def)

lemma answered_worker:
  assumes "worker_step n b b'" "answered b" "conserves b" "distributing b"
  shows "answered b'"
  using assms
proof (induction rule: worker_step.induct)
  case (flush b final ps r)
  then show ?case using length_answers_sent [of b]
    by (auto simp: answered_def answers_snoc nth_append)
next
  case (dist_set b final p x rest)
  then have "future p < length (sent b)" "x = answers (calls b) ! future p"
    by (simp_all add: distributing_def)
  moreover from this have "future p < length (futures b)" using conserves_sent(3) [of b] dist_set by simp
  ultimately show ?case using dist_set by (simp add: answered_def nth_list_update)
qed (simp_all add: answered_def)

lemma distributing_caller: "caller_step b b' \<Longrightarrow> conserves b \<Longrightarrow> distributing b \<Longrightarrow> distributing b'"
proof (induction rule: caller_step.induct)
  case (submit b p)
  then have "length (sent b) \<le> length (futures b)" using conserves_sent(3) [of b] by simp
  with submit show ?case by (auto simp: distributing_def submit_def nth_append)
next
  case (cancel i b)
  then show ?case by (auto simp: distributing_def nth_list_update split: if_splits)
qed (simp_all add: distributing_def)

lemma distributing_worker:
  assumes "worker_step n b b'" "conserves b" "distributing b"
  shows "distributing b'"
  using assms
proof (induction rule: worker_step.induct)
  case (flush b final ps r)
  have "\<exists>(p, x) \<in> set (zip ps (flush_outcomes (length ps) r)). future p = i"
    if "i < length (sent b) + length ps" "futures b ! i = FPending" for i
    using that flush flush_covers [of b final ps i r] by (cases "i < length (sent b)") (auto simp: distributing_def)
  with flush show ?case using flush_distributes [of b final ps] by (auto simp: distributing_def)
next
  case (dist_skip b final p x rest)
  then show ?case by (fastforce simp: distributing_def)
next
  case (dist_set b final p x rest)
  then have p: "future p < length (sent b)" "x = answers (calls b) ! future p" by (simp_all add: distributing_def)
  then have "x \<noteq> FPending" using answers_final [of x "calls b"] length_answers_sent [of b] dist_set by simp
  moreover have "length (sent b) \<le> length (futures b)" using conserves_sent(3) [of b] dist_set by simp
  ultimately show ?case using dist_set p(1) by (auto simp: distributing_def nth_list_update split: if_splits)
qed (auto simp: distributing_def)

lemma bsteps_invariants:
  assumes "bsteps n batcher_init b"
  shows "conserves b \<and> answered b \<and> distributing b"
  using assms
proof (induction rule: rtranclp_induct)
  case base
  show ?case using conserves_init by (simp add: answered_def distributing_def) (simp add: batcher_init_def)
next
  case (step b b')
  from step.hyps(2) show ?case
  proof cases
    case by_caller
    then show ?thesis using step.IH conserves_caller answered_caller distributing_caller by blast
  next
    case by_worker
    then show ?thesis using step.IH conserves_worker answered_worker distributing_worker by blast
  qed
qed

subsection \<open>Termination of the background thread\<close>
















text \<open>A request that was sent and is answered is at a position of one of the calls.\<close>

lemma answered_own_call:
  assumes "conserves b" "i < length (sent b)" "futures b ! i = answers (calls b) ! i"
  shows "own_call b i"
proof -
  have len: "i < length (answers (calls b))" using assms(1,2) length_answers_sent by simp
  then have "concat (map fst (calls b)) ! i = submitted b ! i"
    using assms(1) unfolding conserves_def by (metis length_answers nth_append)
  with answers_nth [OF len] assms(3) show ?thesis unfolding own_call_def by metis
qed













text \<open>After the thread ended, nothing sets the future of a request that was not sent.\<close>

lemma stopped_keeps:
  assumes "bsteps n b b'" "worker b = WExit \<or> worker b = WDead"
  shows "worker b' = worker b \<and> sent b' = sent b \<and> calls b' = calls b \<and> length (futures b) \<le> length (futures b')"
  using assms
proof (induction rule: rtranclp_induct)
  case (step c c')
  from step.hyps(2) show ?case
  proof cases
    case by_caller
    then show ?thesis using step.IH step.prems
      by (induction rule: caller_step.induct) (auto simp: submit_def)
  next
    case by_worker
    then show ?thesis using step.IH step.prems
      by (induction rule: worker_step.induct) auto
  qed
qed simp

lemma stopped_never_sets:
  assumes "bsteps n b b'" "worker b = WExit \<or> worker b = WDead" "i < length (futures b)" "futures b ! i = FPending \<or> futures b ! i = FCancelled"
  shows "futures b' ! i = FPending \<or> futures b' ! i = FCancelled"
  using assms
proof (induction rule: rtranclp_induct)
  case (step c c')
  have c: "worker c = WExit \<or> worker c = WDead" "i < length (futures c)"
    using stopped_keeps [OF step.hyps(1) step.prems(1)] step.prems by auto
  from step.hyps(2) show ?case
  proof cases
    case by_caller
    then show ?thesis using step.IH [OF step.prems] c
      by (induction rule: caller_step.induct) (auto simp: submit_def nth_append nth_list_update)
  next
    case by_worker
    then show ?thesis using c by (induction rule: worker_step.induct) auto
  qed
qed simp

text \<open>A dead thread resolves no pending future and no later one.\<close>

lemma dead_resolves_nothing:
  assumes "bsteps n batcher_init b" "worker b = WDead" "bsteps n b b'"
  shows "worker b' = WDead \<and> (\<forall>i < length (futures b').
    (i < length (futures b) \<longrightarrow> futures b ! i \<in> {FPending, FCancelled}) \<longrightarrow> futures b' ! i \<in> {FPending, FCancelled})"
proof -
  have keep: "worker b' = WDead" "sent b' = sent b" using stopped_keeps [OF assms(3)] assms(2) by simp_all
  have "length (sent b) \<le> length (futures b)"
    using bsteps_invariants [OF assms(1)] conserves_sent(3) [of b] by simp
  moreover have "answered b'" using bsteps_invariants [OF rtranclp_trans [OF assms(1,3)]] by simp
  ultimately have later: "futures b' ! i \<in> {FPending, FCancelled}" if "length (futures b) \<le> i" "i < length (futures b')" for i
    using that keep(2) unfolding answered_def by fastforce
  have "futures b' ! i \<in> {FPending, FCancelled}"
    if "i < length (futures b)" "futures b ! i \<in> {FPending, FCancelled}" for i
    using stopped_never_sets [OF assms(3) disjI2 [OF assms(2)] that(1)] that(2) by auto
  with keep(1) later show ?thesis by (metis not_le)
qed

subsection \<open>Example runs\<close>

lemma bsteps_worker [trans]: "bsteps n a b \<Longrightarrow> worker_step n b c \<Longrightarrow> bsteps n a c"
  by (meson by_worker rtranclp.rtrancl_into_rtrancl)

lemma bsteps_caller [trans]: "bsteps n a b \<Longrightarrow> caller_step b c \<Longrightarrow> bsteps n a c"
  by (meson by_caller rtranclp.rtrancl_into_rtrancl)

definition example_pending :: "nat \<Rightarrow> PendingRequest" where
  "example_pending i = \<lparr>payload = [(''url'', PInt (int i))], future = i, request_id = PStr []\<rparr>"

definition example_batcher :: "bool \<Rightarrow> wpc \<Rightarrow> batcher" where
  "example_batcher shut w = \<lparr>bqueue = [], shutdown_event = shut, worker = w, futures = [FPending, FPending],
     closers_checked = 0, closers_set = (if shut then 1 else 0),
     submitted = [[(''url'', PInt 0)], [(''url'', PInt 1)]], calls = [], sent = []\<rparr>"

lemma dget_url_only [simp]: "dget_or [(''url'', v)] ''requestId'' x = x"
  by (simp add: dget_or_def)

lemma example_collected: "bsteps 2 batcher_init (example_batcher False (WMore [example_pending 0, example_pending 1]))"
proof -
  let ?b = "submit [(''url'', PInt 1)] (submit [(''url'', PInt 0)] batcher_init)"
  let ?p = "example_pending 0" and ?q = "example_pending 1"
  have "bsteps 2 batcher_init ?b"
    by (meson bsteps_caller caller_step.submit rtranclp.rtrancl_refl)
  also have "worker_step 2 ?b (?b\<lparr>worker := WFirst\<rparr>)"
    by (rule loop_collect) (simp_all add: submit_def batcher_init_def)
  also have "worker_step 2 (?b\<lparr>worker := WFirst\<rparr>) (?b\<lparr>bqueue := [Some ?q], worker := WMore [?p]\<rparr>)"
    using first_item [of "?b\<lparr>worker := WFirst\<rparr>" ?p "[Some ?q]" 2]
    by (simp add: submit_def batcher_init_def example_pending_def q_put_def)
  also have "worker_step 2 (?b\<lparr>bqueue := [Some ?q], worker := WMore [?p]\<rparr>)
      (example_batcher False (WMore [?p, ?q]))"
    using more_item [of "?b\<lparr>bqueue := [Some ?q], worker := WMore [?p]\<rparr>" "[?p]" 2 ?q "[]"]
    by (simp add: submit_def batcher_init_def example_batcher_def)
  finally show ?thesis .
qed

text \<open>The same two requests sent, with the background thread distributing the two results.\<close>

definition example_results :: "pyval list" where
  "example_results = [PStr ''a'', PStr ''b'']"

definition example_sent :: "wpc \<Rightarrow> fut list \<Rightarrow> batcher" where
  "example_sent w fs = (example_batcher False w)\<lparr>futures := fs,
     calls := [([[(''url'', PInt 0)], [(''url'', PInt 1)]], Inr example_results)], sent := [0, 1]\<rparr>"

definition example_outcomes :: "(PendingRequest \<times> fut) list" where
  "example_outcomes = [(example_pending 0, FResult (PStr ''a'')), (example_pending 1, FResult (PStr ''b''))]"

lemma example_sent_reachable: "bsteps 2 batcher_init (example_sent (WDist False example_outcomes) [FPending, FPending])"
proof -
  let ?ps = "[example_pending 0, example_pending 1]"
  note example_collected
  also have "worker_step 2 (example_batcher False (WMore ?ps)) (example_batcher False (WFlush False ?ps))"
    using more_full [of "example_batcher False (WMore ?ps)" ?ps 2] by (simp add: example_batcher_def)
  also have "worker_step 2 (example_batcher False (WFlush False ?ps))
      (example_sent (WDist False example_outcomes) [FPending, FPending])"
    using flush [of "example_batcher False (WFlush False ?ps)" False ?ps 2 "Inr example_results"]
    by (simp add: example_batcher_def example_sent_def example_outcomes_def example_results_def example_pending_def)
  finally show ?thesis .
qed

text \<open>The thread has tested the first future and not yet assigned it.\<close>

definition example_tested :: batcher where
  "example_tested = example_sent (WSet False (example_pending 0) (FResult (PStr ''a'')) (tl example_outcomes)) [FPending, FPending]"

lemma example_tested_reachable: "bsteps 2 batcher_init example_tested"
proof -
  let ?s = "example_sent (WDist False example_outcomes) [FPending, FPending]"
  note example_sent_reachable
  also have "worker_step 2 ?s example_tested"
    using dist_check [of ?s False "example_pending 0" "FResult (PStr ''a'')" "tl example_outcomes" 2]
    by (simp add: example_tested_def example_sent_def example_batcher_def example_outcomes_def example_pending_def)
  finally show ?thesis .
qed

lemma example_answered:
  "bsteps 2 batcher_init (example_sent (WDist False (tl example_outcomes)) [FResult (PStr ''a''), FPending])"
proof -
  note example_tested_reachable
  also have "worker_step 2 example_tested (example_sent (WDist False (tl example_outcomes)) [FResult (PStr ''a''), FPending])"
    using dist_set [of example_tested False "example_pending 0" "FResult (PStr ''a'')" "tl example_outcomes" 2]
    by (simp add: example_tested_def example_sent_def example_batcher_def example_pending_def)
  finally show ?thesis .
qed


definition exited_batcher :: batcher where
  "exited_batcher = batcher_init\<lparr>shutdown_event := True, closers_set := 1, worker := WExit\<rparr>"

lemma exited_reachable: "bsteps 2 batcher_init exited_batcher"
proof -
  let ?c = "batcher_init\<lparr>closers_checked := 1\<rparr>" and ?s = "\<lambda>w. exited_batcher\<lparr>worker := w\<rparr>"
  have "bsteps 2 batcher_init batcher_init" by simp
  also have "caller_step batcher_init ?c"
    using shutdown_check [of batcher_init] by (simp add: batcher_init_def)
  also have "caller_step ?c (?s WLoop)"
    using shutdown_set [of ?c 0] by (simp add: exited_batcher_def batcher_init_def)
  also have "worker_step 2 (?s WLoop) (?s (WDrain []))"
    using loop_stop [of "?s WLoop" 2] by (simp add: exited_batcher_def batcher_init_def)
  also have "worker_step 2 (?s (WDrain [])) exited_batcher"
    using drain_end [of "?s (WDrain [])" "[]" 2] by (simp add: exited_batcher_def batcher_init_def)
  finally show ?thesis .
qed

subsection \<open>Properties\<close>

text \<open>C3. Whatever the interleaving of submissions, cancellations and shutdown with the background thread: the
  payloads passed to \<^verbatim>\<open>batch_fn\<close> over all calls, one after the other, are a prefix of the submitted payloads,
  so no request is sent twice or out of order, and the requests not yet sent are all still held or queued.
  Each future is pending, or cancelled, or its request \<open>i\<close> is at a position \<open>j\<close> of the payloads of a
  call \<open>k\<close> of \<^verbatim>\<open>batch_fn\<close>, and the future has the exception the call raised, the mismatch error when the
  call returned a list of another length, or the result at that position \<open>j\<close> of the list.\<close>

theorem batcher_routes_results:
  assumes "bsteps n batcher_init b"
  shows "concat (map fst (calls b)) @ map payload (unsent b) = submitted b \<and>
    length (futures b) = length (submitted b) \<and>
    (\<forall>i < length (futures b). futures b ! i = FPending \<or> futures b ! i = FCancelled \<or>
       (\<exists>k < length (calls b). \<exists>j < length (fst (calls b ! k)).
          i = length (concat (map fst (take k (calls b)))) + j \<and> fst (calls b ! k) ! j = submitted b ! i \<and>
          futures b ! i = (case snd (calls b ! k) of
             Inl e \<Rightarrow> FException e
           | Inr results \<Rightarrow> if length results = length (fst (calls b ! k)) then FResult (results ! j)
               else FException (Exc RuntimeError (''Batch FFI returned '' @ nat_str (length results) @
                 '' results for '' @ nat_str (length (fst (calls b ! k))) @ '' requests'')))))"
proof -
  from bsteps_invariants [OF assms] have inv: "conserves b" "answered b" by simp_all
  have "length (concat (map fst (calls b))) + length (unsent b) = length (submitted b)"
    using inv(1) unfolding conserves_def by (metis length_append length_map)
  then have "length (futures b) = length (submitted b)"
    using inv(1) conserves_sent(3) [OF inv(1)] by (simp add: conserves_def)
  moreover have "futures b ! i = FPending \<or> futures b ! i = FCancelled \<or> own_call b i" if "i < length (futures b)" for i
    using inv(2) that answered_own_call [OF inv(1)] by (auto simp: answered_def)
  ultimately show ?thesis using inv(1) unfolding conserves_def own_call_def own_outcome_def by blast
qed

theorem batcher_routes_results_witness:
  "futures (example_sent (WDist False (tl example_outcomes)) [FResult (PStr ''a''), FPending]) ! 0 = FResult (example_results ! 0)"
  using batcher_routes_results [OF example_answered]
  by (auto simp: example_sent_def example_batcher_def example_results_def)



text \<open>A request submitted after the background thread ended (the batcher is shared, so another client's
  \<^verbatim>\<open>close\<close> can have ended it) is never answered: its future stays pending for ever unless its task is
  cancelled, and a caller of \<^verbatim>\<open>submit_sync\<close> blocks.\<close>

theorem submit_after_exit_never_resolves:
  assumes "bsteps n batcher_init b" "worker b = WExit" "bsteps n (submit p b) b'"
  shows "futures b' ! length (futures b) = FPending \<or> futures b' ! length (futures b) = FCancelled"
proof -
  let ?i = "length (futures b)"
  have "bsteps n batcher_init (submit p b)"
    using assms(1) by (meson by_caller caller_step.submit rtranclp.rtrancl_into_rtrancl)
  then have reach: "bsteps n batcher_init b'" using assms(3) by simp
  have keep: "sent b' = sent b" "?i < length (futures b')"
    using stopped_keeps [OF assms(3)] assms(2) by (auto simp: submit_def)
  have "length (sent b) \<le> ?i" using bsteps_invariants [OF assms(1)] conserves_sent(3) [of b] by simp
  then show ?thesis using bsteps_invariants [OF reach] keep by (auto simp: answered_def)
qed

theorem submit_after_exit_never_resolves_witness:
  "futures (submit [] exited_batcher) ! 0 = FPending \<or> futures (submit [] exited_batcher) ! 0 = FCancelled"
proof -
  have "worker exited_batcher = WExit" "length (futures exited_batcher) = 0"
    by (simp_all add: exited_batcher_def batcher_init_def)
  with submit_after_exit_never_resolves [OF exited_reachable, of "[]" "submit [] exited_batcher"] show ?thesis by simp
qed

text \<open>C36. A cancellation between \<^verbatim>\<open>future.done()\<close> and \<^verbatim>\<open>future.set_result\<close> ends the background
  thread. In any reachable state in which the thread has found the future of a request pending and is about to assign
  its outcome, a caller can cancel that future; the thread then has a next step, and each of its next steps ends it
  with an exception and assigns nothing. Whatever happens afterwards, the thread stays dead and no future that was
  pending then is ever resolved: not the other requests of the batch, whose outcomes it holds in \<open>rest\<close>, not the
  requests that are queued, and not those submitted later; each stays pending or is cancelled.\<close>

theorem cancel_race_kills_worker:
  assumes "bsteps n batcher_init b" "worker b = WSet final p x rest" "futures b ! future p = FPending"
  shows "caller_step b (b\<lparr>futures := (futures b)[future p := FCancelled]\<rparr>) \<and>
    (\<exists>b2. worker_step n (b\<lparr>futures := (futures b)[future p := FCancelled]\<rparr>) b2) \<and>
    (\<forall>b2. worker_step n (b\<lparr>futures := (futures b)[future p := FCancelled]\<rparr>) b2 \<longrightarrow>
       worker b2 = WDead \<and> futures b2 = (futures b)[future p := FCancelled] \<and>
       (\<forall>b'. bsteps n b2 b' \<longrightarrow> worker b' = WDead \<and>
          (\<forall>i < length (futures b'). (i < length (futures b) \<longrightarrow> futures b ! i = FPending) \<longrightarrow>
             futures b' ! i = FPending \<or> futures b' ! i = FCancelled)))"
proof -
  let ?c = "b\<lparr>futures := (futures b)[future p := FCancelled]\<rparr>"
  have p: "future p < length (futures b)"
    using bsteps_invariants [OF assms(1)] conserves_sent(3) [of b] assms(2) by (simp add: distributing_def)
  then have cancel: "caller_step b ?c" using assms(3) by (rule caller_step.cancel)
  have done_c: "futures ?c ! future p \<noteq> FPending" using p by simp
  have worker: "worker ?c = WSet final p x rest" using assms(2) by simp
  have only: "b2 = ?c\<lparr>worker := WDead\<rparr>" if "worker_step n ?c b2" for b2
    using that worker done_c by cases auto
  have "bsteps n batcher_init ?c" using assms(1) cancel by (meson by_caller rtranclp.rtrancl_into_rtrancl)
  moreover have dead: "worker_step n ?c (?c\<lparr>worker := WDead\<rparr>)" using worker done_c by (rule dist_invalid)
  ultimately have reach: "bsteps n batcher_init (?c\<lparr>worker := WDead\<rparr>)"
    by (meson by_worker rtranclp.rtrancl_into_rtrancl)
  have after: "worker b' = WDead \<and> (\<forall>i < length (futures b'). (i < length (futures b) \<longrightarrow> futures b ! i = FPending) \<longrightarrow>
      futures b' ! i = FPending \<or> futures b' ! i = FCancelled)" if "bsteps n (?c\<lparr>worker := WDead\<rparr>) b'" for b'
  proof -
    have "(futures b)[future p := FCancelled] ! i \<in> {FPending, FCancelled}"
      if "i < length (futures b)" "futures b ! i = FPending" for i
      using that by (cases "future p = i") simp_all
    with dead_resolves_nothing [OF reach _ that] show ?thesis by simp
  qed
  show ?thesis
  proof (intro conjI exI [of _ "?c\<lparr>worker := WDead\<rparr>"] allI impI cancel dead)
    fix b2 assume "worker_step n ?c b2"
    from only [OF this] have b2: "b2 = ?c\<lparr>worker := WDead\<rparr>" .
    then show "worker b2 = WDead" "futures b2 = (futures b)[future p := FCancelled]" by simp_all
    fix b' assume "bsteps n b2 b'"
    with b2 have run: "bsteps n (?c\<lparr>worker := WDead\<rparr>) b'" by simp
    from after [OF this] show "worker b' = WDead" by blast
    fix i assume "i < length (futures b')" "i < length (futures b) \<longrightarrow> futures b ! i = FPending"
    with after [OF run] show "futures b' ! i = FPending \<or> futures b' ! i = FCancelled" by blast
  qed
qed

theorem cancel_race_kills_worker_witness:
  "\<exists>b2. worker_step 2 (example_tested\<lparr>futures := [FCancelled, FPending]\<rparr>) b2 \<and> worker b2 = WDead \<and>
     futures b2 = [FCancelled, FPending]"
proof -
  have at: "worker example_tested = WSet False (example_pending 0) (FResult (PStr ''a'')) (tl example_outcomes)"
    "future (example_pending 0) = 0" "futures example_tested = [FPending, FPending]"
    by (simp_all add: example_tested_def example_sent_def example_batcher_def example_pending_def)
  with cancel_race_kills_worker [OF example_tested_reachable at(1)] show ?thesis by auto
qed

end
