(* ===== verification/Fingerprints.thy ===== *)
theory Fingerprints
  imports Schema
begin

section \<open>TLS fingerprints (\<^verbatim>\<open>cycletls/fingerprints.py\<close>)\<close>

text \<open>
  A profile (\<^verbatim>\<open>TLSFingerprint\<close>) is a record of dynamic values, since \<^verbatim>\<open>from_dict\<close> takes what the
  JSON file holds; the registry is its class variable \<^verbatim>\<open>_profiles\<close>. A file is represented by the JSON
  value it holds (\<^verbatim>\<open>json.load\<close> of its text), so loading takes a value and saving gives one.
  \<^verbatim>\<open>sorted\<close> in \<^verbatim>\<open>save_to_file\<close> compares names; the model covers registries whose names are strings,
  as the annotation of the field says, and takes any other to be incomparable.

  The regular expressions of the module are the functions \<open>digit_runs\<close> (\<^verbatim>\<open>findall\<close> of digits),
  \<open>search_token\<close> (an alternative of words, a slash, and a run of characters of a class) and
  \<open>collapse\<close> (\<^verbatim>\<open>re.sub\<close> of the runs of other characters by an underscore).
\<close>

datatype BrowserFamily = BRAVE | CHROME | CHROMIUM | EDGE | FIREFOX | OPERA | SAFARI | SAMSUNG

datatype Platform = ANDROID | IOS | LINUX | MACOS | WINDOWS

fun platform_value :: "Platform \<Rightarrow> string" where
  "platform_value ANDROID = ''android''"
| "platform_value IOS = ''ios''"
| "platform_value LINUX = ''linux''"
| "platform_value MACOS = ''mac''"
| "platform_value WINDOWS = ''win''"

fun family_value :: "BrowserFamily \<Rightarrow> string" where
  "family_value BRAVE = ''brave''"
| "family_value CHROME = ''chrome''"
| "family_value CHROMIUM = ''chromium''"
| "family_value EDGE = ''edge''"
| "family_value FIREFOX = ''firefox''"
| "family_value OPERA = ''opera''"
| "family_value SAFARI = ''safari''"
| "family_value SAMSUNG = ''samsung''"

fun family_prefixes :: "BrowserFamily \<Rightarrow> string list" where
  "family_prefixes BRAVE = [''brave'']"
| "family_prefixes CHROME = [''chrome'']"
| "family_prefixes CHROMIUM = [''chromium'']"
| "family_prefixes EDGE = [''edge'', ''msedge'']"
| "family_prefixes FIREFOX = [''firefox'']"
| "family_prefixes OPERA = [''opera'']"
| "family_prefixes SAFARI = [''safari'']"
| "family_prefixes SAMSUNG = [''samsung'']"

subsection \<open>Searching text\<close>

function digit_runs :: "string \<Rightarrow> string list" where
  "digit_runs [] = []"
| "digit_runs (c # s) = (if is_digit c
     then (c # takeWhile is_digit s) # digit_runs (dropWhile is_digit s) else digit_runs s)"
  by pat_completeness auto
termination
  by (relation "measure length") (auto simp: less_Suc_eq_le length_dropWhile_le)

definition match_token :: "(char \<Rightarrow> bool) \<Rightarrow> string list \<Rightarrow> string \<Rightarrow> string option" where
  "match_token cls alts s =
     map_option (\<lambda>a. takeWhile cls (drop (Suc (length a)) s))
       (find (\<lambda>a. startswith s (a @ ''/'') \<and> takeWhile cls (drop (Suc (length a)) s) \<noteq> []) alts)"

fun search_token :: "(char \<Rightarrow> bool) \<Rightarrow> string list \<Rightarrow> string \<Rightarrow> string option" where
  "search_token cls alts [] = None"
| "search_token cls alts (c # s) = (case match_token cls alts (c # s) of
     Some v \<Rightarrow> Some v | None \<Rightarrow> search_token cls alts s)"

definition is_alnum :: "char \<Rightarrow> bool" where
  "is_alnum c = (let n = of_char c :: nat in is_digit c \<or> (65 \<le> n \<and> n \<le> 90) \<or> (97 \<le> n \<and> n \<le> 122))"

fun collapse :: "bool \<Rightarrow> string \<Rightarrow> string" where
  "collapse gap [] = []"
| "collapse gap (c # s) = (if is_alnum c then c # collapse False s
     else if gap then collapse True s else CHR ''_'' # collapse True s)"

text \<open>\<^verbatim>\<open>_version_tuple\<close>: on a string, the numbers in it.\<close>

definition version_numbers :: "string \<Rightarrow> nat list" where
  "version_numbers s = (let parts = digit_runs s in if parts = [] then [0] else map nat_of_digits parts)"

fun version_tuple :: "pyval \<Rightarrow> nat list res" where
  "version_tuple (PStr s) = Inr (version_numbers s)"
| "version_tuple _ = Inl (Exc TypeError ''expected string or bytes-like object'')"

subsection \<open>Profiles\<close>

record TLSFingerprint =
  fp_name :: pyval
  fp_ja3 :: pyval
  fp_ja4r :: pyval
  fp_http2_fingerprint :: pyval
  fp_quic_fingerprint :: pyval
  fp_user_agent :: pyval
  fp_header_order :: pyval
  fp_headers :: pyval
  fp_disable_grease :: pyval
  fp_force_http1 :: pyval
  fp_force_http3 :: pyval

definition from_dict :: "kwargs \<Rightarrow> TLSFingerprint res" where
  "from_dict data = bindE (getitem data ''name'') (\<lambda>name. bindE (getitem data ''ja3'') (\<lambda>ja3.
     Inr \<lparr>fp_name = name, fp_ja3 = ja3,
       fp_ja4r = dget data ''ja4r'',
       fp_http2_fingerprint = dget data ''http2_fingerprint'',
       fp_quic_fingerprint = dget data ''quic_fingerprint'',
       fp_user_agent = dget data ''user_agent'',
       fp_header_order = dget data ''header_order'',
       fp_headers = dget data ''headers'',
       fp_disable_grease = dget_or data ''disable_grease'' (PBool False),
       fp_force_http1 = dget_or data ''force_http1'' (PBool False),
       fp_force_http3 = dget_or data ''force_http3'' (PBool False)\<rparr>))"

definition set_if :: "bool \<Rightarrow> string \<Rightarrow> pyval \<Rightarrow> kwargs \<Rightarrow> kwargs" where
  "set_if b k v d = (if b then dset d k v else d)"

definition to_dict :: "TLSFingerprint \<Rightarrow> kwargs" where
  "to_dict fp =
    (let r = [(''name'', fp_name fp), (''ja3'', fp_ja3 fp)];
         r = set_if (fp_ja4r fp \<noteq> PNone) ''ja4r'' (fp_ja4r fp) r;
         r = set_if (fp_http2_fingerprint fp \<noteq> PNone) ''http2_fingerprint'' (fp_http2_fingerprint fp) r;
         r = set_if (fp_quic_fingerprint fp \<noteq> PNone) ''quic_fingerprint'' (fp_quic_fingerprint fp) r;
         r = set_if (fp_user_agent fp \<noteq> PNone) ''user_agent'' (fp_user_agent fp) r;
         r = set_if (fp_header_order fp \<noteq> PNone) ''header_order'' (fp_header_order fp) r;
         r = set_if (fp_headers fp \<noteq> PNone) ''headers'' (fp_headers fp) r;
         r = set_if (py_truth (fp_disable_grease fp)) ''disable_grease'' (PBool True) r;
         r = set_if (py_truth (fp_force_http1 fp)) ''force_http1'' (PBool True) r
     in set_if (py_truth (fp_force_http3 fp)) ''force_http3'' (PBool True) r)"

text \<open>\<^verbatim>\<open>key in v\<close> for a string key.\<close>

fun py_contains :: "string \<Rightarrow> pyval \<Rightarrow> bool res" where
  "py_contains k (PList xs) = Inr (PStr k \<in> set xs)"
| "py_contains k (PTuple xs) = Inr (PStr k \<in> set xs)"
| "py_contains k (PDict d) = Inr (dhas d k)"
| "py_contains k (PStr s) = Inr (contains s k)"
| "py_contains k (PJar j) = Inr (PStr k \<in> fst ` set j)"
| "py_contains k _ = Inl (Exc TypeError ''argument is not iterable'')"

definition ua_platform :: "string \<Rightarrow> string" where
  "ua_platform ua = (if contains ua ''Linux'' then ''Linux''
     else if contains ua ''Macintosh'' \<or> contains ua ''Mac OS X'' then ''macOS''
     else if contains ua ''Windows'' then ''Windows''
     else if contains ua ''Android'' then ''Android''
     else [])"

definition ua_brand :: "string \<Rightarrow> string \<Rightarrow> string option" where
  "ua_brand name ua = (if startswith name ''brave'' then Some ''Brave''
     else if startswith name ''opera'' \<or> contains (lower ua) ''opr/'' then Some ''Opera''
     else if startswith name ''edge'' \<or> startswith name ''msedge'' then Some ''Microsoft Edge''
     else if startswith name ''chrome'' then Some ''Google Chrome''
     else if startswith name ''chromium'' then None
     else if contains ua ''Chrome/'' \<and> \<not> contains ua ''Chromium/'' then Some ''Google Chrome'' else None)"

definition quoted :: "string \<Rightarrow> string" where
  "quoted s = char_of (34 :: nat) # s @ [char_of (34 :: nat)]"

definition brand_item :: "string \<Rightarrow> string \<Rightarrow> string" where
  "brand_item brand version = quoted brand @ '';v='' @ quoted version"

definition sec_ch_ua_value :: "string \<Rightarrow> string \<Rightarrow> string \<Rightarrow> string" where
  "sec_ch_ua_value name ua major = (case ua_brand name ua of
     Some brand \<Rightarrow>
       let brand_version = (if brand = ''Opera''
         then (case search_token is_digit [''opr''] (lower ua) of Some v \<Rightarrow> v | None \<Rightarrow> major) else major)
       in brand_item ''Chromium'' major @ '', '' @ brand_item brand brand_version @ '', '' @ brand_item ''Not/A)Brand'' ''99''
   | None \<Rightarrow> brand_item ''Chromium'' major @ '', '' @ brand_item ''Not/A)Brand'' ''99'')"

fun regex_subject :: "pyval \<Rightarrow> string res" where
  "regex_subject (PStr s) = Inr s"
| "regex_subject _ = Inl (Exc TypeError ''expected string or bytes-like object'')"

definition dynamic_sec_ch_ua :: "TLSFingerprint \<Rightarrow> kwargs option res" where
  "dynamic_sec_ch_ua fp =
    (if \<not> py_truth (fp_user_agent fp) \<or> \<not> py_truth (fp_header_order fp) then Inr None
     else bindE (regex_subject (fp_user_agent fp)) (\<lambda>ua.
       case search_token is_digit [''Chrome'', ''Chromium'', ''HeadlessChrome''] ua of
         None \<Rightarrow> Inr None
       | Some major \<Rightarrow>
           bindE (as_text (fp_name fp)) (\<lambda>name.
           let platform = ua_platform ua;
               mobile = (if contains ua ''Android'' \<or> contains ua ''Mobile'' then ''?1'' else ''?0'');
               sec_ch_ua = sec_ch_ua_value (lower name) ua major in
           bindE (py_contains ''sec-ch-ua'' (fp_header_order fp)) (\<lambda>b1.
           bindE (py_contains ''sec-ch-ua-mobile'' (fp_header_order fp)) (\<lambda>b2.
           bindE (py_contains ''sec-ch-ua-platform'' (fp_header_order fp)) (\<lambda>b3.
             let r = set_if b1 ''sec-ch-ua'' (PStr sec_ch_ua) [];
                 r = set_if b2 ''sec-ch-ua-mobile'' (PStr mobile) r;
                 r = set_if b3 ''sec-ch-ua-platform'' (PStr (if platform \<noteq> [] then quoted platform else [])) r
             in Inr (if r \<noteq> [] then Some r else None)))))))"

text \<open>\<^verbatim>\<open>{**a, **b}\<close>.\<close>

fun merge_mappings :: "pyval \<Rightarrow> pyval \<Rightarrow> pyval res" where
  "merge_mappings (PDict a) (PDict b) = Inr (PDict (dupdate a b))"
| "merge_mappings _ _ = Inl (Exc TypeError ''object is not a mapping'')"

text \<open>The loop that adds the computed headers; the dictionary it updates is the caller's own.\<close>

fun add_missing :: "pyval \<Rightarrow> kwargs \<Rightarrow> pyval res" where
  "add_missing h [] = Inr h"
| "add_missing h ((key, v) # rest) = bindE (py_contains key h) (\<lambda>present.
     if present then add_missing h rest
     else case h of PDict d \<Rightarrow> add_missing (PDict (dset d key v)) rest
       | _ \<Rightarrow> Inl (no_attribute ''setdefault''))"

definition fill :: "bool \<Rightarrow> string \<Rightarrow> pyval \<Rightarrow> kwargs \<Rightarrow> kwargs" where
  "fill b k v kw = (if b \<and> \<not> dhas kw k then dset kw k v else kw)"

definition apply_to_kwargs :: "TLSFingerprint \<Rightarrow> kwargs \<Rightarrow> kwargs res" where
  "apply_to_kwargs fp kw0 =
    (let kw = fill True ''ja3'' (fp_ja3 fp) kw0;
         kw = fill (fp_ja4r fp \<noteq> PNone) ''ja4r'' (fp_ja4r fp) kw;
         kw = fill (fp_http2_fingerprint fp \<noteq> PNone) ''http2_fingerprint'' (fp_http2_fingerprint fp) kw;
         kw = fill (fp_quic_fingerprint fp \<noteq> PNone) ''quic_fingerprint'' (fp_quic_fingerprint fp) kw;
         kw = fill (fp_user_agent fp \<noteq> PNone) ''user_agent'' (fp_user_agent fp) kw;
         kw = fill (fp_header_order fp \<noteq> PNone) ''header_order'' (fp_header_order fp) kw
     in bindE (if fp_headers fp = PNone then Inr kw
          else bindE (merge_mappings (fp_headers fp) (py_or (dget kw ''headers'') (PDict []))) (\<lambda>merged.
            Inr (dset kw ''headers'' merged))) (\<lambda>kw.
        bindE (dynamic_sec_ch_ua fp) (\<lambda>dyn.
        bindE (case dyn of None \<Rightarrow> Inr kw
          | Some d \<Rightarrow> bindE (add_missing (py_or (dget kw ''headers'') (PDict [])) d) (\<lambda>h.
              Inr (dset kw ''headers'' h))) (\<lambda>kw.
          let kw = fill (py_truth (fp_disable_grease fp)) ''disable_grease'' (PBool True) kw;
              kw = fill (py_truth (fp_force_http1 fp)) ''force_http1'' (PBool True) kw
          in Inr (fill (py_truth (fp_force_http3 fp)) ''force_http3'' (PBool True) kw)))))"

subsection \<open>The registry\<close>

type_synonym registry = "(pyval, TLSFingerprint) dict"

fun hashable :: "pyval \<Rightarrow> bool" where
  "hashable (PList _) = False" | "hashable (PDict _) = False" | "hashable (PCookie _) = False"
| "hashable (PJar _) = False" | "hashable (PTuple xs) = list_all hashable xs" | "hashable _ = True"

text \<open>Operations that can fail half-way return the registry they leave behind beside their result.\<close>

definition register :: "registry \<Rightarrow> TLSFingerprint \<Rightarrow> registry \<times> unit res" where
  "register r profile = (if hashable (fp_name profile) then (dset r (fp_name profile) profile, Inr ())
     else (r, Inl (Exc TypeError ''unhashable type'')))"

fun register_many :: "registry \<Rightarrow> TLSFingerprint list \<Rightarrow> registry \<times> unit res" where
  "register_many r [] = (r, Inr ())"
| "register_many r (p # ps) = (case register r p of
     (r', Inl e) \<Rightarrow> (r', Inl e) | (r', Inr _) \<Rightarrow> register_many r' ps)"

definition unregister :: "registry \<Rightarrow> string \<Rightarrow> registry \<times> bool" where
  "unregister r name = (if dhas r (PStr name) then (ddel r (PStr name), True) else (r, False))"

definition registry_list :: "registry \<Rightarrow> pyval list" where
  "registry_list r = dkeys r"

definition registry_get :: "registry \<Rightarrow> string \<Rightarrow> TLSFingerprint res" where
  "registry_get r name = (case map_of r (PStr name) of
     None \<Rightarrow> Inl (Exc KeyError (''Fingerprint profile '' @ (CHR 0x27 # name @ [CHR 0x27]) @ '' not found. Available: '' @
       py_repr (PList (registry_list r))))
   | Some fp \<Rightarrow> Inr fp)"

definition get_or_none :: "registry \<Rightarrow> string \<Rightarrow> TLSFingerprint option" where
  "get_or_none r name = map_of r (PStr name)"

definition registry_all :: "registry \<Rightarrow> registry" where
  "registry_all r = r"

definition registry_clear :: "registry \<Rightarrow> registry" where
  "registry_clear r = []"

fun filterE :: "('a \<Rightarrow> bool res) \<Rightarrow> 'a list \<Rightarrow> 'a list res" where
  "filterE f [] = Inr []"
| "filterE f (x # xs) = bindE (f x) (\<lambda>b. bindE (filterE f xs) (\<lambda>ys. Inr (if b then x # ys else ys)))"

fun name_startswith :: "string list \<Rightarrow> TLSFingerprint \<Rightarrow> bool res" where
  "name_startswith pres fp = (case fp_name fp of
     PStr s \<Rightarrow> Inr (list_ex (startswith s) pres)
   | _ \<Rightarrow> Inl (no_attribute ''startswith''))"

fun name_endswith :: "Platform \<Rightarrow> TLSFingerprint \<Rightarrow> bool res" where
  "name_endswith platform fp = (case fp_name fp of
     PStr s \<Rightarrow> Inr (endswith s (CHR ''_'' # platform_value platform))
   | _ \<Rightarrow> Inl (no_attribute ''endswith''))"

definition by_family :: "registry \<Rightarrow> BrowserFamily \<Rightarrow> Platform option \<Rightarrow> TLSFingerprint list res" where
  "by_family r family platform =
     bindE (filterE (name_startswith (family_prefixes family)) (dvals r)) (\<lambda>candidates.
       case platform of None \<Rightarrow> Inr candidates | Some p \<Rightarrow> filterE (name_endswith p) candidates)"

definition candidates :: "registry \<Rightarrow> BrowserFamily option \<Rightarrow> Platform option \<Rightarrow> TLSFingerprint list res" where
  "candidates r family platform = (case family of
     Some f \<Rightarrow> by_family r f platform
   | None \<Rightarrow> (case platform of Some p \<Rightarrow> filterE (name_endswith p) (dvals r) | None \<Rightarrow> Inr (dvals r)))"

fun platform_member :: "Platform \<Rightarrow> string" where
  "platform_member ANDROID = ''ANDROID''" | "platform_member IOS = ''IOS''" | "platform_member LINUX = ''LINUX''"
| "platform_member MACOS = ''MACOS''" | "platform_member WINDOWS = ''WINDOWS''"

fun family_member :: "BrowserFamily \<Rightarrow> string" where
  "family_member BRAVE = ''BRAVE''" | "family_member CHROME = ''CHROME''" | "family_member CHROMIUM = ''CHROMIUM''"
| "family_member EDGE = ''EDGE''" | "family_member FIREFOX = ''FIREFOX''" | "family_member OPERA = ''OPERA''"
| "family_member SAFARI = ''SAFARI''" | "family_member SAMSUNG = ''SAMSUNG''"

definition no_profiles :: "registry \<Rightarrow> BrowserFamily option \<Rightarrow> Platform option \<Rightarrow> pyexc" where
  "no_profiles r family platform = Exc KeyError (''No profiles found'' @
     (case family of None \<Rightarrow> [] | Some f \<Rightarrow> '' for family <BrowserFamily.'' @ family_member f @ '': '' @
        str_repr (family_value f) @ ''>'') @
     (case platform of None \<Rightarrow> [] | Some p \<Rightarrow> '' on platform <Platform.'' @ platform_member p @ '': '' @
        str_repr (platform_value p) @ ''>'') @
     ''. Available: '' @ py_repr (PList (registry_list r)))"

text \<open>\<^verbatim>\<open>max\<close> keeps the first of several maximal elements.\<close>

fun max_by :: "('a \<times> 'k :: linorder) \<Rightarrow> ('a \<times> 'k) list \<Rightarrow> 'a" where
  "max_by (best, k) [] = best"
| "max_by (best, k) ((x, l) # xs) = (if l > k then max_by (x, l) xs else max_by (best, k) xs)"

definition latest :: "registry \<Rightarrow> BrowserFamily option \<Rightarrow> Platform option \<Rightarrow> TLSFingerprint res" where
  "latest r family platform = bindE (candidates r family platform) (\<lambda>cs.
     bindE (if cs = [] then Inl (no_profiles r family platform) else Inr ()) (\<lambda>_.
     bindE (mapE (\<lambda>fp. bindE (version_tuple (fp_name fp)) (\<lambda>v. Inr (fp, v))) cs) (\<lambda>keyed.
       Inr (max_by (hd keyed) (tl keyed)))))"

text \<open>\<^verbatim>\<open>random.choice\<close> is the argument \<open>choice\<close>.\<close>

definition random_profile :: "(TLSFingerprint list \<Rightarrow> TLSFingerprint) \<Rightarrow> registry \<Rightarrow> BrowserFamily option \<Rightarrow>
    Platform option \<Rightarrow> TLSFingerprint res" where
  "random_profile choice r family platform = bindE (candidates r family platform) (\<lambda>cs.
     if cs = [] then Inl (no_profiles r family platform) else Inr (choice cs))"

fun dict_items :: "pyval list \<Rightarrow> kwargs list" where
  "dict_items [] = []"
| "dict_items (PDict d # vs) = d # dict_items vs"
| "dict_items (_ # vs) = dict_items vs"

fun raw_items :: "pyval \<Rightarrow> kwargs list option" where
  "raw_items (PDict payload) = (case dget payload ''fingerprints'' of PList vs \<Rightarrow> Some (dict_items vs) | _ \<Rightarrow> None)"
| "raw_items (PList vs) = Some (dict_items vs)"
| "raw_items _ = None"

definition load_from_file :: "registry \<Rightarrow> string \<Rightarrow> pyval res \<Rightarrow> bool \<Rightarrow> registry \<times> TLSFingerprint list res" where
  "load_from_file r path contents clear = (case contents of
     Inl e \<Rightarrow> (r, Inl e)
   | Inr payload \<Rightarrow> (case raw_items payload of
       None \<Rightarrow> (r, Inl (Exc ValueError (''Unsupported fingerprint registry format in '' @ path)))
     | Some items \<Rightarrow>
         (case mapE from_dict (filter (\<lambda>d. dhas d ''name'' \<and> dhas d ''ja3'') items) of
            Inl e \<Rightarrow> (r, Inl e)
          | Inr loaded \<Rightarrow>
              (case register_many (if clear then registry_clear r else r) loaded of
                 (r', Inl e) \<Rightarrow> (r', Inl e)
               | (r', Inr _) \<Rightarrow> (r', Inr loaded)))))"

fun str_names :: "registry \<Rightarrow> (string \<times> TLSFingerprint) list option" where
  "str_names [] = Some []"
| "str_names ((PStr s, fp) # r) = map_option ((#) (s, fp)) (str_names r)"
| "str_names _ = None"

definition save_to_file :: "registry \<Rightarrow> pyval res" where
  "save_to_file r = (case str_names r of
     None \<Rightarrow> Inl (Exc TypeError ''< not supported'')
   | Some items \<Rightarrow> Inr (PDict [(''schema'', PStr ''cycletls_fingerprint_registry/v1''),
       (''fingerprints'', PList (map (\<lambda>(_, fp). PDict (to_dict fp)) (sort_key fst items)))]))"

subsection \<open>TrackMe captures\<close>

fun before_colon :: "string \<Rightarrow> string" where
  "before_colon s = takeWhile (\<lambda>c. c \<noteq> CHR '':'') s"

fun ordered_names :: "pyval list \<Rightarrow> string list" where
  "ordered_names [] = []"
| "ordered_names (PStr h # hs) =
     (if startswith h '':'' \<or> \<not> contains h '':'' then ordered_names hs
      else let name = lower (strip (before_colon h)) in
        if name \<noteq> [] then name # ordered_names hs else ordered_names hs)"
| "ordered_names (_ # hs) = ordered_names hs"

fun first_header_frame :: "pyval list \<Rightarrow> string list" where
  "first_header_frame [] = []"
| "first_header_frame (PDict frame # fs) =
     (if dget frame ''frame_type'' \<noteq> PStr ''HEADERS'' then first_header_frame fs
      else case dget frame ''headers'' of
        PList hs \<Rightarrow> (let ordered = ordered_names hs in
          if ordered \<noteq> [] then ordered else first_header_frame fs)
      | _ \<Rightarrow> first_header_frame fs)"
| "first_header_frame (_ # fs) = first_header_frame fs"

definition extract_header_order :: "kwargs \<Rightarrow> string list res" where
  "extract_header_order raw = (case dget_or raw ''http2'' (PDict []) of
     PDict http2 \<Rightarrow> (case dget_or http2 ''sent_frames'' (PList []) of
       PList frames \<Rightarrow> Inr (first_header_frame frames)
     | _ \<Rightarrow> Inr [])
   | _ \<Rightarrow> Inl (no_attribute ''get''))"

definition is_version_char :: "char \<Rightarrow> bool" where
  "is_version_char c = (is_digit c \<or> c = CHR ''.'')"

definition extract_trackme_version :: "string \<Rightarrow> string \<Rightarrow> string" where
  "extract_trackme_version browser user_agent = (case map_of
       [(''firefox'', [''Firefox'']), (''chromium'', [''HeadlessChrome'', ''Chrome'']),
        (''chrome'', [''HeadlessChrome'', ''Chrome''])] (lower browser) of
     None \<Rightarrow> ''unknown''
   | Some words \<Rightarrow> (case search_token is_version_char words user_agent of
       Some v \<Rightarrow> v | None \<Rightarrow> ''unknown''))"

definition build_trackme_name :: "string \<Rightarrow> string \<Rightarrow> string" where
  "build_trackme_name browser version =
    (let v = strip_with (\<lambda>c. c = CHR ''_'') (collapse False version);
         safe_version = (if v \<noteq> [] then v else ''unknown'')
     in lower (browser @ ''_'' @ safe_version))"

fun normalize_new_entries :: "pyval list \<Rightarrow> kwargs list" where
  "normalize_new_entries [] = []"
| "normalize_new_entries (PDict entry # es) =
     [(''name'', dget entry ''name''), (''ja3'', dget entry ''ja3''),
      (''ja4r'', py_or (dget entry ''ja4_r'') (dget entry ''ja4r'')),
      (''http2_fingerprint'', py_or (dget entry ''http2'') (dget entry ''http2_fingerprint'')),
      (''user_agent'', py_or (dget entry ''ua'') (dget entry ''user_agent'')),
      (''header_order'', dget entry ''header_order''), (''headers'', dget entry ''headers'')]
     # normalize_new_entries es"
| "normalize_new_entries (_ # es) = normalize_new_entries es"

fun normalize_old_entries :: "kwargs \<Rightarrow> kwargs list res" where
  "normalize_old_entries [] = Inr []"
| "normalize_old_entries ((browser, PDict entry) # es) =
     (if dhas entry ''error'' then normalize_old_entries es
      else let raw = (case dget entry ''raw'' of PDict r \<Rightarrow> r | _ \<Rightarrow> []);
               user_agent = py_or (py_or (dget entry ''ua'') (dget raw ''user_agent'')) (PStr []);
               version = extract_trackme_version browser (py_str user_agent) in
        bindE (extract_header_order raw) (\<lambda>order. bindE (normalize_old_entries es) (\<lambda>rest.
          Inr ([(''name'', PStr (build_trackme_name browser version)), (''ja3'', dget entry ''ja3''),
            (''ja4r'', py_or (dget entry ''ja4_r'') (dget entry ''ja4r'')),
            (''http2_fingerprint'', py_or (dget entry ''http2'') (dget entry ''http2_akamai'')),
            (''user_agent'', user_agent),
            (''header_order'', PList (map PStr order))] # rest))))"
| "normalize_old_entries (_ # es) = normalize_old_entries es"

fun normalize_trackme_payload :: "pyval \<Rightarrow> kwargs list res" where
  "normalize_trackme_payload (PDict payload) = (case dget payload ''fingerprints'' of
     PList entries \<Rightarrow> Inr (normalize_new_entries entries)
   | _ \<Rightarrow> normalize_old_entries payload)"
| "normalize_trackme_payload _ = Inl (no_attribute ''get'')"

fun load_trackme_entries :: "registry \<Rightarrow> kwargs list \<Rightarrow> registry \<times> TLSFingerprint list res" where
  "load_trackme_entries r [] = (r, Inr [])"
| "load_trackme_entries r (e # es) =
     (if \<not> py_truth (dget e ''name'') \<or> \<not> py_truth (dget e ''ja3'') then load_trackme_entries r es
      else case from_dict e of
        Inl err \<Rightarrow> (r, Inl err)
      | Inr profile \<Rightarrow> (case register r profile of
          (r', Inl err) \<Rightarrow> (r', Inl err)
        | (r', Inr _) \<Rightarrow> (case load_trackme_entries r' es of
            (r'', Inl err) \<Rightarrow> (r'', Inl err)
          | (r'', Inr loaded) \<Rightarrow> (r'', Inr (profile # loaded)))))"

text \<open>The file written when \<^verbatim>\<open>persist_path\<close> is given is the last component of the result.\<close>

definition load_trackme_fingerprints ::
    "registry \<Rightarrow> pyval res \<Rightarrow> bool \<Rightarrow> registry \<times> TLSFingerprint list res \<times> pyval option" where
  "load_trackme_fingerprints r contents persist = (case bindE contents normalize_trackme_payload of
     Inl e \<Rightarrow> (r, Inl e, None)
   | Inr entries \<Rightarrow> (case load_trackme_entries r entries of
       (r', Inl e) \<Rightarrow> (r', Inl e, None)
     | (r', Inr loaded) \<Rightarrow>
         if \<not> persist then (r', Inr loaded, None)
         else case save_to_file r' of Inl e \<Rightarrow> (r', Inl e, None) | Inr f \<Rightarrow> (r', Inr loaded, Some f)))"

subsection \<open>Import of the module\<close>

text \<open>
  \<open>import_registry\<close> is the code at the end of the module: the default file if it exists, then the file
  named by \<^verbatim>\<open>CYCLETLS_FINGERPRINTS_FILE\<close>, then the capture named by
  \<^verbatim>\<open>CYCLETLS_TRACKME_FINGERPRINT_FILE\<close>; failures of the last two are only reported. A failure to read the
  default file makes the import fail. \<open>exported_profiles\<close> are the module constants set from the registry.
\<close>

definition import_registry :: "string \<Rightarrow> pyval res option \<Rightarrow> (string \<times> pyval res) option \<Rightarrow> pyval res option \<Rightarrow> registry res" where
  "import_registry path default_file extra_file trackme_file =
    (case (case default_file of None \<Rightarrow> ([], Inr []) | Some f \<Rightarrow> load_from_file [] path f True) of
       (_, Inl e) \<Rightarrow> Inl e
     | (r, Inr _) \<Rightarrow>
         let r = (case extra_file of None \<Rightarrow> r | Some (p, f) \<Rightarrow> fst (load_from_file r p f False));
             r = (case trackme_file of None \<Rightarrow> r | Some f \<Rightarrow> fst (load_trackme_fingerprints r f True))
         in Inr r)"

definition profile_exports :: "(string \<times> string) list" where
  "profile_exports = [
     (''BRAVE_1_63'', ''brave_1_63_win''), (''CHROME_120'', ''chrome_120_win''),
     (''CHROME_121'', ''chrome_121_win''), (''CHROME_122'', ''chrome_122_win''),
     (''CHROME_123'', ''chrome_123_win''), (''CHROME_124'', ''chrome_124_win''),
     (''CHROME_125'', ''chrome_125_win''), (''CHROME_146'', ''chrome_146_0_0_0_linux''),
     (''CHROME_146_MAC'', ''chrome_146_0_0_0_mac''), (''CHROME_146_WIN'', ''chrome_146_0_0_0_win''),
     (''CHROME_147'', ''chrome_147_0_0_0_linux''), (''CHROME_147_MAC'', ''chrome_147_0_0_0_mac''),
     (''CHROME_147_WIN'', ''chrome_147_0_0_0_win''), (''CHROME_148'', ''chrome_148_0_0_0_linux''),
     (''CHROME_148_MAC'', ''chrome_148_0_0_0_mac''), (''CHROME_148_WIN'', ''chrome_148_0_0_0_win''),
     (''CHROME_149'', ''chrome_149_0_0_0_linux''), (''CHROME_149_MAC'', ''chrome_149_0_0_0_mac''),
     (''CHROME_149_WIN'', ''chrome_149_0_0_0_win''), (''CHROME_150'', ''chrome_150_0_0_0_linux''),
     (''CHROME_150_MAC'', ''chrome_150_0_0_0_mac''), (''CHROME_150_WIN'', ''chrome_150_0_0_0_win''),
     (''CHROME_151'', ''chrome_151_0_0_0_linux''), (''CHROME_151_MAC'', ''chrome_151_0_0_0_mac''),
     (''CHROME_151_WIN'', ''chrome_151_0_0_0_win''), (''CHROME_152'', ''chrome_152_0_0_0_linux''),
     (''CHROME_152_MAC'', ''chrome_152_0_0_0_mac''), (''CHROME_152_WIN'', ''chrome_152_0_0_0_win''),
     (''CHROME_153'', ''chrome_153_0_0_0_linux''), (''CHROME_153_MAC'', ''chrome_153_0_0_0_mac''),
     (''CHROME_153_WIN'', ''chrome_153_0_0_0_win''), (''CHROME_154'', ''chrome_154_0_0_0_linux''),
     (''CHROME_154_MAC'', ''chrome_154_0_0_0_mac''), (''CHROME_154_WIN'', ''chrome_154_0_0_0_win''),
     (''CHROME_155'', ''chrome_155_0_0_0_linux''), (''CHROME_155_MAC'', ''chrome_155_0_0_0_mac''),
     (''CHROME_155_WIN'', ''chrome_155_0_0_0_win''), (''CHROME_156'', ''chrome_156_0_0_0_linux''),
     (''CHROME_156_MAC'', ''chrome_156_0_0_0_mac''), (''CHROME_156_WIN'', ''chrome_156_0_0_0_win''),
     (''CHROME_ANDROID'', ''chrome_android''), (''CHROME_ANDROID_113'', ''chrome_android_113_0_0_0_android''),
     (''CHROME_LINUX'', ''chrome_linux''), (''CHROMIUM_134'', ''chromium_134_0_6998_35''),
     (''CHROMIUM_145_0_7632_6_LINUX'', ''chromium_145_0_7632_6_linux''),
     (''CHROMIUM_145_0_7632_6_MAC'', ''chromium_145_0_7632_6_mac''),
     (''CHROMIUM_145_0_7632_6_WIN'', ''chromium_145_0_7632_6_win''),
     (''CHROMIUM_145_MAC'', ''chromium_145_0_0_0_mac''), (''CHROMIUM_145_WIN'', ''chromium_145_0_0_0_win''),
     (''CHROMIUM_147_0_7727_15_LINUX'', ''chromium_147_0_7727_15_linux''),
     (''CHROMIUM_147_MAC'', ''chromium_147_0_0_0_mac''), (''CHROMIUM_147_WIN'', ''chromium_147_0_0_0_win''),
     (''CHROMIUM_148_0_7778_96_LINUX'', ''chromium_148_0_7778_96_linux''),
     (''CHROMIUM_148_MAC'', ''chromium_148_0_0_0_mac''), (''CHROMIUM_148_WIN'', ''chromium_148_0_0_0_win''),
     (''CHROMIUM_149_0_7827_55_LINUX'', ''chromium_149_0_7827_55_linux''),
     (''CHROMIUM_149_MAC'', ''chromium_149_0_0_0_mac''), (''CHROMIUM_149_WIN'', ''chromium_149_0_0_0_win''),
     (''CHROMIUM_151_0_7922_34_LINUX'', ''chromium_151_0_7922_34_linux''),
     (''CHROMIUM_151_MAC'', ''chromium_151_0_0_0_mac''), (''CHROMIUM_151_WIN'', ''chromium_151_0_0_0_win''),
     (''CHROMIUM_153_0_8010_12_LINUX'', ''chromium_153_0_8010_12_linux''),
     (''CHROMIUM_153_MAC'', ''chromium_153_0_0_0_mac''), (''CHROMIUM_153_WIN'', ''chromium_153_0_0_0_win''),
     (''CHROMIUM_156_0_8078_4_LINUX'', ''chromium_156_0_8078_4_linux''),
     (''CHROMIUM_156_MAC'', ''chromium_156_0_0_0_mac''), (''CHROMIUM_156_WIN'', ''chromium_156_0_0_0_win''),
     (''EDGE_120'', ''edge_120_win''), (''EDGE_121'', ''edge_121_win''), (''EDGE_122'', ''edge_122_win''),
     (''FIREFOX_121'', ''firefox_121_win''), (''FIREFOX_122'', ''firefox_122_win''),
     (''FIREFOX_123'', ''firefox_123_win''), (''FIREFOX_124'', ''firefox_124_win''),
     (''FIREFOX_135_LINUX'', ''firefox_135_0_linux''), (''FIREFOX_146_LINUX'', ''firefox_146_0_linux''),
     (''FIREFOX_146_MAC'', ''firefox_146_0_mac''), (''FIREFOX_146_WIN'', ''firefox_146_0_win''),
     (''FIREFOX_148_LINUX'', ''firefox_148_0_linux''), (''FIREFOX_148_MAC'', ''firefox_148_0_mac''),
     (''FIREFOX_148_WIN'', ''firefox_148_0_win''), (''FIREFOX_150_LINUX'', ''firefox_150_0_linux''),
     (''FIREFOX_150_MAC'', ''firefox_150_0_mac''), (''FIREFOX_150_WIN'', ''firefox_150_0_win''),
     (''FIREFOX_151_LINUX'', ''firefox_151_0_linux''), (''FIREFOX_151_MAC'', ''firefox_151_0_mac''),
     (''FIREFOX_151_WIN'', ''firefox_151_0_win''), (''FIREFOX_153_LINUX'', ''firefox_153_0_linux''),
     (''FIREFOX_153_MAC'', ''firefox_153_0_mac''), (''FIREFOX_153_WIN'', ''firefox_153_0_win''),
     (''FIREFOX_155_LINUX'', ''firefox_155_0_linux''), (''FIREFOX_155_MAC'', ''firefox_155_0_mac''),
     (''FIREFOX_155_WIN'', ''firefox_155_0_win''), (''FIREFOX_157_LINUX'', ''firefox_157_0_linux''),
     (''FIREFOX_157_MAC'', ''firefox_157_0_mac''), (''FIREFOX_157_WIN'', ''firefox_157_0_win''),
     (''FIREFOX_LINUX'', ''firefox_linux''), (''EDGE_146_LINUX'', ''msedge_146_0_0_0_linux''),
     (''EDGE_146_MAC'', ''msedge_146_0_0_0_mac''), (''EDGE_146_WIN'', ''msedge_146_0_0_0_win''),
     (''EDGE_147_LINUX'', ''msedge_147_0_0_0_linux''), (''EDGE_147_MAC'', ''msedge_147_0_0_0_mac''),
     (''EDGE_147_WIN'', ''msedge_147_0_0_0_win''), (''EDGE_148_LINUX'', ''msedge_148_0_0_0_linux''),
     (''EDGE_148_MAC'', ''msedge_148_0_0_0_mac''), (''EDGE_148_WIN'', ''msedge_148_0_0_0_win''),
     (''EDGE_149_LINUX'', ''msedge_149_0_0_0_linux''), (''EDGE_149_MAC'', ''msedge_149_0_0_0_mac''),
     (''EDGE_149_WIN'', ''msedge_149_0_0_0_win''), (''EDGE_150_LINUX'', ''msedge_150_0_0_0_linux''),
     (''EDGE_150_MAC'', ''msedge_150_0_0_0_mac''), (''EDGE_150_WIN'', ''msedge_150_0_0_0_win''),
     (''EDGE_151_LINUX'', ''msedge_151_0_0_0_linux''), (''EDGE_151_MAC'', ''msedge_151_0_0_0_mac''),
     (''EDGE_151_WIN'', ''msedge_151_0_0_0_win''), (''EDGE_152_LINUX'', ''msedge_152_0_0_0_linux''),
     (''EDGE_152_MAC'', ''msedge_152_0_0_0_mac''), (''EDGE_152_WIN'', ''msedge_152_0_0_0_win''),
     (''EDGE_153_LINUX'', ''msedge_153_0_0_0_linux''), (''EDGE_153_MAC'', ''msedge_153_0_0_0_mac''),
     (''EDGE_153_WIN'', ''msedge_153_0_0_0_win''), (''EDGE_154_LINUX'', ''msedge_154_0_0_0_linux''),
     (''EDGE_154_MAC'', ''msedge_154_0_0_0_mac''), (''EDGE_154_WIN'', ''msedge_154_0_0_0_win''),
     (''EDGE_155_LINUX'', ''msedge_155_0_0_0_linux''), (''EDGE_155_MAC'', ''msedge_155_0_0_0_mac''),
     (''EDGE_155_WIN'', ''msedge_155_0_0_0_win''), (''EDGE_156_LINUX'', ''msedge_156_0_0_0_linux''),
     (''EDGE_156_MAC'', ''msedge_156_0_0_0_mac''), (''EDGE_156_WIN'', ''msedge_156_0_0_0_win''),
     (''OPERA_106'', ''opera_106_win''), (''SAFARI_17'', ''safari_17_mac''), (''SAFARI_26'', ''safari_26_0_mac''),
     (''SAFARI_26_4_LINUX'', ''safari_26_4_linux''), (''SAFARI_26_4_MAC'', ''safari_26_4_mac''),
     (''SAFARI_26_4_WIN'', ''safari_26_4_win''), (''SAFARI_26_LINUX'', ''safari_26_0_linux''),
     (''SAFARI_26_WIN'', ''safari_26_0_win''), (''SAFARI_26_5_LINUX'', ''safari_26_5_linux''),
     (''SAFARI_26_5_MAC'', ''safari_26_5_mac''), (''SAFARI_26_5_WIN'', ''safari_26_5_win''),
     (''SAFARI_26_6_LINUX'', ''safari_26_6_linux''), (''SAFARI_26_6_MAC'', ''safari_26_6_mac''),
     (''SAFARI_26_6_WIN'', ''safari_26_6_win''), (''SAFARI_27'', ''safari_27_2_mac''),
     (''SAFARI_27_2_LINUX'', ''safari_27_2_linux''), (''SAFARI_27_2_MAC'', ''safari_27_2_mac''),
     (''SAFARI_27_2_WIN'', ''safari_27_2_win''), (''SAFARI_IOS'', ''safari_ios''),
     (''SAMSUNG_BROWSER_23'', ''samsung_browser_23_android'')]"

definition exported_profiles :: "registry \<Rightarrow> (string \<times> TLSFingerprint) list" where
  "exported_profiles r = List.map_filter (\<lambda>(export_name, profile_name).
     map_option (Pair export_name) (get_or_none r profile_name)) profile_exports"

subsection \<open>Lemmas\<close>

definition canonical :: "TLSFingerprint \<Rightarrow> bool" where
  "canonical fp = (\<exists>a b c. fp_disable_grease fp = PBool a \<and> fp_force_http1 fp = PBool b \<and> fp_force_http3 fp = PBool c)"

definition registry_ok :: "registry \<Rightarrow> bool" where
  "registry_ok r = (distinct (dkeys r) \<and> (\<forall>(k, fp) \<in> set r. fp_name fp = k \<and> hashable k))"

lemma map_of_set_if [simp]: "map_of (set_if b k v d) x = (if b \<and> x = k then Some v else map_of d x)"
  by (simp add: set_if_def)

lemma map_of_fill [simp]:
  "map_of (fill b k v kw) x = (if b \<and> x = k \<and> map_of kw k = None then Some v else map_of kw x)"
  by (auto simp: fill_def)

lemma to_dict_lookup:
  "map_of (to_dict fp) ''name'' = Some (fp_name fp)" "map_of (to_dict fp) ''ja3'' = Some (fp_ja3 fp)"
  "map_of (to_dict fp) ''ja4r'' = (if fp_ja4r fp \<noteq> PNone then Some (fp_ja4r fp) else None)"
  "map_of (to_dict fp) ''http2_fingerprint'' =
     (if fp_http2_fingerprint fp \<noteq> PNone then Some (fp_http2_fingerprint fp) else None)"
  "map_of (to_dict fp) ''quic_fingerprint'' =
     (if fp_quic_fingerprint fp \<noteq> PNone then Some (fp_quic_fingerprint fp) else None)"
  "map_of (to_dict fp) ''user_agent'' = (if fp_user_agent fp \<noteq> PNone then Some (fp_user_agent fp) else None)"
  "map_of (to_dict fp) ''header_order'' = (if fp_header_order fp \<noteq> PNone then Some (fp_header_order fp) else None)"
  "map_of (to_dict fp) ''headers'' = (if fp_headers fp \<noteq> PNone then Some (fp_headers fp) else None)"
  "map_of (to_dict fp) ''disable_grease'' = (if py_truth (fp_disable_grease fp) then Some (PBool True) else None)"
  "map_of (to_dict fp) ''force_http1'' = (if py_truth (fp_force_http1 fp) then Some (PBool True) else None)"
  "map_of (to_dict fp) ''force_http3'' = (if py_truth (fp_force_http3 fp) then Some (PBool True) else None)"
  by (simp_all add: to_dict_def)

lemma from_dict_to_dict:
  assumes "canonical fp"
  shows "from_dict (to_dict fp) = Inr fp"
proof -
  obtain a b c where "fp_disable_grease fp = PBool a" "fp_force_http1 fp = PBool b" "fp_force_http3 fp = PBool c"
    using assms by (auto simp: canonical_def)
  then show ?thesis
    by (simp add: from_dict_def getitem_def dget_def dget_or_def to_dict_lookup)
qed

lemma mapE_from_dict: "\<forall>fp \<in> set fps. canonical fp \<Longrightarrow> mapE from_dict (map to_dict fps) = Inr fps"
  by (induction fps) (simp_all add: from_dict_to_dict)

lemma register_many_ok:
  "\<forall>p \<in> set ps. hashable (fp_name p) \<Longrightarrow>
   register_many r ps = (dupdate r (map (\<lambda>p. (fp_name p, p)) ps), Inr ())"
  by (induction ps arbitrary: r) (simp_all add: register_def)

lemma str_names_eq: "str_names r = Some items \<Longrightarrow> r = map (\<lambda>(s, fp). (PStr s, fp)) items"
  by (induction r arbitrary: items rule: str_names.induct) auto

lemma dict_items_map [simp]: "dict_items (map (\<lambda>x. PDict (f x)) xs) = map f xs"
  by (induction xs) auto

lemma filterE_total: "(\<And>x. x \<in> set xs \<Longrightarrow> f x = Inr (P x)) \<Longrightarrow> filterE f xs = Inr (filter P xs)"
  by (induction xs) auto

definition first_max :: "('a \<times> 'k :: linorder) list \<Rightarrow> 'a \<Rightarrow> bool" where
  "first_max xs x = (\<exists>pre k post. xs = pre @ (x, k) # post \<and>
     (\<forall>(_, m) \<in> set pre. m < k) \<and> (\<forall>(_, m) \<in> set post. m \<le> k))"

lemma first_maxI:
  "xs = pre @ (x, k) # post \<Longrightarrow> \<forall>(_, m) \<in> set pre. m < k \<Longrightarrow> \<forall>(_, m) \<in> set post. m \<le> k \<Longrightarrow> first_max xs x"
  unfolding first_max_def by metis

lemma max_by_first: "first_max ((y, l) # xs) (max_by (y, l) xs)"
proof (induction xs arbitrary: y l)
  case Nil
  show ?case by (rule first_maxI [of _ "[]" _ l "[]"]) simp_all
next
  case (Cons z xs)
  obtain w m where z: "z = (w, m)" by (cases z)
  show ?case
  proof (cases "m > l")
    case True
    obtain pre k post where IH: "(w, m) # xs = pre @ (max_by (w, m) xs, k) # post"
      "\<forall>(_, m) \<in> set pre. m < k" "\<forall>(_, m) \<in> set post. m \<le> k"
      using Cons.IH [of w m] by (auto simp: first_max_def)
    then have "m \<le> k" by (cases pre) auto
    moreover have "max_by (y, l) (z # xs) = max_by (w, m) xs" using True by (simp add: z)
    ultimately show ?thesis using True IH by (intro first_maxI [of _ "(y, l) # pre" _ k post]) (auto simp only: z append_Cons set_simps)
  next
    case False
    obtain pre k post where IH: "(y, l) # xs = pre @ (max_by (y, l) xs, k) # post"
      "\<forall>(_, m) \<in> set pre. m < k" "\<forall>(_, m) \<in> set post. m \<le> k"
      using Cons.IH [of y l] by (auto simp: first_max_def)
    show ?thesis
    proof (cases pre)
      case Nil
      with IH False show ?thesis by (intro first_maxI [of _ "[]" _ l "(w, m) # xs"]) (auto simp: z)
    next
      case (Cons p pre')
      with IH False show ?thesis by (intro first_maxI [of _ "(y, l) # (w, m) # pre'" _ k post]) (auto simp: z)
    qed
  qed
qed

lemma hashable_Str [simp]: "hashable (PStr s)" by simp

text \<open>What the filters of the lookup functions mean for a profile with a string as its name.\<close>

fun name_str :: "TLSFingerprint \<Rightarrow> string" where
  "name_str fp = (case fp_name fp of PStr s \<Rightarrow> s | _ \<Rightarrow> [])"

definition matches :: "BrowserFamily option \<Rightarrow> Platform option \<Rightarrow> TLSFingerprint \<Rightarrow> bool" where
  "matches family platform fp =
    ((case family of None \<Rightarrow> True | Some f \<Rightarrow> list_ex (startswith (name_str fp)) (family_prefixes f)) \<and>
     (case platform of None \<Rightarrow> True | Some p \<Rightarrow> endswith (name_str fp) (CHR ''_'' # platform_value p)))"

definition str_named :: "registry \<Rightarrow> bool" where
  "str_named r = (\<forall>fp \<in> set (dvals r). \<exists>s. fp_name fp = PStr s)"

lemma candidates_matches:
  assumes "str_named r"
  shows "candidates r family platform = Inr (filter (matches family platform) (dvals r))"
proof -
  have s: "\<exists>s. fp_name fp = PStr s" if "fp \<in> set (dvals r)" for fp using assms that unfolding str_named_def by blast
  have fam: "filterE (name_startswith (family_prefixes f)) (dvals r) =
      Inr (filter (\<lambda>fp. list_ex (startswith (name_str fp)) (family_prefixes f)) (dvals r))" for f
    by (rule filterE_total) (use s in fastforce)
  have plat: "filterE (name_endswith p) xs =
      Inr (filter (\<lambda>fp. endswith (name_str fp) (CHR ''_'' # platform_value p)) xs)" if "set xs \<subseteq> set (dvals r)" for p xs
    by (rule filterE_total) (use s that in fastforce)
  show ?thesis
    by (cases family; cases platform)
      (simp_all add: candidates_def by_family_def fam plat matches_def [abs_def] conj_commute)
qed

lemma first_max_map:
  assumes "first_max (map (\<lambda>x. (x, f x)) xs) y"
  shows "\<exists>pre post. xs = pre @ y # post \<and> (\<forall>x \<in> set pre. f x < f y) \<and> (\<forall>x \<in> set post. f x \<le> f y)"
proof -
  obtain pre k post where *: "map (\<lambda>x. (x, f x)) xs = pre @ (y, k) # post"
    "\<forall>(_, m) \<in> set pre. m < k" "\<forall>(_, m) \<in> set post. m \<le> k"
    using assms by (auto simp: first_max_def)
  obtain us v ws where xs: "xs = us @ v # ws" "map (\<lambda>x. (x, f x)) us = pre" "(v, f v) = (y, k)" "map (\<lambda>x. (x, f x)) ws = post"
    using *(1) by (auto simp: map_eq_append_conv map_eq_Cons_conv)
  with *(2,3) show ?thesis by (intro exI [of _ us] exI [of _ ws]) auto
qed

subsection \<open>Properties\<close>

text \<open>C27. \<^verbatim>\<open>latest\<close> finds a profile whenever the filters leave one, and returns the first profile, in
  registration order, among those with the highest version (the tuple of numbers in the name, compared
  lexicographically) of the profiles of the asked family and platform.\<close>

theorem latest_is_newest:
  assumes "str_named r" "\<exists>fp \<in> set (dvals r). matches family platform fp"
  shows "\<exists>fp pre post. latest r family platform = Inr fp \<and>
    filter (matches family platform) (dvals r) = pre @ fp # post \<and>
    (\<forall>c \<in> set pre. version_numbers (name_str c) < version_numbers (name_str fp)) \<and>
    (\<forall>c \<in> set post. version_numbers (name_str c) \<le> version_numbers (name_str fp))"
proof -
  define cs where "cs = filter (matches family platform) (dvals r)"
  let ?v = "\<lambda>fp. version_numbers (name_str fp)"
  have "\<exists>s. fp_name fp = PStr s" if "fp \<in> set cs" for fp
    using assms(1) that by (auto simp: str_named_def cs_def)
  then have keyed: "mapE (\<lambda>fp. bindE (version_tuple (fp_name fp)) (\<lambda>v. Inr (fp, v))) cs = Inr (map (\<lambda>fp. (fp, ?v fp)) cs)"
    by (intro mapE_all_Inr) fastforce
  obtain c cs' where cs: "cs = c # cs'" using assms(2) by (cases cs) (auto simp: cs_def filter_empty_conv)
  let ?m = "max_by (c, ?v c) (map (\<lambda>fp. (fp, ?v fp)) cs')"
  have "latest r family platform = Inr ?m"
    using keyed candidates_matches [OF assms(1)] by (simp add: latest_def cs_def [symmetric] cs)
  moreover have "first_max (map (\<lambda>fp. (fp, ?v fp)) cs) ?m" using max_by_first by (simp add: cs)
  ultimately show ?thesis using first_max_map [of ?v cs ?m] by (auto simp: cs_def)
qed

definition example_profile :: "string \<Rightarrow> TLSFingerprint" where
  "example_profile n = \<lparr>fp_name = PStr n, fp_ja3 = PStr ''771'', fp_ja4r = PNone, fp_http2_fingerprint = PNone,
     fp_quic_fingerprint = PNone, fp_user_agent = PNone, fp_header_order = PNone, fp_headers = PNone,
     fp_disable_grease = PBool False, fp_force_http1 = PBool False, fp_force_http3 = PBool True\<rparr>"

definition example_registry :: registry where
  "example_registry = [(PStr ''chrome_9'', example_profile ''chrome_9''),
     (PStr ''chrome_120_win'', example_profile ''chrome_120_win'')]"

theorem latest_is_newest_witness:
  "\<exists>fp. latest example_registry (Some CHROME) None = Inr fp \<and> fp_name fp = PStr ''chrome_120_win''"
proof -
  have ex_matches: "\<exists>fp \<in> set (dvals example_registry). matches (Some CHROME) None fp" by code_simp
  have "str_named example_registry" by (simp add: str_named_def example_registry_def example_profile_def)
  moreover have "filter (matches (Some CHROME) None) (dvals example_registry) =
      [example_profile ''chrome_9'', example_profile ''chrome_120_win'']" by code_simp
  moreover have "version_numbers ''chrome_9'' = [9]" "version_numbers ''chrome_120_win'' = [120]" by code_simp+
  ultimately obtain fp pre post where *: "latest example_registry (Some CHROME) None = Inr fp"
    "[example_profile ''chrome_9'', example_profile ''chrome_120_win''] = pre @ fp # post"
    "\<forall>c \<in> set post. version_numbers (name_str c) \<le> version_numbers (name_str fp)"
    using latest_is_newest [of example_registry "Some CHROME" None] by (metis ex_matches)
  have n: "fp_name (example_profile n) = PStr n" for n by (simp add: example_profile_def)
  from * have "fp = example_profile ''chrome_120_win''"
    using \<open>version_numbers ''chrome_9'' = [9]\<close> \<open>version_numbers ''chrome_120_win'' = [120]\<close>
    by (cases pre) (auto simp: n Cons_eq_append_conv)
  with *(1) show ?thesis by (simp add: example_profile_def)
qed

text \<open>C19. Saving the registry and loading the file back, into any registry that is cleared first, gives the same
  profiles under the same names, field by field, and registers them in the order of their names.\<close>

theorem registry_save_load_roundtrip:
  assumes "registry_ok r" "\<forall>fp \<in> set (dvals r). canonical fp" "save_to_file r = Inr f"
  shows "\<exists>r' loaded. load_from_file r0 path (Inr f) True = (r', Inr loaded) \<and>
    map_of r' = map_of r \<and> sorted (map name_str loaded)"
proof -
  obtain items where items: "str_names r = Some items" and f: "f = PDict [
      (''schema'', PStr ''cycletls_fingerprint_registry/v1''),
      (''fingerprints'', PList (map (\<lambda>(_, fp). PDict (to_dict fp)) (sort_key fst items)))]"
    using assms(3) by (auto simp: save_to_file_def split: option.splits)
  let ?fps = "map snd (sort_key fst items)" and ?xs = "map (\<lambda>(s, fp). (PStr s, fp)) (sort_key fst items)"
  note r = str_names_eq [OF items]
  have names: "fp_name fp = PStr s" if "(s, fp) \<in> set items" for s fp
    using assms(1) that unfolding registry_ok_def r by auto
  have canon: "canonical fp" if "fp \<in> set ?fps" for fp using assms(2) that unfolding r by force
  have keyed: "map (\<lambda>p. (fp_name p, p)) ?fps = ?xs"
    using names by (auto simp: comp_def)
  have raw: "raw_items f = Some (map to_dict ?fps)"
    using dict_items_map [of to_dict ?fps] by (simp add: f dget_def dget_or_def comp_def split_def)
  have all: "filter (\<lambda>d. dhas d ''name'' \<and> dhas d ''ja3'') (map to_dict ?fps) = map to_dict ?fps"
    by (simp add: filter_id_conv to_dict_lookup)
  have loaded: "mapE from_dict (map to_dict ?fps) = Inr ?fps"
    using canon by (intro mapE_from_dict) blast
  have "\<forall>p \<in> set ?fps. hashable (fp_name p)" using names by force
  from register_many_ok [OF this, of "[]"] have "register_many [] ?fps = (dupdate [] ?xs, Inr ())"
    unfolding keyed .
  then have "load_from_file r0 path (Inr f) True = (dupdate [] ?xs, Inr ?fps)"
    unfolding load_from_file_def sum.case raw option.case all loaded by (simp add: registry_clear_def)
  moreover have "map_of (dupdate [] ?xs) = map_of r"
  proof -
    have "distinct (dkeys items)" using assms(1) unfolding registry_ok_def r
      by (auto simp: distinct_map inj_on_def split_def)
    then have d: "distinct (dkeys ?xs)" by (auto simp: distinct_map inj_on_def split_def)
    have "set ?xs = set r" unfolding r by simp
    then have "map_of ?xs = map_of r"
      using map_of_inject_set [OF d] assms(1) by (simp add: registry_ok_def)
    with d show ?thesis by (simp add: map_of_dupdate_distinct)
  qed
  moreover have "map name_str ?fps = map fst (sort_key fst items)" using names by (auto simp: comp_def)
  ultimately show ?thesis by (metis sorted_sort_key)
qed

theorem registry_save_load_roundtrip_witness:
  "\<exists>f r' loaded. save_to_file example_registry = Inr f \<and>
     load_from_file [] ''f.json'' (Inr f) True = (r', Inr loaded) \<and> map_of r' = map_of example_registry"
proof -
  obtain f where f: "save_to_file example_registry = Inr f"
    by (simp add: save_to_file_def example_registry_def)
  have "registry_ok example_registry" "\<forall>fp \<in> set (dvals example_registry). canonical fp"
    by (auto simp: registry_ok_def canonical_def example_registry_def example_profile_def)
  from registry_save_load_roundtrip [OF this f, of "[]" "''f.json''"] f show ?thesis by metis
qed

text \<open>Where the computed headers are added, no header that is present changes.\<close>

lemma add_missing_keeps:
  assumes "add_missing (PDict d) hs = Inr h" "map_of d x = Some v"
  shows "\<exists>d'. h = PDict d' \<and> map_of d' x = Some v"
  using assms
proof (induction hs arbitrary: d)
  case (Cons kv hs)
  obtain k w where kv: "kv = (k, w)" by (cases kv)
  show ?case
  proof (cases "map_of d k")
    case None
    with Cons.prems have "add_missing (PDict (dset d k w)) hs = Inr h" "map_of (dset d k w) x = Some v"
      by (auto simp: kv)
    then show ?thesis by (rule Cons.IH)
  next
    case (Some y)
    with Cons show ?thesis by (simp add: kv)
  qed
qed auto

definition filled :: "TLSFingerprint \<Rightarrow> kwargs \<Rightarrow> kwargs" where
  "filled fp kw0 =
    (let kw = fill True ''ja3'' (fp_ja3 fp) kw0;
         kw = fill (fp_ja4r fp \<noteq> PNone) ''ja4r'' (fp_ja4r fp) kw;
         kw = fill (fp_http2_fingerprint fp \<noteq> PNone) ''http2_fingerprint'' (fp_http2_fingerprint fp) kw;
         kw = fill (fp_quic_fingerprint fp \<noteq> PNone) ''quic_fingerprint'' (fp_quic_fingerprint fp) kw;
         kw = fill (fp_user_agent fp \<noteq> PNone) ''user_agent'' (fp_user_agent fp) kw
     in fill (fp_header_order fp \<noteq> PNone) ''header_order'' (fp_header_order fp) kw)"

definition flagged :: "TLSFingerprint \<Rightarrow> kwargs \<Rightarrow> kwargs" where
  "flagged fp kw0 =
    (let kw = fill (py_truth (fp_disable_grease fp)) ''disable_grease'' (PBool True) kw0;
         kw = fill (py_truth (fp_force_http1 fp)) ''force_http1'' (PBool True) kw
     in fill (py_truth (fp_force_http3 fp)) ''force_http3'' (PBool True) kw)"

text \<open>Success of \<^verbatim>\<open>apply_to_kwargs\<close>: only the headers are touched between the two groups of options.\<close>

lemma apply_to_kwargs_cases:
  assumes "apply_to_kwargs fp kw = Inr kw'"
  obtains kw1 kw2 where
    "kw1 = filled fp kw \<and> fp_headers fp = PNone \<or>
       (\<exists>m. merge_mappings (fp_headers fp) (py_or (dget (filled fp kw) ''headers'') (PDict [])) = Inr m \<and>
            kw1 = dset (filled fp kw) ''headers'' m)"
    "kw2 = kw1 \<or> (\<exists>d h. add_missing (py_or (dget kw1 ''headers'') (PDict [])) d = Inr h \<and> kw2 = dset kw1 ''headers'' h)"
    "kw' = flagged fp kw2"
  using assms unfolding apply_to_kwargs_def Let_def bindE_eq_Inr filled_def [unfolded Let_def, symmetric]
    flagged_def [unfolded Let_def, symmetric]
  by (elim exE conjE) (auto split: if_splits option.splits)

lemma filled_headers [simp]: "map_of (filled fp kw) ''headers'' = map_of kw ''headers''"
  by (simp add: filled_def)

lemma flagged_headers [simp]: "map_of (flagged fp kw) ''headers'' = map_of kw ''headers''"
  by (simp add: flagged_def)

lemma flagged_filled_lookup:
  assumes "\<And>x. x \<noteq> ''headers'' \<Longrightarrow> map_of kw2 x = map_of (filled fp kw) x" "k \<noteq> ''headers''" "k \<noteq> ''name''"
  shows "map_of (flagged fp kw2) k = (case map_of kw k of Some v \<Rightarrow> Some v | None \<Rightarrow> map_of (to_dict fp) k)"
  using assms by (simp add: flagged_def filled_def to_dict_def split: option.split)

text \<open>C29. Options given with the request win over the profile: after \<^verbatim>\<open>apply_to_kwargs\<close> every option other
  than the headers has the request's value if the request has one and otherwise the value the profile's
  \<^verbatim>\<open>to_dict\<close> lists, and every header of the request keeps its value among the profile's headers and the
  computed client hints.\<close>

theorem apply_to_kwargs_precedence:
  assumes "apply_to_kwargs fp kw = Inr kw'"
  shows "(k \<noteq> ''headers'' \<longrightarrow> k \<noteq> ''name'' \<longrightarrow>
      map_of kw' k = (case map_of kw k of Some v \<Rightarrow> Some v | None \<Rightarrow> map_of (to_dict fp) k)) \<and>
    (map_of kw ''headers'' = Some (PDict d) \<longrightarrow> distinct (dkeys d) \<longrightarrow> map_of d x = Some v \<longrightarrow>
      (\<exists>d'. map_of kw' ''headers'' = Some (PDict d') \<and> map_of d' x = Some v))"
proof -
  from assms obtain kw1 kw2 where
    1: "kw1 = filled fp kw \<and> fp_headers fp = PNone \<or>
       (\<exists>m. merge_mappings (fp_headers fp) (py_or (dget (filled fp kw) ''headers'') (PDict [])) = Inr m \<and>
            kw1 = dset (filled fp kw) ''headers'' m)"
    and 2: "kw2 = kw1 \<or> (\<exists>d h. add_missing (py_or (dget kw1 ''headers'') (PDict [])) d = Inr h \<and>
            kw2 = dset kw1 ''headers'' h)"
    and 3: "kw' = flagged fp kw2"
    by (rule apply_to_kwargs_cases)
  have other: "map_of kw2 y = map_of (filled fp kw) y" if "y \<noteq> ''headers''" for y
    using 1 2 that by (auto simp del: bindE_eq_Inr)
  have "\<exists>d'. map_of kw' ''headers'' = Some (PDict d') \<and> map_of d' x = Some v"
    if d: "map_of kw ''headers'' = Some (PDict d)" "distinct (dkeys d)" "map_of d x = Some v"
  proof -
    have ne: "d \<noteq> []" using d(3) by auto
    have h0: "dget (filled fp kw) ''headers'' = PDict d" using d(1) by (simp add: dget_def)
    obtain d1 where d1: "map_of kw1 ''headers'' = Some (PDict d1)" "map_of d1 x = Some v"
    proof (cases "kw1 = filled fp kw")
      case True
      then show ?thesis using that d by simp
    next
      case False
      with 1 obtain m where m: "merge_mappings (fp_headers fp) (PDict d) = Inr m" "kw1 = dset (filled fp kw) ''headers'' m"
        using h0 ne by auto
      from m(1) obtain a where "m = PDict (dupdate a d)" by (cases "fp_headers fp") auto
      with m(2) d(2,3) that show ?thesis by (simp add: map_of_dupdate_distinct)
    qed
    have "d1 \<noteq> []" using d1(2) by auto
    then have "py_or (dget kw1 ''headers'') (PDict []) = PDict d1" using d1(1) by simp
    with 2 d1 add_missing_keeps [of d1 _ _ x v] show ?thesis by (auto simp: 3)
  qed
  then show ?thesis using flagged_filled_lookup [OF other] by (simp add: 3)
qed

definition android_ua :: string where
  "android_ua = ''Mozilla/5.0 (Linux; Android 14; Pixel 8) AppleWebKit/537.36 (KHTML, like Gecko) Chrome/120.0.6099.43 Mobile Safari/537.36''"

definition android_profile :: TLSFingerprint where
  "android_profile = (example_profile ''chrome_android'')\<lparr>fp_user_agent := PStr android_ua,
     fp_header_order := PList [PStr ''sec-ch-ua'', PStr ''sec-ch-ua-mobile'', PStr ''sec-ch-ua-platform'']\<rparr>"

theorem apply_to_kwargs_precedence_witness:
  "\<exists>kw'. apply_to_kwargs android_profile [(''ja3'', PStr ''mine''), (''headers'', PDict [(''sec-ch-ua'', PStr ''own'')])] = Inr kw' \<and>
     map_of kw' ''ja3'' = Some (PStr ''mine'') \<and>
     (\<exists>d'. map_of kw' ''headers'' = Some (PDict d') \<and> map_of d' ''sec-ch-ua'' = Some (PStr ''own''))"
proof -
  let ?kw = "[(''ja3'', PStr ''mine''), (''headers'', PDict [(''sec-ch-ua'', PStr ''own'')])]"
  have "\<not> Sum_Type.isl (apply_to_kwargs android_profile ?kw)" by code_simp
  then obtain kw' where kw': "apply_to_kwargs android_profile ?kw = Inr kw'" by (cases "apply_to_kwargs android_profile ?kw") auto
  from apply_to_kwargs_precedence [OF this, of "''ja3''" "[(''sec-ch-ua'', PStr ''own'')]" "''sec-ch-ua''" "PStr ''own''"] kw'
  show ?thesis by simp
qed

text \<open>The platform hint is computed from the first word that occurs in the user agent, and \<^verbatim>\<open>Linux\<close> is tried
  before \<^verbatim>\<open>Android\<close>: since the user agent of an Android browser contains both, it is sent with the mobile hint
  \<^verbatim>\<open>?1\<close> but with the platform hint \<^verbatim>\<open>"Linux"\<close>.\<close>

theorem android_hint_is_linux:
  assumes "dynamic_sec_ch_ua fp = Inr (Some d)" "fp_user_agent fp = PStr ua"
    "contains ua ''Android''" "contains ua ''Linux''"
  shows "(dhas d ''sec-ch-ua-platform'' \<longrightarrow> map_of d ''sec-ch-ua-platform'' = Some (PStr (quoted ''Linux''))) \<and>
    (dhas d ''sec-ch-ua-mobile'' \<longrightarrow> map_of d ''sec-ch-ua-mobile'' = Some (PStr ''?1''))"
proof -
  have "ua_platform ua = ''Linux''" using assms(4) by (simp add: ua_platform_def)
  with assms(1,2,3) show ?thesis
    by (auto simp: dynamic_sec_ch_ua_def Let_def split: if_splits option.splits)
qed

theorem android_hint_is_linux_witness:
  "\<exists>d. dynamic_sec_ch_ua android_profile = Inr (Some d) \<and>
     map_of d ''sec-ch-ua-platform'' = Some (PStr (quoted ''Linux''))"
proof -
  let ?d = "case dynamic_sec_ch_ua android_profile of Inr (Some d) \<Rightarrow> d | _ \<Rightarrow> []"
  have d: "dynamic_sec_ch_ua android_profile = Inr (Some ?d)" "dhas ?d ''sec-ch-ua-platform''" by code_simp+
  have ua: "fp_user_agent android_profile = PStr android_ua" by (simp add: android_profile_def)
  have "contains android_ua ''Android''" "contains android_ua ''Linux''" by code_simp+
  from android_hint_is_linux [OF d(1) ua this] d show ?thesis by metis
qed

end
