(* ===== verification/Effects.thy ===== *)
theory Effects
  imports Exceptions
begin

section \<open>Stateful computations that may raise\<close>

text \<open>
  Code that changes state and may raise is a function from the state to the state it leaves behind and its result.
  An exception keeps the state reached when it was raised. \<open>bindX\<close> is sequencing, \<open>tryX\<close> an
  \<^verbatim>\<open>except\<close> clause with the test of its class, \<open>finallyX\<close> a \<^verbatim>\<open>finally\<close> clause (which in the modelled
  code never raises).

  \<open>keeps R m\<close> says that \<open>m\<close> relates the state before and after by \<open>R\<close>, whether it returns or raises; the locale
  \<open>state_relation\<close> gives the rules to prove it along the structure of the code, and is interpreted for the
  resources of the native library.
\<close>

named_theorems eff_simps "unfolding of stateful computations"

type_synonym ('s, 'a) eff = "'s \<Rightarrow> 's \<times> 'a res"

definition retX :: "'a \<Rightarrow> ('s, 'a) eff" where
  "retX x = (\<lambda>s. (s, Inr x))"

definition raiseX :: "pyexc \<Rightarrow> ('s, 'a) eff" where
  "raiseX e = (\<lambda>s. (s, Inl e))"

definition liftX :: "'a res \<Rightarrow> ('s, 'a) eff" where
  "liftX r = (\<lambda>s. (s, r))"

definition readX :: "('s \<Rightarrow> 'a) \<Rightarrow> ('s, 'a) eff" where
  "readX f = (\<lambda>s. (s, Inr (f s)))"

definition updX :: "('s \<Rightarrow> 's) \<Rightarrow> ('s, unit) eff" where
  "updX f = (\<lambda>s. (f s, Inr ()))"

definition bindX :: "('s, 'a) eff \<Rightarrow> ('a \<Rightarrow> ('s, 'b) eff) \<Rightarrow> ('s, 'b) eff" where
  "bindX m f = (\<lambda>s. case m s of (s', Inl e) \<Rightarrow> (s', Inl e) | (s', Inr x) \<Rightarrow> f x s')"

definition thenX :: "('s, 'a) eff \<Rightarrow> ('s, 'b) eff \<Rightarrow> ('s, 'b) eff" where
  "thenX m n = bindX m (\<lambda>_. n)"

definition tryX :: "('s, 'a) eff \<Rightarrow> exc_class \<Rightarrow> (pyexc \<Rightarrow> ('s, 'a) eff) \<Rightarrow> ('s, 'a) eff" where
  "tryX m c h = (\<lambda>s. case m s of (s', Inl e) \<Rightarrow> if isinstance_exc e c then h e s' else (s', Inl e) | r \<Rightarrow> r)"

definition finallyX :: "('s, 'a) eff \<Rightarrow> ('s \<Rightarrow> 's) \<Rightarrow> ('s, 'a) eff" where
  "finallyX m f = (\<lambda>s. case m s of (s', r) \<Rightarrow> (f s', r))"

lemmas eff_defs = retX_def raiseX_def liftX_def readX_def updX_def bindX_def thenX_def tryX_def finallyX_def

lemma eff_apply [eff_simps]:
  "retX x s = (s, Inr x)" "raiseX e s = (s, Inl e)" "liftX r s = (s, r)" "readX f s = (s, Inr (f s))"
  "updX u s = (u s, Inr ())"
  by (simp_all add: eff_defs)

lemma bindX_Inr [eff_simps]: "m s = (s', Inr x) \<Longrightarrow> bindX m f s = f x s'"
  and bindX_Inl [eff_simps]: "m s = (s', Inl e) \<Longrightarrow> bindX m f s = (s', Inl e)"
  and thenX_Inr [eff_simps]: "m s = (s', Inr x) \<Longrightarrow> thenX m n s = n s'"
  and thenX_Inl [eff_simps]: "m s = (s', Inl e) \<Longrightarrow> thenX m n s = (s', Inl e)"
  and finallyX_apply [eff_simps]: "m s = (s', r) \<Longrightarrow> finallyX m u s = (u s', r)"
  and tryX_Inr [eff_simps]: "m s = (s', Inr x) \<Longrightarrow> tryX m c h s = (s', Inr x)"
  and tryX_Inl [eff_simps]: "m s = (s', Inl e) \<Longrightarrow> tryX m c h s = (if isinstance_exc e c then h e s' else (s', Inl e))"
  by (simp_all add: eff_defs)

lemma bindX_cases:
  assumes "bindX m f s = (s', r)"
  obtains (raised) e where "m s = (s', Inl e)" "r = Inl e"
  | (returned) x s1 where "m s = (s1, Inr x)" "f x s1 = (s', r)"
  using assms by (auto simp: bindX_def split: prod.splits sum.splits)

lemma bindX_InrE:
  assumes "bindX m f s = (s', Inr y)"
  obtains s1 x where "m s = (s1, Inr x)" "f x s1 = (s', Inr y)"
  using assms by (rule bindX_cases) auto

definition keeps :: "('s \<Rightarrow> 's \<Rightarrow> bool) \<Rightarrow> ('s, 'a) eff \<Rightarrow> bool" where
  "keeps R m = (\<forall>s. R s (fst (m s)))"

locale state_relation =
  fixes R :: "'s \<Rightarrow> 's \<Rightarrow> bool"
  assumes refl: "R s s"
    and trans: "R s t \<Longrightarrow> R t u \<Longrightarrow> R s u"
begin

lemma keeps_pure: "keeps R (retX x)" "keeps R (raiseX e)" "keeps R (liftX r)" "keeps R (readX f)"
  by (simp_all add: keeps_def eff_defs refl)

lemma keeps_upd: "(\<And>s. R s (u s)) \<Longrightarrow> keeps R (updX u)"
  by (simp add: keeps_def eff_defs)

lemma keeps_bind: "keeps R m \<Longrightarrow> (\<And>x. keeps R (f x)) \<Longrightarrow> keeps R (bindX m f)"
  unfolding keeps_def bindX_def by (auto split: prod.split sum.split) (metis fst_conv trans)+

lemma keeps_then: "keeps R m \<Longrightarrow> keeps R n \<Longrightarrow> keeps R (thenX m n)"
  by (simp add: thenX_def keeps_bind)

lemma keeps_try: "keeps R m \<Longrightarrow> (\<And>e. keeps R (h e)) \<Longrightarrow> keeps R (tryX m c h)"
  unfolding keeps_def tryX_def by (auto split: prod.split sum.split) (metis fst_conv trans)+

lemma keeps_finally: "keeps R m \<Longrightarrow> (\<And>s. R s (u s)) \<Longrightarrow> keeps R (finallyX m u)"
  unfolding keeps_def finallyX_def by (auto split: prod.split) (metis fst_conv trans)+

lemma keeps_if: "(b \<Longrightarrow> keeps R m) \<Longrightarrow> (\<not> b \<Longrightarrow> keeps R n) \<Longrightarrow> keeps R (if b then m else n)"
  by simp

lemma keeps_option: "(x = None \<Longrightarrow> keeps R m) \<Longrightarrow> (\<And>y. x = Some y \<Longrightarrow> keeps R (f y)) \<Longrightarrow>
    keeps R (case x of None \<Rightarrow> m | Some y \<Rightarrow> f y)"
  by (cases x) simp_all

lemmas keeps_rules = keeps_pure keeps_upd keeps_bind keeps_then keeps_try keeps_finally keeps_if keeps_option

lemma keepsD: "keeps R m \<Longrightarrow> m s = (s', r) \<Longrightarrow> R s s'"
  by (metis fst_conv keeps_def)

end

subsection \<open>Components of a state\<close>

text \<open>An object and the library: a computation on the library, and access to the object's fields.\<close>

definition onSnd :: "('t, 'a) eff \<Rightarrow> ('c \<times> 't, 'a) eff" where
  "onSnd m = (\<lambda>(c, t). case m t of (t', r) \<Rightarrow> ((c, t'), r))"

definition onFst :: "('c \<Rightarrow> 'c) \<Rightarrow> ('c \<times> 't, unit) eff" where
  "onFst u = updX (\<lambda>(c, t). (u c, t))"

definition readFst :: "('c \<Rightarrow> 'a) \<Rightarrow> ('c \<times> 't, 'a) eff" where
  "readFst f = readX (\<lambda>(c, t). f c)"

lemma onSnd_apply [eff_simps]: "m t = (t', r) \<Longrightarrow> onSnd m (c, t) = ((c, t'), r)"
  and onFst_apply [eff_simps]: "onFst u (c, t) = ((u c, t), Inr ())"
  and readFst_apply [eff_simps]: "readFst f (c, t) = ((c, t), Inr (f c))"
  by (simp_all add: onSnd_def onFst_def readFst_def eff_defs)

lemma onSnd_bind_cases:
  assumes "bindX (onSnd m) k (c, f) = (s', r)"
  obtains e f1 where "s' = (c, f1)" "r = Inl e" | x f1 where "m f = (f1, Inr x)" "k x (c, f1) = (s', r)"
proof -
  obtain f1 r1 where m: "m f = (f1, r1)" by (cases "m f")
  show ?thesis
  proof (cases r1)
    case (Inl e)
    with assms m that(1) show ?thesis by (auto simp: bindX_def onSnd_def)
  next
    case (Inr x)
    with assms m that(2) show ?thesis by (simp add: bindX_def onSnd_def)
  qed
qed

text \<open>Two relations, one per component.\<close>

definition pair_rel :: "('c \<Rightarrow> 'c \<Rightarrow> bool) \<Rightarrow> ('t \<Rightarrow> 't \<Rightarrow> bool) \<Rightarrow> 'c \<times> 't \<Rightarrow> 'c \<times> 't \<Rightarrow> bool" where
  "pair_rel P Q = (\<lambda>(c, t) (c', t'). P c c' \<and> Q t t')"

lemma keeps_onSnd: "(\<And>c. P c c) \<Longrightarrow> keeps Q m \<Longrightarrow> keeps (pair_rel P Q) (onSnd m)"
  by (auto simp: keeps_def onSnd_def pair_rel_def split: prod.split) (metis fst_conv)

lemma keeps_onFst: "(\<And>c. P c (u c)) \<Longrightarrow> (\<And>t. Q t t) \<Longrightarrow> keeps (pair_rel P Q) (onFst u)"
  by (auto simp: keeps_def onFst_def updX_def pair_rel_def)

lemma keeps_readFst: "(\<And>c. P c c) \<Longrightarrow> (\<And>t. Q t t) \<Longrightarrow> keeps (pair_rel P Q) (readFst f)"
  by (auto simp: keeps_def readFst_def readX_def pair_rel_def)

subsection \<open>Objects with a \<^verbatim>\<open>close\<close> method\<close>

locale closable =
  fixes active :: "'s \<Rightarrow> bool"
    and close :: "('s, unit) eff"
  assumes inactive_close: "\<not> active s \<Longrightarrow> close s = (s, Inr ())"
    and close_inactive: "close s = (s', Inr ()) \<Longrightarrow> \<not> active s'"
begin

lemma close_twice: "close s = (s', Inr ()) \<Longrightarrow> thenX close close s = (s', Inr ())"
  using inactive_close [OF close_inactive] by (simp add: eff_defs)

text \<open>A \<^verbatim>\<open>with\<close> block closes the object whether its body returns or raises.\<close>

definition with_block :: "('s, 'a) eff \<Rightarrow> ('s, 'b) eff \<Rightarrow> ('s, 'b) eff" where
  "with_block enter body = thenX enter (\<lambda>s. case body s of
     (s1, r) \<Rightarrow> (case close s1 of (s2, Inl e) \<Rightarrow> (s2, Inl e) | (s2, Inr _) \<Rightarrow> (s2, r)))"

lemma with_block_closes:
  assumes "enter s = (s0, Inr x)" "with_block enter body s = (s', r)" "\<And>t. \<exists>t'. close t = (t', Inr ())"
  shows "\<not> active s'"
proof -
  obtain s1 r1 where b: "body s0 = (s1, r1)" by (cases "body s0")
  obtain s2 where c: "close s1 = (s2, Inr ())" using assms(3) by blast
  from assms(1,2) b c have "s' = s2" by (simp add: with_block_def thenX_def bindX_def)
  with close_inactive [OF c] show ?thesis by simp
qed

end

end
