(* ===== verification/FFI.thy ===== *)
theory FFI
  imports Codec Effects Pyval
begin

section \<open>The native library (\<^verbatim>\<open>cycletls/_ffi.py\<close>)\<close>

text \<open>
  The Go shared library, the operating system, the clock and the msgpack package are not Python code of this
  package: they are the fields of \<open>ffi_world\<close>, an argument of every operation. What they answer may depend on
  everything that happened before: each answer is a function of the number of external actions so far.

  \<open>ffi_state\<close> has the module's globals (\<^verbatim>\<open>_lib\<close> by the path it was loaded from, the three cached feature
  flags) and the resources the process holds: \<open>heap\<close> is the memory the library returned and that was not yet
  given back with \<^verbatim>\<open>freeString\<close>, \<open>fds\<close> the open pipe ends, \<open>history\<close> the external actions. C memory is a list
  of characters. \<open>violations\<close> counts the reads and the releases of memory that is not in the heap, so that a
  theorem can say there are none. The coroutines are run up to their next \<^verbatim>\<open>await\<close> by
  \<open>resume\<close>; \<open>gather\<close> runs several of them in the order of an arbitrary schedule.
  Times are integers in an arbitrary unit.
\<close>

datatype gocall =
    GetRequest string
  | GetRequestZeroCopy string nat
  | SubmitRequestAsync string
  | CheckRequestAsync int
  | SendBatchRequest string
  | SendBatchRequestZeroCopy string nat
  | SubmitRequestAsyncWithNotify string nat nat
  | GetAsyncResult int
  | SubmitRequestAsyncZeroCopy string nat
  | GetAsyncResultZeroCopy int
  | WsConnect string | WsSend int int string nat | WsReceive int | WsClose int
  | SseConnect string | SseNextEvent int | SseClose int
  | FreeString nat
  | Clock | Sleep int | Pipe | AwaitPipe int | ClosePipe nat

fun symbol_of :: "gocall \<Rightarrow> string" where
  "symbol_of (GetRequest _) = ''getRequest''"
| "symbol_of (GetRequestZeroCopy _ _) = ''getRequestZeroCopy''"
| "symbol_of (SubmitRequestAsync _) = ''submitRequestAsync''"
| "symbol_of (CheckRequestAsync _) = ''checkRequestAsync''"
| "symbol_of (SendBatchRequest _) = ''sendBatchRequest''"
| "symbol_of (SendBatchRequestZeroCopy _ _) = ''sendBatchRequestZeroCopy''"
| "symbol_of (SubmitRequestAsyncWithNotify _ _ _) = ''submitRequestAsyncWithNotify''"
| "symbol_of (GetAsyncResult _) = ''getAsyncResult''"
| "symbol_of (SubmitRequestAsyncZeroCopy _ _) = ''submitRequestAsyncZeroCopy''"
| "symbol_of (GetAsyncResultZeroCopy _) = ''getAsyncResultZeroCopy''"
| "symbol_of (WsConnect _) = ''wsConnect''" | "symbol_of (WsSend _ _ _ _) = ''wsSend''"
| "symbol_of (WsReceive _) = ''wsReceive''" | "symbol_of (WsClose _) = ''wsClose''"
| "symbol_of (SseConnect _) = ''sseConnect''" | "symbol_of (SseNextEvent _) = ''sseNextEvent''"
| "symbol_of (SseClose _) = ''sseClose''" | "symbol_of (FreeString _) = ''freeString''"
| "symbol_of _ = []"

record ffi_world =
  w_lib_path :: "string option"
  w_system :: string
  w_machine :: string
  w_package_dir :: string
  w_exists :: "string \<Rightarrow> bool"
  w_dlopen :: "string \<Rightarrow> unit res"
  w_symbols :: "string \<Rightarrow> string list"
  w_packb :: "pyval \<Rightarrow> bytes res"
  w_unpackb :: "bytes \<Rightarrow> pyval res"
  w_ptr :: "nat \<Rightarrow> gocall \<Rightarrow> (string \<times> nat) option"
  w_num :: "nat \<Rightarrow> gocall \<Rightarrow> int"

record ffi_state =
  lib :: "string option"
  use_zerocopy :: "bool option"
  use_callback :: "bool option"
  use_async_zerocopy :: "bool option"
  heap :: "(nat \<times> string) list"
  fds :: "nat list"
  violations :: nat
  history :: "gocall list"

type_synonym 'a ffi = "(ffi_state, 'a) eff"

definition initial_ffi :: ffi_state where
  "initial_ffi = \<lparr>lib = None, use_zerocopy = None, use_callback = None, use_async_zerocopy = None,
     heap = [], fds = [], violations = 0, history = []\<rparr>"

definition cycletls_error :: "string \<Rightarrow> pyexc" where
  "cycletls_error msg = Exc CycleTLSError msg"

text \<open>An access to memory that was released; what it yields is irrelevant.\<close>

definition violate :: "ffi_state \<Rightarrow> ffi_state" where
  "violate s = s\<lparr>violations := Suc (violations s)\<rparr>"

subsection \<open>Loading the library\<close>

definition get_library_filenames :: "ffi_world \<Rightarrow> string list" where
  "get_library_filenames w =
    (let machine = lower (w_machine w);
         arch = (if machine \<in> set [''x86_64'', ''amd64''] then ''x64''
                 else if machine \<in> set [''aarch64'', ''arm64''] then ''arm64'' else machine)
     in if w_system w = ''Windows'' then [''cycletls-win-'' @ arch @ ''.dll'', ''cycletls.dll'']
        else if w_system w = ''Darwin'' then [''libcycletls-darwin-'' @ arch @ ''.dylib'', ''libcycletls.dylib'']
        else [''libcycletls-linux-'' @ arch @ ''.so'', ''libcycletls.so''])"

definition path_join :: "string \<Rightarrow> string \<Rightarrow> string" where
  "path_join a b = (if a = [] \<or> endswith a ''/'' then a @ b else a @ ''/'' @ b)"

definition parent_dir :: "string \<Rightarrow> string" where
  "parent_dir p = (let q = rev (drop 1 (dropWhile (\<lambda>c. c \<noteq> CHR ''/'') (rev p))) in if q = [] then ''/'' else q)"

definition iter_library_candidates :: "ffi_world \<Rightarrow> string list" where
  "iter_library_candidates w =
     (case w_lib_path w of Some p \<Rightarrow> if p \<noteq> [] then [p] else [] | None \<Rightarrow> []) @
     concat (map (\<lambda>filename.
       [path_join (path_join (w_package_dir w) ''dist'') filename,
        path_join (w_package_dir w) filename,
        path_join (path_join (parent_dir (w_package_dir w)) ''dist'') filename])
       (get_library_filenames w))"

definition library_not_found :: pyexc where
  "library_not_found = cycletls_error (''CycleTLS shared library not found. Set CYCLETLS_LIB_PATH or build the '' @
     ''Go library using 'go build -buildmode=c-shared'.'')"

definition load_library :: "ffi_world \<Rightarrow> string ffi" where
  "load_library w = bindX (readX lib) (\<lambda>l. case l of
     Some path \<Rightarrow> retX path
   | None \<Rightarrow> (case find (\<lambda>c. c \<noteq> [] \<and> w_exists w c) (iter_library_candidates w) of
       Some candidate \<Rightarrow> thenX (liftX (w_dlopen w candidate))
         (thenX (updX (\<lambda>s. s\<lparr>lib := Some candidate\<rparr>)) (retX candidate))
     | None \<Rightarrow> raiseX library_not_found))"

definition has_symbol :: "ffi_world \<Rightarrow> string \<Rightarrow> bool ffi" where
  "has_symbol w name = bindX (load_library w) (\<lambda>path. retX (name \<in> set (w_symbols w path)))"

definition has_zerocopy_support :: "ffi_world \<Rightarrow> bool ffi" where
  "has_zerocopy_support w = bindX (readX use_zerocopy) (\<lambda>c. case c of
     Some b \<Rightarrow> retX b
   | None \<Rightarrow> bindX (has_symbol w ''getRequestZeroCopy'') (\<lambda>b.
       thenX (updX (\<lambda>s. s\<lparr>use_zerocopy := Some b\<rparr>)) (retX b)))"

definition has_callback_support :: "ffi_world \<Rightarrow> bool ffi" where
  "has_callback_support w = bindX (readX use_callback) (\<lambda>c. case c of
     Some b \<Rightarrow> retX b
   | None \<Rightarrow> bindX (has_symbol w ''submitRequestAsyncWithNotify'') (\<lambda>b1.
       bindX (if b1 then has_symbol w ''getAsyncResult'' else retX False) (\<lambda>b.
       thenX (updX (\<lambda>s. s\<lparr>use_callback := Some b\<rparr>)) (retX b))))"

definition has_async_zerocopy_support :: "ffi_world \<Rightarrow> bool ffi" where
  "has_async_zerocopy_support w = bindX (readX use_async_zerocopy) (\<lambda>c. case c of
     Some b \<Rightarrow> retX b
   | None \<Rightarrow> bindX (has_symbol w ''submitRequestAsyncZeroCopy'') (\<lambda>b1.
       bindX (if b1 then has_symbol w ''getAsyncResultZeroCopy'' else retX False) (\<lambda>b.
       thenX (updX (\<lambda>s. s\<lparr>use_async_zerocopy := Some b\<rparr>)) (retX b))))"

subsection \<open>Calls and memory\<close>

text \<open>A call of an exported function; one the library does not export is an \<^verbatim>\<open>AttributeError\<close>.\<close>

definition external :: "gocall \<Rightarrow> ffi_state \<Rightarrow> ffi_state" where
  "external c s = s\<lparr>history := history s @ [c]\<rparr>"

definition exported :: "ffi_world \<Rightarrow> gocall \<Rightarrow> unit ffi" where
  "exported w c = bindX (load_library w) (\<lambda>path.
     if symbol_of c \<in> set (w_symbols w path) then retX () else raiseX (no_attribute (symbol_of c)))"

definition call_num :: "ffi_world \<Rightarrow> gocall \<Rightarrow> int ffi" where
  "call_num w c = thenX (exported w c) (\<lambda>s. (external c s, Inr (w_num w (length (history s)) c)))"

text \<open>A call that returns memory: \<^verbatim>\<open>NULL\<close>, or a new block and the length written to \<^verbatim>\<open>outLen\<close>.\<close>

definition call_ptr :: "ffi_world \<Rightarrow> gocall \<Rightarrow> (nat \<times> nat) option ffi" where
  "call_ptr w c = thenX (exported w c) (\<lambda>s. case w_ptr w (length (history s)) c of
     None \<Rightarrow> (external c s, Inr None)
   | Some (content, n) \<Rightarrow> ((external c s)\<lparr>heap := (length (history s), content) # heap s\<rparr>,
       Inr (Some (length (history s), n))))"

definition freeString :: "nat \<Rightarrow> ffi_state \<Rightarrow> ffi_state" where
  "freeString p s = (if dhas (heap s) p then (external (FreeString p) s)\<lparr>heap := ddel (heap s) p\<rparr>
     else (external (FreeString p) s)\<lparr>violations := Suc (violations s)\<rparr>)"

definition byte_char :: "byte \<Rightarrow> char" where
  "byte_char b = char_of (unat b)"

definition char_byte :: "char \<Rightarrow> byte" where
  "char_byte c = word_of_nat (of_char c)"

text \<open>\<^verbatim>\<open>_ffi.buffer(p, n)[:]\<close> and \<^verbatim>\<open>_ffi.string(p)\<close>.\<close>

definition ffi_buffer :: "nat \<Rightarrow> nat \<Rightarrow> bytes ffi" where
  "ffi_buffer p n = bindX (readX heap) (\<lambda>h. case map_of h p of
     None \<Rightarrow> thenX (updX violate) (retX []) | Some content \<Rightarrow> retX (map char_byte (take n content)))"

definition ffi_string :: "nat \<Rightarrow> string ffi" where
  "ffi_string p = bindX (readX heap) (\<lambda>h. case map_of h p of
     None \<Rightarrow> thenX (updX violate) (retX []) | Some content \<Rightarrow> retX (takeWhile (\<lambda>c. of_char c \<noteq> (0 :: nat)) content))"

definition decode_msgpack :: "ffi_world \<Rightarrow> bytes \<Rightarrow> pyval ffi" where
  "decode_msgpack w raw = tryX (liftX (w_unpackb w raw)) Exception (\<lambda>e.
     raiseX (cycletls_error (''Failed to decode response data: '' @ exc_message e)))"

definition null_response :: pyexc where
  "null_response = cycletls_error ''CycleTLS shared library returned NULL response''"

definition raw_chars :: "bytes \<Rightarrow> string" where
  "raw_chars bs = map byte_char bs"

subsection \<open>Synchronous requests\<close>

definition send_request_zerocopy :: "ffi_world \<Rightarrow> pyval \<Rightarrow> pyval ffi" where
  "send_request_zerocopy w payload = thenX (load_library w)
     (bindX (liftX (w_packb w payload)) (\<lambda>msgpack_data.
      bindX (call_ptr w (GetRequestZeroCopy (raw_chars msgpack_data) (length msgpack_data))) (\<lambda>r. case r of
        None \<Rightarrow> raiseX null_response
      | Some (p, n) \<Rightarrow> bindX (finallyX (ffi_buffer p n) (freeString p)) (decode_msgpack w))))"

definition send_request_base64 :: "ffi_world \<Rightarrow> pyval \<Rightarrow> pyval ffi" where
  "send_request_base64 w payload = thenX (load_library w)
     (bindX (liftX (w_packb w payload)) (\<lambda>msgpack_data.
      bindX (call_ptr w (GetRequest (b64encode msgpack_data))) (\<lambda>r. case r of
        None \<Rightarrow> raiseX null_response
      | Some (p, _) \<Rightarrow> bindX (finallyX (ffi_string p) (freeString p)) (\<lambda>raw_b64.
          bindX (liftX (b64decode raw_b64)) (decode_msgpack w)))))"

definition send_request :: "ffi_world \<Rightarrow> pyval \<Rightarrow> pyval ffi" where
  "send_request w payload = bindX (has_zerocopy_support w) (\<lambda>z.
     if z then send_request_zerocopy w payload else send_request_base64 w payload)"

definition batch_null_response :: pyexc where
  "batch_null_response = cycletls_error ''CycleTLS batch request returned NULL response''"

fun responses_of :: "pyval \<Rightarrow> pyval res" where
  "responses_of (PDict d) = Inr (dget_or d ''responses'' (PList []))"
| "responses_of _ = Inl (no_attribute ''get'')"

definition batch_data :: "pyval list \<Rightarrow> pyval" where
  "batch_data payloads = PDict [(''requests'', PList payloads)]"

definition send_batch_request_zerocopy :: "ffi_world \<Rightarrow> pyval list \<Rightarrow> pyval ffi" where
  "send_batch_request_zerocopy w payloads = thenX (load_library w)
     (bindX (liftX (w_packb w (batch_data payloads))) (\<lambda>msgpack_data.
      bindX (call_ptr w (SendBatchRequestZeroCopy (raw_chars msgpack_data) (length msgpack_data))) (\<lambda>r. case r of
        None \<Rightarrow> raiseX batch_null_response
      | Some (p, n) \<Rightarrow> bindX (finallyX (ffi_buffer p n) (freeString p)) (\<lambda>raw_response.
          bindX (decode_msgpack w raw_response) (\<lambda>result. liftX (responses_of result))))))"

definition send_batch_request_base64 :: "ffi_world \<Rightarrow> pyval list \<Rightarrow> pyval ffi" where
  "send_batch_request_base64 w payloads = thenX (load_library w)
     (bindX (liftX (w_packb w (batch_data payloads))) (\<lambda>msgpack_data.
      bindX (call_ptr w (SendBatchRequest (b64encode msgpack_data))) (\<lambda>r. case r of
        None \<Rightarrow> raiseX batch_null_response
      | Some (p, _) \<Rightarrow> bindX (finallyX (ffi_string p) (freeString p)) (\<lambda>raw_b64.
          bindX (liftX (b64decode raw_b64)) (\<lambda>raw.
          bindX (decode_msgpack w raw) (\<lambda>result. liftX (responses_of result)))))))"

definition send_batch_request :: "ffi_world \<Rightarrow> pyval list \<Rightarrow> pyval ffi" where
  "send_batch_request w payloads = (if payloads = [] then retX (PList [])
     else bindX (has_zerocopy_support w) (\<lambda>z.
       if z then send_batch_request_zerocopy w payloads else send_batch_request_base64 w payloads))"

subsection \<open>Asynchronous requests\<close>

definition submit_request_async :: "ffi_world \<Rightarrow> pyval \<Rightarrow> int ffi" where
  "submit_request_async w payload = thenX (load_library w)
     (bindX (liftX (w_packb w payload)) (\<lambda>msgpack_data.
      bindX (call_num w (SubmitRequestAsync (b64encode msgpack_data))) (\<lambda>handle.
        if handle = 0 then raiseX (cycletls_error ''Failed to submit async request (invalid payload)'')
        else retX handle)))"

text \<open>The checks return \<^verbatim>\<open>None\<close> when the request is still running.\<close>

definition check_request_async :: "ffi_world \<Rightarrow> int \<Rightarrow> pyval ffi" where
  "check_request_async w handle = thenX (load_library w)
     (bindX (call_ptr w (CheckRequestAsync handle)) (\<lambda>r. case r of
        None \<Rightarrow> retX PNone
      | Some (p, _) \<Rightarrow> bindX (finallyX (ffi_string p) (freeString p)) (\<lambda>raw_b64.
          bindX (liftX (b64decode raw_b64)) (decode_msgpack w))))"

definition submit_request_async_zerocopy :: "ffi_world \<Rightarrow> pyval \<Rightarrow> int ffi" where
  "submit_request_async_zerocopy w payload = thenX (load_library w)
     (bindX (liftX (w_packb w payload)) (\<lambda>msgpack_data.
      call_num w (SubmitRequestAsyncZeroCopy (raw_chars msgpack_data) (length msgpack_data))))"

definition check_request_async_zerocopy :: "ffi_world \<Rightarrow> int \<Rightarrow> pyval ffi" where
  "check_request_async_zerocopy w handle = thenX (load_library w)
     (bindX (call_ptr w (GetAsyncResultZeroCopy handle)) (\<lambda>r. case r of
        None \<Rightarrow> retX PNone
      | Some (p, n) \<Rightarrow> bindX (ffi_buffer p n) (\<lambda>raw.
          thenX (updX (freeString p)) (liftX (w_unpackb w raw)))))"

definition loop_time :: "ffi_world \<Rightarrow> int ffi" where
  "loop_time w = (\<lambda>s. (external Clock s, Inr (w_num w (length (history s)) Clock)))"

text \<open>Times are in microseconds; the message has the number of seconds as a float.\<close>

definition async_timeout :: "int \<Rightarrow> pyexc" where
  "async_timeout timeout = Exc AsyncTimeoutError (''Request timed out after '' @ py_str (PFloat (Fin timeout (- 6))) @ '' seconds'')"

text \<open>The delay before the next check.\<close>

definition poll_delay :: "int \<Rightarrow> nat \<Rightarrow> int" where
  "poll_delay poll_interval check_count = (if poll_interval = 0
     then (if check_count < 100 then 0 else if check_count < 1000 then 100 else 1000)
     else poll_interval)"

datatype coroutine = Start pyval | Polling bool int int nat | Done "pyval res"

text \<open>One turn of the loop of \<^verbatim>\<open>send_request_async\<close>, up to its \<^verbatim>\<open>await\<close>.\<close>

definition poll_once :: "ffi_world \<Rightarrow> bool \<Rightarrow> int \<Rightarrow> int \<Rightarrow> int \<Rightarrow> int \<Rightarrow> nat \<Rightarrow> coroutine ffi" where
  "poll_once w zerocopy poll_interval timeout handle start_time check_count =
     bindX (if zerocopy then check_request_async_zerocopy w handle else check_request_async w handle) (\<lambda>result.
       if result \<noteq> PNone then retX (Done (Inr result))
       else bindX (loop_time w) (\<lambda>now.
         if now - start_time > timeout then raiseX (async_timeout timeout)
         else thenX (updX (external (Sleep (poll_delay poll_interval (Suc check_count)))))
           (retX (Polling zerocopy handle start_time (Suc check_count)))))"

definition resume :: "ffi_world \<Rightarrow> int \<Rightarrow> int \<Rightarrow> coroutine \<Rightarrow> coroutine ffi" where
  "resume w poll_interval timeout c = (case c of
     Done r \<Rightarrow> retX (Done r)
   | Start payload \<Rightarrow> bindX (has_async_zerocopy_support w) (\<lambda>z.
       bindX (if z then submit_request_async_zerocopy w payload else submit_request_async w payload) (\<lambda>handle.
       bindX (loop_time w) (\<lambda>start_time. poll_once w z poll_interval timeout handle start_time 0)))
   | Polling z handle start_time check_count \<Rightarrow> poll_once w z poll_interval timeout handle start_time check_count)"

text \<open>A coroutine that raised is done with its exception.\<close>

definition resume_catch :: "ffi_world \<Rightarrow> int \<Rightarrow> int \<Rightarrow> coroutine \<Rightarrow> ffi_state \<Rightarrow> ffi_state \<times> coroutine" where
  "resume_catch w poll_interval timeout c s = (case resume w poll_interval timeout c s of
     (s', Inl e) \<Rightarrow> (s', Done (Inl e)) | (s', Inr c') \<Rightarrow> (s', c'))"

text \<open>\<open>fuel\<close> bounds the number of turns; \<open>None\<close> means that the coroutine has not finished.\<close>

fun run_coroutine :: "nat \<Rightarrow> ffi_world \<Rightarrow> int \<Rightarrow> int \<Rightarrow> coroutine \<Rightarrow> ffi_state \<Rightarrow> (ffi_state \<times> pyval res) option" where
  "run_coroutine fuel w poll_interval timeout (Done r) s = Some (s, r)"
| "run_coroutine 0 w poll_interval timeout c s = None"
| "run_coroutine (Suc fuel) w poll_interval timeout c s = (case resume_catch w poll_interval timeout c s of
     (s', c') \<Rightarrow> run_coroutine fuel w poll_interval timeout c' s')"

definition send_request_async :: "nat \<Rightarrow> ffi_world \<Rightarrow> pyval \<Rightarrow> int \<Rightarrow> int \<Rightarrow> ffi_state \<Rightarrow> (ffi_state \<times> pyval res) option" where
  "send_request_async fuel w payload poll_interval timeout = run_coroutine fuel w poll_interval timeout (Start payload)"

text \<open>
  \<^verbatim>\<open>asyncio.gather\<close>: the event loop resumes the coroutines in the order of the schedule; the first exception is
  raised at once, and when all are done the results come in the order of the arguments.
\<close>

fun first_error :: "coroutine list \<Rightarrow> pyexc option" where
  "first_error [] = None"
| "first_error (Done (Inl e) # cs) = Some e"
| "first_error (_ # cs) = first_error cs"

fun results_of :: "coroutine list \<Rightarrow> pyval list option" where
  "results_of [] = Some []"
| "results_of (Done (Inr r) # cs) = map_option ((#) r) (results_of cs)"
| "results_of _ = None"

definition gathered :: "coroutine list \<Rightarrow> pyval list res option" where
  "gathered cs = (case first_error cs of Some e \<Rightarrow> Some (Inl e) | None \<Rightarrow> map_option Inr (results_of cs))"

fun gather :: "ffi_world \<Rightarrow> int \<Rightarrow> int \<Rightarrow> nat list \<Rightarrow> coroutine list \<Rightarrow> ffi_state \<Rightarrow> (ffi_state \<times> pyval list res) option" where
  "gather w poll_interval timeout [] cs s = map_option (Pair s) (gathered cs)"
| "gather w poll_interval timeout (i # sched) cs s = (case gathered cs of
     Some r \<Rightarrow> Some (s, r)
   | None \<Rightarrow>
       if i < length cs then (case resume_catch w poll_interval timeout (cs ! i) s of
         (s', c') \<Rightarrow> gather w poll_interval timeout sched (cs[i := c']) s')
       else gather w poll_interval timeout sched cs s)"

definition send_requests_batch :: "ffi_world \<Rightarrow> pyval list \<Rightarrow> int \<Rightarrow> int \<Rightarrow> nat list \<Rightarrow> ffi_state \<Rightarrow>
    (ffi_state \<times> pyval list res) option" where
  "send_requests_batch w payloads poll_interval timeout sched s =
     gather w poll_interval timeout sched (map Start payloads) s"

subsection \<open>Notification instead of polling\<close>

text \<open>The two ends of a pipe; the wait returns 0 when it timed out.\<close>

definition os_pipe :: "(nat \<times> nat) ffi" where
  "os_pipe = (\<lambda>s. let n = length (history s) in
     ((external Pipe s)\<lparr>fds := (2 * n) # (2 * n + 1) # fds s\<rparr>, Inr (2 * n, 2 * n + 1)))"

definition os_close :: "nat \<Rightarrow> ffi_state \<Rightarrow> ffi_state" where
  "os_close fd s = (external (ClosePipe fd) s)\<lparr>fds := remove1 fd (fds s)\<rparr>"

definition await_pipe :: "ffi_world \<Rightarrow> int \<Rightarrow> bool ffi" where
  "await_pipe w timeout = (\<lambda>s. (external (AwaitPipe timeout) s, Inr (w_num w (length (history s)) (AwaitPipe timeout) \<noteq> 0)))"

definition callback_body :: "ffi_world \<Rightarrow> pyval \<Rightarrow> int \<Rightarrow> nat \<Rightarrow> pyval ffi" where
  "callback_body w payload timeout write_fd = bindX (liftX (w_packb w payload)) (\<lambda>msgpack_data.
     bindX (call_num w (SubmitRequestAsyncWithNotify (raw_chars msgpack_data) (length msgpack_data) write_fd)) (\<lambda>handle.
     if handle = 0
     then raiseX (cycletls_error ''Failed to submit async request (invalid payload or null handle)'')
     else bindX (await_pipe w timeout) (\<lambda>notified.
       if \<not> notified then raiseX (async_timeout timeout)
       else bindX (call_ptr w (GetAsyncResult handle)) (\<lambda>r. case r of
           None \<Rightarrow> raiseX (cycletls_error ''Failed to get async result (null pointer returned)'')
         | Some (p, n) \<Rightarrow> bindX (finallyX (ffi_buffer p n) (freeString p)) (decode_msgpack w)))))"

definition send_request_async_callback :: "ffi_world \<Rightarrow> pyval \<Rightarrow> int \<Rightarrow> pyval ffi" where
  "send_request_async_callback w payload timeout = thenX (load_library w)
     (bindX os_pipe (\<lambda>(read_fd, write_fd).
        finallyX (callback_body w payload timeout write_fd) (\<lambda>s. os_close write_fd (os_close read_fd s))))"

subsection \<open>Resources\<close>

text \<open>
  \<open>balanced\<close>: the process holds the same native memory and the same descriptors as before, and touched no memory
  that was not its own.
\<close>

definition balanced :: "ffi_state \<Rightarrow> ffi_state \<Rightarrow> bool" where
  "balanced s s' = (heap s' = heap s \<and> fds s' = fds s \<and> violations s' = violations s \<and> prefix (history s) (history s'))"

interpretation balance: state_relation balanced
  by unfold_locales (auto simp: balanced_def)

lemma balanced_external [simp]: "balanced s (external c s)"
  by (simp add: balanced_def external_def)

lemma balanced_flags [simp]: "balanced s (s\<lparr>lib := l\<rparr>)" "balanced s (s\<lparr>use_zerocopy := b\<rparr>)"
  "balanced s (s\<lparr>use_callback := b\<rparr>)" "balanced s (s\<lparr>use_async_zerocopy := b\<rparr>)"
  by (simp_all add: balanced_def)

lemma keeps_load_library: "keeps balanced (load_library w)"
  unfolding load_library_def by (intro balance.keeps_rules) simp_all

lemma keeps_has_symbol: "keeps balanced (has_symbol w n)"
  unfolding has_symbol_def by (intro balance.keeps_rules keeps_load_library)

lemma keeps_has_support:
  "keeps balanced (has_zerocopy_support w)" "keeps balanced (has_callback_support w)"
  "keeps balanced (has_async_zerocopy_support w)"
  unfolding has_zerocopy_support_def has_callback_support_def has_async_zerocopy_support_def
  by (intro balance.keeps_rules keeps_has_symbol; simp)+

lemma keeps_exported: "keeps balanced (exported w c)"
  unfolding exported_def by (intro balance.keeps_rules keeps_load_library)

lemma keeps_external_reply: "keeps balanced (\<lambda>s. (external c s, r s))"
  by (simp add: keeps_def)

lemma keeps_call_num: "keeps balanced (call_num w c)" "keeps balanced (loop_time w)" "keeps balanced (await_pipe w t)"
  unfolding call_num_def loop_time_def await_pipe_def
  by (intro balance.keeps_rules keeps_exported keeps_external_reply)+

lemma keeps_decode_msgpack: "keeps balanced (decode_msgpack w raw)"
  unfolding decode_msgpack_def by (intro balance.keeps_rules)

lemmas keeps_simple = balance.keeps_rules keeps_load_library keeps_has_symbol keeps_has_support keeps_exported
  keeps_call_num keeps_decode_msgpack

text \<open>The outcome of a call that returns memory: the state is as before, up to the new block.\<close>

lemma call_ptr_cases:
  assumes "call_ptr w c s = (s', r)"
  obtains (error) e where "r = Inl e" "balanced s s'"
  | (null) "r = Inr None" "balanced s s'"
  | (block) p content n s1 where "r = Inr (Some (p, n))" "balanced s s1" "s' = s1\<lparr>heap := (p, content) # heap s1\<rparr>"
proof -
  obtain s0 r0 where e: "exported w c s = (s0, r0)" by (cases "exported w c s")
  have b: "balanced s s0" using keeps_exported e by (metis balance.keepsD)
  show ?thesis
  proof (cases r0)
    case (Inl err)
    with assms e b show ?thesis by (intro error [of err]) (simp_all add: call_ptr_def thenX_def bindX_def)
  next
    case (Inr u)
    let ?s1 = "external c s0"
    have b1: "balanced s ?s1" using b by (rule balance.trans) simp
    show ?thesis
    proof (cases "w_ptr w (length (history s0)) c")
      case None
      with assms e Inr b1 show ?thesis by (intro null) (auto simp: call_ptr_def thenX_def bindX_def)
    next
      case (Some cn)
      obtain content n where cn: "cn = (content, n)" by (cases cn)
      from assms e Inr Some show ?thesis
        by (intro block [of "length (history s0)" n ?s1 content])
          (auto simp: call_ptr_def thenX_def bindX_def cn b1, simp add: external_def)
    qed
  qed
qed

text \<open>Reading the block and giving it back.\<close>

lemma balanced_free:
  assumes "balanced s s1"
  shows "balanced s (freeString p (s1\<lparr>heap := (p, content) # heap s1\<rparr>))"
  using assms by (auto simp: balanced_def freeString_def external_def)

lemma read_live:
  "fst (ffi_buffer p n (s1\<lparr>heap := (p, content) # heap s1\<rparr>)) = s1\<lparr>heap := (p, content) # heap s1\<rparr>"
  "fst (ffi_string p (s1\<lparr>heap := (p, content) # heap s1\<rparr>)) = s1\<lparr>heap := (p, content) # heap s1\<rparr>"
  by (simp_all add: ffi_buffer_def ffi_string_def eff_defs)

definition reads_block :: "(nat \<Rightarrow> nat \<Rightarrow> 'a ffi) \<Rightarrow> bool" where
  "reads_block rd = (\<forall>p n s1 content. fst (rd p n (s1\<lparr>heap := (p, content) # heap s1\<rparr>)) = s1\<lparr>heap := (p, content) # heap s1\<rparr>)"

lemma reads_block_ffi: "reads_block ffi_buffer" "reads_block (\<lambda>p _. ffi_string p)"
  by (simp_all add: reads_block_def read_live)

text \<open>The pattern of every function that receives native memory.\<close>

lemma keeps_with_block:
  assumes "reads_block rd" "keeps balanced m" "\<And>x. keeps balanced (k x)"
  shows "keeps balanced (bindX (call_ptr w c) (\<lambda>r. case r of
      None \<Rightarrow> m | Some (p, n) \<Rightarrow> bindX (finallyX (rd p n) (freeString p)) k))"
  unfolding keeps_def
proof
  fix s
  obtain s' r where c: "call_ptr w c s = (s', r)" by (cases "call_ptr w c s")
  then show "balanced s (fst (bindX (call_ptr w c) (\<lambda>r. case r of
      None \<Rightarrow> m | Some (p, n) \<Rightarrow> bindX (finallyX (rd p n) (freeString p)) k) s))"
  proof (cases rule: call_ptr_cases)
    case (error e)
    with c show ?thesis by (simp add: bindX_def)
  next
    case null
    with c assms(2) show ?thesis by (auto simp: bindX_def keeps_def intro: balance.trans)
  next
    case (block p content n s1)
    have "fst (rd p n s') = s'" using assms(1) block(3) by (simp add: reads_block_def)
    then obtain x where x: "rd p n s' = (s', x)" by (metis prod.collapse)
    have b: "balanced s (freeString p s')" using balanced_free [OF block(2)] by (simp add: block(3))
    show ?thesis
    proof (cases x)
      case (Inl e)
      with x c block(1) b show ?thesis by (simp add: bindX_def finallyX_def)
    next
      case (Inr y)
      have "balanced (freeString p s') (fst (k y (freeString p s')))" using assms(3) by (simp add: keeps_def)
      with Inr x c block(1) b show ?thesis by (auto simp: bindX_def finallyX_def intro: balance.trans)
    qed
  qed
qed

lemma keeps_case_prod: "(\<And>a b. keeps R (f a b)) \<Longrightarrow> keeps R (case x of (a, b) \<Rightarrow> f a b)"
  by (cases x) simp

lemma keeps_send_request: "keeps balanced (send_request w payload)"
proof -
  have z: "keeps balanced (send_request_zerocopy w payload)"
    unfolding send_request_zerocopy_def by (intro keeps_with_block reads_block_ffi keeps_simple)
  have b: "keeps balanced (send_request_base64 w payload)"
    unfolding send_request_base64_def
    by (intro keeps_with_block [of "\<lambda>p _. ffi_string p"] reads_block_ffi keeps_simple)
  show ?thesis unfolding send_request_def by (intro keeps_simple z b)
qed

lemma keeps_send_batch_request: "keeps balanced (send_batch_request w payloads)"
proof -
  have z: "keeps balanced (send_batch_request_zerocopy w payloads)"
    unfolding send_batch_request_zerocopy_def by (intro keeps_with_block reads_block_ffi keeps_simple)
  have b: "keeps balanced (send_batch_request_base64 w payloads)"
    unfolding send_batch_request_base64_def
    by (intro keeps_with_block [of "\<lambda>p _. ffi_string p"] reads_block_ffi keeps_simple)
  show ?thesis unfolding send_batch_request_def by (intro keeps_simple z b)
qed

lemma keeps_check_request_async: "keeps balanced (check_request_async w h)"
  unfolding check_request_async_def
  by (intro keeps_with_block [of "\<lambda>p _. ffi_string p"] reads_block_ffi keeps_simple)

text \<open>The check of the zero-copy path has no \<^verbatim>\<open>finally\<close>, but nothing between the read and the release raises.\<close>

lemma buffer_then_free:
  "bindX (ffi_buffer p n) (\<lambda>raw. thenX (updX (freeString p)) (k raw)) = bindX (finallyX (ffi_buffer p n) (freeString p)) k"
  by (rule ext) (auto simp: ffi_buffer_def eff_defs split: option.split)

lemma keeps_check_request_async_zerocopy: "keeps balanced (check_request_async_zerocopy w h)"
  unfolding check_request_async_zerocopy_def buffer_then_free
  by (intro keeps_with_block reads_block_ffi keeps_simple)

lemma keeps_submit: "keeps balanced (submit_request_async w p)" "keeps balanced (submit_request_async_zerocopy w p)"
  unfolding submit_request_async_def submit_request_async_zerocopy_def by (intro keeps_simple)+

lemma keeps_poll_once: "keeps balanced (poll_once w z pi timeout h st n)"
  unfolding poll_once_def
  by (intro keeps_simple keeps_check_request_async keeps_check_request_async_zerocopy balanced_external)

lemma keeps_resume: "keeps balanced (resume w pi timeout c)"
  unfolding resume_def
  by (cases c) (simp_all add: balance.keeps_pure keeps_poll_once, intro keeps_simple keeps_submit keeps_poll_once)

lemma resume_catch_balanced: "resume_catch w pi timeout c s = (s', c') \<Longrightarrow> balanced s s'"
  using keeps_resume [of w pi timeout c]
  by (auto simp: resume_catch_def keeps_def split: prod.splits sum.splits dest: spec [of _ s])

lemma run_coroutine_balanced: "run_coroutine fuel w pi timeout c s = Some (s', r) \<Longrightarrow> balanced s s'"
proof (induction fuel arbitrary: c s)
  case 0
  then show ?case by (cases c) (auto simp: balance.refl)
next
  case (Suc fuel)
  show ?case
  proof (cases "\<exists>r. c = Done r")
    case True
    with Suc.prems show ?thesis by (auto simp: balance.refl)
  next
    case False
    obtain s1 c1 where c1: "resume_catch w pi timeout c s = (s1, c1)" by (cases "resume_catch w pi timeout c s")
    with False Suc.prems have "run_coroutine fuel w pi timeout c1 s1 = Some (s', r)" by (cases c) auto
    then show ?thesis using Suc.IH resume_catch_balanced [OF c1] balance.trans by blast
  qed
qed

lemma gather_balanced: "gather w pi timeout sched cs s = Some (s', r) \<Longrightarrow> balanced s s'"
proof (induction w pi timeout sched cs s rule: gather.induct)
  case (2 w pi timeout i sched cs s)
  show ?case
  proof (cases "gathered cs = None \<and> i < length cs")
    case True
    obtain s1 c1 where c1: "resume_catch w pi timeout (cs ! i) s = (s1, c1)" by (cases "resume_catch w pi timeout (cs ! i) s")
    with True 2 have "balanced s1 s'" by simp
    then show ?thesis using resume_catch_balanced [OF c1] balance.trans by blast
  next
    case False
    with 2 show ?thesis by (auto simp: balance.refl split: option.splits)
  qed
qed (auto simp: balance.refl)

lemma keeps_callback_body: "keeps balanced (callback_body w payload timeout fd)"
  unfolding callback_body_def by (intro keeps_simple keeps_with_block reads_block_ffi)

lemma keeps_send_request_async_callback: "keeps balanced (send_request_async_callback w payload timeout)"
proof -
  have "keeps balanced (bindX os_pipe (\<lambda>(read_fd, write_fd).
        finallyX (callback_body w payload timeout write_fd) (\<lambda>s. os_close write_fd (os_close read_fd s))))"
    unfolding keeps_def
  proof
    fix s
    let ?n = "2 * length (history s)" and ?s1 = "fst (os_pipe s)"
    obtain s2 r where body: "callback_body w payload timeout (?n + 1) ?s1 = (s2, r)"
      by (cases "callback_body w payload timeout (?n + 1) ?s1")
    then have "balanced ?s1 s2" using keeps_callback_body by (metis balance.keepsD)
    then have "balanced s (os_close (?n + 1) (os_close ?n s2))"
      by (auto simp: balanced_def os_close_def os_pipe_def external_def Let_def dest: append_prefixD)
    then show "balanced s (fst (bindX os_pipe (\<lambda>(read_fd, write_fd).
        finallyX (callback_body w payload timeout write_fd) (\<lambda>s. os_close write_fd (os_close read_fd s))) s))"
      using body by (simp add: bindX_def os_pipe_def finallyX_def Let_def)
  qed
  then show ?thesis unfolding send_request_async_callback_def
    by (rule balance.keeps_then [OF keeps_load_library])
qed

subsection \<open>The two transfer modes\<close>

lemma char_byte_byte_char [simp]: "char_byte (byte_char b) = b"
  using unat_byte_less [of b] by (simp add: char_byte_def byte_char_def)

lemma map_char_byte_raw [simp]: "map char_byte (raw_chars bs) = bs"
  by (simp add: raw_chars_def comp_def)

lemma b64_index:
  "unat (a :: byte) div 4 < 64" "unat a mod 4 * 16 < 64" "unat a mod 4 * 16 + unat (b :: byte) div 16 < 64"
  "unat b mod 16 * 4 < 64" "unat b mod 16 * 4 + unat (c :: byte) div 64 < 64" "unat c mod 64 < 64"
  using pack_less [of "unat b div 16" 16 4 "unat a"] pack_less [of 0 16 4 "unat a"]
    pack_less [of "unat c div 64" 4 16 "unat b"] pack_less [of 0 4 16 "unat b"] by simp_all

lemma b64_char_not_null: "n < 64 \<Longrightarrow> (0 :: nat) < of_char (b64_char n)"
proof -
  have "list_all (\<lambda>c. (0 :: nat) < of_char c) b64_alphabet" "length b64_alphabet = 64" by code_simp+
  then show "n < 64 \<Longrightarrow> (0 :: nat) < of_char (b64_char n)" by (simp add: b64_char_def list_all_length)
qed

lemma b64encode_not_null: "c \<in> set (b64encode bs) \<Longrightarrow> of_char c \<noteq> (0 :: nat)"
  by (induction bs rule: b64encode.induct) (auto simp: b64_char_not_null b64_index)

text \<open>A base64 text with its terminator read as a C string.\<close>

lemma c_string_b64: "takeWhile (\<lambda>c. of_char c \<noteq> (0 :: nat)) (b64encode bs @ CHR 0x00 # rest) = b64encode bs"
proof -
  have "takeWhile (\<lambda>c. of_char c \<noteq> (0 :: nat)) (b64encode bs @ CHR 0x00 # rest) =
      b64encode bs @ takeWhile (\<lambda>c. of_char c \<noteq> (0 :: nat)) (CHR 0x00 # rest)"
    by (rule takeWhile_append2) (simp add: b64encode_not_null)
  then show ?thesis by simp
qed

text \<open>
  What the library promises for one request in both modes: the same reply bytes, as a terminated base64 text or as
  a block with its length.
\<close>

definition mode_agnostic :: "ffi_world \<Rightarrow> (bytes \<Rightarrow> bytes) \<Rightarrow> bool" where
  "mode_agnostic w reply = ((\<forall>i d. \<exists>rest n. w_ptr w i (GetRequest (b64encode d)) = Some (b64encode (reply d) @ CHR 0x00 # rest, n)) \<and>
     (\<forall>i d. \<exists>rest. w_ptr w i (GetRequestZeroCopy (raw_chars d) (length d)) = Some (raw_chars (reply d) @ rest, length (reply d))))"

definition exports_all :: "ffi_world \<Rightarrow> string \<Rightarrow> bool" where
  "exports_all w path = (\<forall>c. symbol_of c \<in> set (w_symbols w path))"

lemma exported_ok:
  "lib s = Some path \<Longrightarrow> symbol_of c \<in> set (w_symbols w path) \<Longrightarrow> exported w c s = (s, Inr ())"
  by (simp add: exported_def load_library_def eff_defs)

lemma load_library_cached: "lib s = Some path \<Longrightarrow> load_library w s = (s, Inr path)"
  by (simp add: load_library_def eff_defs)

lemma send_request_zerocopy_reply:
  assumes "lib s = Some path" "''getRequestZeroCopy'' \<in> set (w_symbols w path)" "w_packb w payload = Inr d"
    "w_ptr w (length (history s)) (GetRequestZeroCopy (raw_chars d) (length d)) = Some (raw_chars b @ rest, length b)"
  shows "snd (send_request_zerocopy w payload s) = snd (decode_msgpack w b s)"
  using assms exported_ok [of s path "GetRequestZeroCopy (raw_chars d) (length d)" w] load_library_cached [of s path w]
  by (simp add: send_request_zerocopy_def call_ptr_def eff_defs ffi_buffer_def decode_msgpack_def raw_chars_def comp_def
      split: sum.split)

lemma send_request_base64_reply:
  assumes "lib s = Some path" "''getRequest'' \<in> set (w_symbols w path)" "w_packb w payload = Inr d"
    "w_ptr w (length (history s)) (GetRequest (b64encode d)) = Some (b64encode b @ CHR 0x00 # rest, n)"
  shows "snd (send_request_base64 w payload s) = snd (decode_msgpack w b s)"
  using assms exported_ok [of s path "GetRequest (b64encode d)" w] load_library_cached [of s path w]
  by (simp add: send_request_base64_def call_ptr_def eff_defs ffi_string_def decode_msgpack_def c_string_b64 [simplified]
      split: sum.split)

subsection \<open>Polling\<close>

lemma keeps_history: "keeps balanced m \<Longrightarrow> m s = (s', r) \<Longrightarrow> length (history s) \<le> length (history s')"
  using balance.keepsD [of m s s' r] by (auto simp: balanced_def dest: prefix_length_le)

text \<open>A turn that does not end the coroutine keeps its handle and its start time, takes at least one external action,
  and found the timeout not reached.\<close>

lemma poll_once_continues:
  assumes "poll_once w z pi timeout h st n s = (s', Inr c)" "\<nexists>r. c = Done r"
  shows "c = Polling z h st (Suc n) \<and> length (history s) < length (history s') \<and>
    (\<exists>i \<ge> length (history s). w_num w i Clock - st \<le> timeout)"
proof -
  let ?chk = "if z then check_request_async_zerocopy w h else check_request_async w h"
  have k: "keeps balanced ?chk" by (simp add: keeps_check_request_async keeps_check_request_async_zerocopy)
  obtain s1 r1 where c: "?chk s = (s1, r1)" by (cases "?chk s")
  have le: "length (history s) \<le> length (history s1)" by (rule keeps_history [OF k c])
  from assms c show ?thesis
    using le unfolding poll_once_def
    by (auto simp: eff_defs loop_time_def external_def split: sum.splits if_splits intro: exI [of _ "length (history s1)"])
qed

lemma resume_start_not_start: "resume_catch w pi timeout (Start p) s \<noteq> (s', Start q)"
proof
  assume "resume_catch w pi timeout (Start p) s = (s', Start q)"
  then have "resume w pi timeout (Start p) s = (s', Inr (Start q))"
    by (auto simp: resume_catch_def split: prod.splits sum.splits)
  then obtain z h st s0 where "poll_once w z pi timeout h st 0 s0 = (s', Inr (Start q))"
    unfolding resume_def by (auto elim!: bindX_cases)
  from poll_once_continues [OF this] show False by simp
qed

lemma run_polling_terminates:
  assumes "\<And>i. i \<ge> N \<Longrightarrow> w_num w i Clock > st + timeout" "N - length (history s) \<le> k"
  shows "\<exists>s' r. run_coroutine (Suc (Suc k)) w pi timeout (Polling z h st n) s = Some (s', r)"
  using assms(2)
proof (induction k arbitrary: s n)
  case (0 s n)
  obtain s1 c1 where c1: "poll_once w z pi timeout h st n s = (s1, c1)" by (cases "poll_once w z pi timeout h st n s")
  show ?case
  proof (cases "(\<exists>r. c1 = Inr (Done r)) \<or> (\<exists>e. c1 = Inl e)")
    case True
    with c1 show ?thesis by (auto simp: resume_catch_def resume_def)
  next
    case False
    then obtain c where c: "c1 = Inr c" "\<nexists>r. c = Done r" by (cases c1) auto
    with poll_once_continues [of w z pi timeout h st n s s1 c] c1
    obtain i where "i \<ge> length (history s)" "w_num w i Clock - st \<le> timeout" by auto
    with 0 assms(1) [of i] show ?thesis by simp
  qed
next
  case (Suc k s n)
  obtain s1 c1 where c1: "poll_once w z pi timeout h st n s = (s1, c1)" by (cases "poll_once w z pi timeout h st n s")
  show ?case
  proof (cases "(\<exists>r. c1 = Inr (Done r)) \<or> (\<exists>e. c1 = Inl e)")
    case True
    with c1 show ?thesis by (auto simp: resume_catch_def resume_def)
  next
    case False
    then obtain c where c: "c1 = Inr c" "\<nexists>r. c = Done r" by (cases c1) auto
    with poll_once_continues [of w z pi timeout h st n s s1 c] c1
    have *: "c = Polling z h st (Suc n)" "length (history s) < length (history s1)" by auto
    with Suc.prems have "N - length (history s1) \<le> k" by linarith
    from Suc.IH [OF this, of "Suc n"] * c1 c(1) show ?thesis by (simp add: resume_catch_def resume_def)
  qed
qed

subsection \<open>Calls of a loaded library\<close>

lemma call_num_loaded:
  assumes "lib f = Some path" "symbol_of c \<in> set (w_symbols w path)"
  shows "call_num w c f = (external c f, Inr (w_num w (length (history f)) c))"
  using exported_ok [OF assms] by (simp add: call_num_def eff_defs)

lemma has_symbol_loaded: "lib f = Some path \<Longrightarrow> has_symbol w n f = (f, Inr (n \<in> set (w_symbols w path)))"
  by (simp add: has_symbol_def load_library_def eff_defs)

text \<open>Reading a reply from the library, for a world that is loaded.\<close>

lemma call_ptr_loaded:
  assumes "lib f = Some path" "symbol_of c \<in> set (w_symbols w path)" "w_ptr w (length (history f)) c = Some (content, n)"
  shows "call_ptr w c f = ((external c f)\<lparr>heap := (length (history f), content) # heap f\<rparr>, Inr (Some (length (history f), n)))"
  using exported_ok [OF assms(1,2)] assms(3) by (simp add: call_ptr_def eff_defs)

lemma string_then_free:
  "finallyX (ffi_string p) (freeString p) (f\<lparr>heap := (p, content) # hs\<rparr>) =
     ((external (FreeString p) f)\<lparr>heap := hs\<rparr>, Inr (takeWhile (\<lambda>c. of_char c \<noteq> (0 :: nat)) content))"
  by (simp add: finallyX_def ffi_string_def eff_defs freeString_def external_def)

subsection \<open>Properties\<close>

text \<open>C2. No operation on the native library leaks or corrupts memory: whatever the library, the codec and the clock
  answer, and whether the operation returns or raises on any path, every block the library returned was given
  back exactly once with \<^verbatim>\<open>freeString\<close>, none was read after that, and both ends of the notification
  pipe are closed.\<close>

theorem ffi_resources_balanced:
  "balanced s (fst (send_request w payload s)) \<and>
   balanced s (fst (send_batch_request w payloads s)) \<and>
   balanced s (fst (check_request_async w h s)) \<and>
   balanced s (fst (check_request_async_zerocopy w h s)) \<and>
   balanced s (fst (send_request_async_callback w payload timeout s)) \<and>
   (send_request_async fuel w payload pi timeout s = Some (s1, r1) \<longrightarrow> balanced s s1) \<and>
   (send_requests_batch w payloads pi timeout sched s = Some (s2, r2) \<longrightarrow> balanced s s2)"
  using keeps_send_request [of w payload] keeps_send_batch_request [of w payloads] keeps_check_request_async [of w h]
    keeps_check_request_async_zerocopy [of w h] keeps_send_request_async_callback [of w payload timeout]
    run_coroutine_balanced [of fuel w pi timeout "Start payload" s s1 r1]
    gather_balanced [of w pi timeout sched "map Start payloads" s s2 r2]
  by (simp add: keeps_def send_request_async_def send_requests_batch_def)

text \<open>A library in memory for the examples: every symbol is exported, replies are the empty block.\<close>

definition example_world :: ffi_world where
  "example_world = \<lparr>w_lib_path = Some ''/lib.so'', w_system = ''Linux'', w_machine = ''x86_64'', w_package_dir = ''/p'',
     w_exists = (\<lambda>_. True), w_dlopen = (\<lambda>_. Inr ()),
     w_symbols = (\<lambda>_. [''getRequest'', ''getRequestZeroCopy'', ''freeString'', ''submitRequestAsync'',
       ''submitRequestAsyncZeroCopy'', ''getAsyncResultZeroCopy'', ''submitRequestAsyncWithNotify'', ''getAsyncResult'',
       ''wsConnect'', ''wsReceive'', ''wsClose'', ''sseConnect'', ''sseNextEvent'', ''sseClose'']),
     w_packb = (\<lambda>_. Inr [1]), w_unpackb = (\<lambda>_. Inr (PDict [(''Status'', PInt 200)])),
     w_ptr = (\<lambda>i c. case c of GetRequest _ \<Rightarrow> Some ([CHR 0x00], 0) | GetRequestZeroCopy _ _ \<Rightarrow> Some ([], 0) | _ \<Rightarrow> None),
     w_num = (\<lambda>i c. case c of Clock \<Rightarrow> int i | _ \<Rightarrow> 0)\<rparr>"

theorem ffi_resources_balanced_witness:
  "\<exists>s1 r1. send_request_async 99 example_world PNone 0 3 initial_ffi = Some (s1, r1) \<and> balanced initial_ffi s1 \<and>
     balanced initial_ffi (fst (send_request example_world PNone initial_ffi))"
proof -
  have "send_request_async 99 example_world PNone 0 3 initial_ffi \<noteq> None" by code_simp
  then obtain s1 r1 where "send_request_async 99 example_world PNone 0 3 initial_ffi = Some (s1, r1)" by auto
  with ffi_resources_balanced [of initial_ffi example_world PNone "[]" 0 3 99 0 s1 r1]
  show ?thesis by simp
qed

text \<open>C18. The base64 fallback is equivalent to the zero-copy mode: when the library gives the same reply bytes in both
  modes, \<^verbatim>\<open>_send_request_base64\<close> and \<^verbatim>\<open>_send_request_zerocopy\<close> return the same dictionary or raise the
  same exception, also for replies that contain zero bytes.\<close>

theorem transfer_modes_equivalent:
  assumes "mode_agnostic w reply" "lib s = Some path"
    "{''getRequest'', ''getRequestZeroCopy''} \<subseteq> set (w_symbols w path)"
  shows "snd (send_request_base64 w payload s) = snd (send_request_zerocopy w payload s)"
proof (cases "w_packb w payload")
  case (Inl e)
  with load_library_cached [OF assms(2), of w] show ?thesis
    by (simp add: send_request_base64_def send_request_zerocopy_def eff_defs)
next
  case (Inr d)
  obtain rest n where b: "w_ptr w (length (history s)) (GetRequest (b64encode d)) = Some (b64encode (reply d) @ CHR 0x00 # rest, n)"
    using assms(1) unfolding mode_agnostic_def by blast
  obtain rest' where z: "w_ptr w (length (history s)) (GetRequestZeroCopy (raw_chars d) (length d)) =
      Some (raw_chars (reply d) @ rest', length (reply d))"
    using assms(1) unfolding mode_agnostic_def by blast
  show ?thesis
    using send_request_base64_reply [OF assms(2) _ Inr b] send_request_zerocopy_reply [OF assms(2) _ Inr z] assms(3)
    by simp
qed

theorem transfer_modes_equivalent_witness:
  "snd (send_request_base64 example_world PNone (initial_ffi\<lparr>lib := Some ''/lib.so''\<rparr>)) =
   snd (send_request_zerocopy example_world PNone (initial_ffi\<lparr>lib := Some ''/lib.so''\<rparr>))"
proof (rule transfer_modes_equivalent)
  show "mode_agnostic example_world (\<lambda>_. [])" by (simp add: mode_agnostic_def example_world_def raw_chars_def)
  show "lib (initial_ffi\<lparr>lib := Some ''/lib.so''\<rparr>) = Some ''/lib.so''" by simp
  show "{''getRequest'', ''getRequestZeroCopy''} \<subseteq> set (w_symbols example_world ''/lib.so'')"
    by (simp add: example_world_def)
qed

text \<open>C17. Polling ends: when the clock passes every bound, \<^verbatim>\<open>send_request_async\<close> finishes with a result or an
  exception after finitely many turns, whatever the library answers.\<close>

theorem polling_terminates:
  assumes "\<And>t. \<exists>N. \<forall>i \<ge> N. w_num w i Clock > t"
  shows "\<exists>fuel s' r. send_request_async fuel w payload pi timeout s = Some (s', r)"
proof -
  obtain s1 c1 where c1: "resume_catch w pi timeout (Start payload) s = (s1, c1)"
    by (cases "resume_catch w pi timeout (Start payload) s")
  show ?thesis
  proof (cases c1)
    case (Done r)
    with c1 have "send_request_async 1 w payload pi timeout s = Some (s1, r)"
      by (simp add: send_request_async_def)
    then show ?thesis by blast
  next
    case (Polling z h st n)
    obtain N where N: "\<And>i. i \<ge> N \<Longrightarrow> w_num w i Clock > st + timeout" using assms [of "st + timeout"] by blast
    obtain s' r where "run_coroutine (Suc (Suc N)) w pi timeout (Polling z h st n) s1 = Some (s', r)"
      using run_polling_terminates [where N = N and w = w and k = N and s = s1, OF N] by (meson diff_le_self)
    with c1 Polling have "send_request_async (Suc (Suc (Suc N))) w payload pi timeout s = Some (s', r)"
      by (simp add: send_request_async_def)
    then show ?thesis by blast
  next
    case (Start p)
    with c1 show ?thesis using resume_start_not_start [of w pi timeout payload s] by simp
  qed
qed

theorem polling_terminates_witness:
  "\<exists>fuel s' r. send_request_async fuel example_world PNone 0 30 initial_ffi = Some (s', r)"
proof (rule polling_terminates)
  fix t :: int
  show "\<exists>N. \<forall>i \<ge> N. w_num example_world i Clock > t"
    by (rule exI [of _ "nat t + 1"]) (auto simp: example_world_def)
qed

text \<open>The two submit functions disagree on a rejected request: when the library answers with the handle 0,
  \<^verbatim>\<open>submit_request_async\<close> raises \<^verbatim>\<open>CycleTLSError\<close>, but \<^verbatim>\<open>submit_request_async_zerocopy\<close>, the one
  that is used when available, returns 0 as if it were a handle.\<close>

theorem rejected_submit_disagrees:
  assumes "lib s = Some path" "{''submitRequestAsync'', ''submitRequestAsyncZeroCopy''} \<subseteq> set (w_symbols w path)"
    "w_packb w payload = Inr d" "\<And>i c. w_num w i c = 0"
  shows "snd (submit_request_async w payload s) = Inl (cycletls_error ''Failed to submit async request (invalid payload)'') \<and>
    snd (submit_request_async_zerocopy w payload s) = Inr 0"
  using assms exported_ok [of s path "SubmitRequestAsync (b64encode d)" w]
    exported_ok [of s path "SubmitRequestAsyncZeroCopy (raw_chars d) (length d)" w] load_library_cached [of s path w]
  by (simp add: submit_request_async_def submit_request_async_zerocopy_def call_num_def eff_defs)

theorem rejected_submit_disagrees_witness:
  "snd (submit_request_async_zerocopy (example_world\<lparr>w_num := \<lambda>_ _. 0\<rparr>) PNone (initial_ffi\<lparr>lib := Some ''/lib.so''\<rparr>)) = Inr 0"
  using rejected_submit_disagrees [of "initial_ffi\<lparr>lib := Some ''/lib.so''\<rparr>" "''/lib.so''"
      "example_world\<lparr>w_num := \<lambda>_ _. 0\<rparr>" PNone "[1]"]
  by (simp add: example_world_def)

text \<open>C37. A timeout of the notification path closes the write end of the pipe while the library still holds its
  number: the descriptor passed with the request is closed, and its result is never fetched, so a later
  notification is written to whatever file has the same number by then.\<close>

theorem callback_timeout_closes_held_descriptor:
  assumes "lib s = Some path" "''submitRequestAsyncWithNotify'' \<in> set (w_symbols w path)" "w_packb w payload = Inr d"
    "\<And>i x n fd. w_num w i (SubmitRequestAsyncWithNotify x n fd) \<noteq> 0" "\<And>i t. w_num w i (AwaitPipe t) = 0"
  shows "\<exists>s' fd. send_request_async_callback w payload timeout s = (s', Inl (async_timeout timeout)) \<and>
    history s' = history s @ [Pipe, SubmitRequestAsyncWithNotify (raw_chars d) (length d) fd, AwaitPipe timeout,
      ClosePipe (fd - 1), ClosePipe fd] \<and> fds s' = fds s"
proof -
  let ?fd = "2 * length (history s) + 1"
  let ?s1 = "fst (os_pipe s)" and ?c = "SubmitRequestAsyncWithNotify (raw_chars d) (length d) ?fd"
  have "exported w ?c ?s1 = (?s1, Inr ())"
    using assms(1,2) by (intro exported_ok) (simp_all add: os_pipe_def external_def Let_def)
  then have "callback_body w payload timeout ?fd ?s1 =
      (external (AwaitPipe timeout) (external ?c ?s1), Inl (async_timeout timeout))"
    using assms(3,4,5) by (simp add: callback_body_def call_num_def await_pipe_def eff_defs)
  then show ?thesis using load_library_cached [OF assms(1), of w]
    by (auto simp: send_request_async_callback_def os_pipe_def finallyX_def thenX_def bindX_def os_close_def external_def Let_def
        intro!: exI [of _ ?fd])
qed

theorem callback_timeout_closes_held_descriptor_witness:
  "\<exists>s'. send_request_async_callback
       (example_world\<lparr>w_num := \<lambda>_ c. case c of SubmitRequestAsyncWithNotify _ _ _ \<Rightarrow> 7 | _ \<Rightarrow> 0\<rparr>) PNone 5
       (initial_ffi\<lparr>lib := Some ''/lib.so''\<rparr>) = (s', Inl (async_timeout 5)) \<and> fds s' = []"
proof -
  let ?w = "example_world\<lparr>w_num := \<lambda>_ c. case c of SubmitRequestAsyncWithNotify _ _ _ \<Rightarrow> 7 | _ \<Rightarrow> 0\<rparr>"
  let ?s = "initial_ffi\<lparr>lib := Some ''/lib.so''\<rparr>"
  have "lib ?s = Some ''/lib.so''" "''submitRequestAsyncWithNotify'' \<in> set (w_symbols ?w ''/lib.so'')"
    "w_packb ?w PNone = Inr [1]" by (simp_all add: example_world_def)
  from callback_timeout_closes_held_descriptor [OF this, of 5] show ?thesis
    by (auto simp: initial_ffi_def)
qed

end
