(* ===== verification/WebSocket.thy ===== *)
theory WebSocket
  imports FFI
begin

section \<open>WebSocket connections (\<^verbatim>\<open>cycletls/websocket.py\<close>)\<close>

text \<open>
  An operation on a connection works on the connection object and the native library, \<open>ws_conn \<times> ffi_state\<close>. The
  asynchronous methods run the synchronous ones in an executor thread, so they are the same functions; the
  lock field of the class is never taken by the source. \<open>ws_iter\<close> is the generator \<^verbatim>\<open>__iter__\<close> (and
  \<^verbatim>\<open>__aiter__\<close>): the messages it yields until it ends, or until \<open>n\<close> were taken.
\<close>

datatype MessageType = TEXT | BINARY | CLOSE | PING | PONG

fun message_value :: "MessageType \<Rightarrow> int" where
  "message_value TEXT = 1" | "message_value BINARY = 2" | "message_value CLOSE = 8"
| "message_value PING = 9" | "message_value PONG = 10"

text \<open>An \<^verbatim>\<open>IntEnum\<close> is ordered by its values.\<close>

lemma message_value_inject [simp]: "message_value a = message_value b \<longleftrightarrow> a = b"
  by (cases a; cases b) simp_all

instantiation MessageType :: linorder
begin

definition less_eq_MessageType :: "MessageType \<Rightarrow> MessageType \<Rightarrow> bool" where
  "less_eq_MessageType a b = (message_value a \<le> message_value b)"

definition less_MessageType :: "MessageType \<Rightarrow> MessageType \<Rightarrow> bool" where
  "less_MessageType a b = (message_value a < message_value b)"

instance
  by standard (auto simp: less_eq_MessageType_def less_MessageType_def)

end

text \<open>\<^verbatim>\<open>MessageType(v)\<close>; a value equal to a member's number gives that member.\<close>

fun int_value :: "pyval \<Rightarrow> int option" where
  "int_value (PInt n) = Some n"
| "int_value (PBool b) = Some (if b then 1 else 0)"
| "int_value (PFloat (Fin m e)) = (if e \<ge> 0 then Some (m * 10 ^ nat e)
     else if m mod 10 ^ nat (- e) = 0 then Some (m div 10 ^ nat (- e)) else None)"
| "int_value _ = None"

definition message_type :: "pyval \<Rightarrow> MessageType res" where
  "message_type v = (case find (\<lambda>t. int_value v = Some (message_value t)) [TEXT, BINARY, CLOSE, PING, PONG] of
     Some t \<Rightarrow> Inr t
   | None \<Rightarrow> Inl (Exc ValueError (py_repr v @ '' is not a valid MessageType'')))"

record WebSocketMessage =
  wm_type :: MessageType
  wm_data :: pyval

definition is_text :: "WebSocketMessage \<Rightarrow> bool" where
  "is_text m = (wm_type m = TEXT)"

definition is_binary :: "WebSocketMessage \<Rightarrow> bool" where
  "is_binary m = (wm_type m = BINARY)"

definition is_close :: "WebSocketMessage \<Rightarrow> bool" where
  "is_close m = (wm_type m = CLOSE)"

record ws_conn =
  ws_url :: pyval
  ws_headers :: pyval
  ws_ja3 :: pyval
  ws_user_agent :: pyval
  ws_proxy :: pyval
  ws_timeout :: pyval
  ws_handle :: "int option"
  ws_connected :: bool

type_synonym 'a ws = "(ws_conn \<times> ffi_state, 'a) eff"

definition ws_init :: "pyval \<Rightarrow> pyval \<Rightarrow> pyval \<Rightarrow> pyval \<Rightarrow> pyval \<Rightarrow> pyval \<Rightarrow> ws_conn" where
  "ws_init url headers ja3 user_agent proxy timeout =
     \<lparr>ws_url = url, ws_headers = py_or headers (PDict []), ws_ja3 = ja3, ws_user_agent = user_agent,
      ws_proxy = proxy, ws_timeout = timeout, ws_handle = None, ws_connected = False\<rparr>"

definition ws_error :: "string \<Rightarrow> pyexc" where
  "ws_error msg = Exc WebSocketError msg"

definition set_truthy :: "string \<Rightarrow> pyval \<Rightarrow> kwargs \<Rightarrow> kwargs" where
  "set_truthy k v d = (if py_truth v then dset d k v else d)"

definition ws_options :: "ws_conn \<Rightarrow> kwargs" where
  "ws_options c =
    (let d = [(''url'', ws_url c), (''headers'', ws_headers c), (''timeout'', ws_timeout c)];
         d = set_truthy ''ja3'' (ws_ja3 c) d;
         d = set_truthy ''userAgent'' (ws_user_agent c) d
     in set_truthy ''proxy'' (ws_proxy c) d)"

definition ws_connect :: "ffi_world \<Rightarrow> unit ws" where
  "ws_connect w = bindX (readFst ws_connected) (\<lambda>connected. if connected then retX ()
     else bindX (onSnd (has_symbol w ''wsConnect'')) (\<lambda>ok. if \<not> ok
       then raiseX (ws_error (''WebSocket support requires rebuilding the Go library with WebSocket exports. '' @
         ''The current library does not have wsConnect exported.''))
     else bindX (readFst (\<lambda>c. c)) (\<lambda>c.
       bindX (liftX (w_packb w (PDict (ws_options c)))) (\<lambda>msgpack_data.
       bindX (onSnd (call_num w (WsConnect (b64encode msgpack_data)))) (\<lambda>handle.
         if handle = 0 then raiseX (ws_error (''Failed to connect to '' @ py_str (ws_url c)))
         else onFst (\<lambda>c. c\<lparr>ws_handle := Some handle, ws_connected := True\<rparr>))))))"

definition ws_active :: "ws_conn \<Rightarrow> int option" where
  "ws_active c = (if ws_connected c then ws_handle c else None)"

fun bytes_to_send :: "pyval \<Rightarrow> bytes res" where
  "bytes_to_send (PStr s) = Inr (utf8_encode s)"
| "bytes_to_send (PBytes b) = Inr b"
| "bytes_to_send _ = Inl (Exc TypeError ''a bytes-like object is required'')"

definition ws_send :: "ffi_world \<Rightarrow> pyval \<Rightarrow> bool \<Rightarrow> unit ws" where
  "ws_send w data binary = bindX (readFst ws_active) (\<lambda>h. case h of
     None \<Rightarrow> raiseX (ws_error ''WebSocket is not connected'')
   | Some handle \<Rightarrow> bindX (onSnd (has_symbol w ''wsSend'')) (\<lambda>ok. if \<not> ok
       then raiseX (ws_error ''WebSocket send not supported in this library build'')
       else bindX (liftX (bytes_to_send data)) (\<lambda>data_bytes.
         bindX (onSnd (call_num w (WsSend handle (message_value (if binary then BINARY else TEXT))
             (b64encode data_bytes) (length data_bytes)))) (\<lambda>result.
           if result \<noteq> 0
           then raiseX (ws_error (''Failed to send WebSocket message: error code '' @ int_str result))
           else retX ()))))"

fun decode_str_data :: "pyval \<Rightarrow> pyval res" where
  "decode_str_data (PStr s) = (if list_ex (\<lambda>c. of_char c \<ge> (128 :: nat)) s
     then Inl (Exc ValueError ''string argument should contain only ASCII characters'')
     else bindE (b64decode s) (\<lambda>b. Inr (PBytes b)))"
| "decode_str_data v = Inr v"

fun parse_message :: "pyval \<Rightarrow> WebSocketMessage res" where
  "parse_message (PDict result) = bindE (message_type (dget_or result ''type'' (PInt 1))) (\<lambda>t.
     let data = dget_or result ''data'' (PStr []) in
     bindE (if t = BINARY then decode_str_data data else Inr data) (\<lambda>d.
       Inr \<lparr>wm_type = t, wm_data = d\<rparr>))"
| "parse_message _ = Inl (no_attribute ''get'')"

definition ws_receive :: "ffi_world \<Rightarrow> WebSocketMessage ws" where
  "ws_receive w = bindX (readFst ws_active) (\<lambda>h. case h of
     None \<Rightarrow> raiseX (ws_error ''WebSocket is not connected'')
   | Some handle \<Rightarrow> bindX (onSnd (has_symbol w ''wsReceive'')) (\<lambda>ok. if \<not> ok
       then raiseX (ws_error ''WebSocket receive not supported in this library build'')
       else onSnd (bindX (call_ptr w (WsReceive handle)) (\<lambda>r. case r of
           None \<Rightarrow> raiseX (ws_error ''Failed to receive WebSocket message'')
         | Some (p, _) \<Rightarrow> bindX (finallyX (ffi_string p) (freeString p)) (\<lambda>raw_b64.
             bindX (liftX (b64decode raw_b64)) (\<lambda>raw.
             bindX (liftX (w_unpackb w raw)) (\<lambda>result. liftX (parse_message result))))))))"

definition ws_close :: "ffi_world \<Rightarrow> unit ws" where
  "ws_close w = bindX (readFst ws_active) (\<lambda>h. case h of
     None \<Rightarrow> retX ()
   | Some handle \<Rightarrow> bindX (onSnd (has_symbol w ''wsClose'')) (\<lambda>ok.
       thenX (if ok then bindX (onSnd (call_num w (WsClose handle))) (\<lambda>_. retX ()) else retX ())
         (onFst (\<lambda>c. c\<lparr>ws_handle := None, ws_connected := False\<rparr>))))"

fun ws_iter :: "nat \<Rightarrow> ffi_world \<Rightarrow> ws_conn \<times> ffi_state \<Rightarrow> (ws_conn \<times> ffi_state) \<times> WebSocketMessage list \<times> unit res" where
  "ws_iter 0 w s = (s, [], Inr ())"
| "ws_iter (Suc n) w s = (if \<not> ws_connected (fst s) then (s, [], Inr ())
     else case ws_receive w s of
       (s1, Inl e) \<Rightarrow> (s1, [], if isinstance_exc e WebSocketError then Inr () else Inl e)
     | (s1, Inr m) \<Rightarrow> (case ws_iter n w s1 of (s2, ms, r) \<Rightarrow> (s2, m # ms, r)))"

text \<open>The asynchronous methods run the synchronous ones in an executor and await them; a \<^verbatim>\<open>with\<close> block connects on entry and
  closes on exit, and lets an exception of its body pass.\<close>

definition ws_connect_async :: "ffi_world \<Rightarrow> unit ws" where
  "ws_connect_async w = ws_connect w"

definition ws_send_async :: "ffi_world \<Rightarrow> pyval \<Rightarrow> bool \<Rightarrow> unit ws" where
  "ws_send_async w data binary = ws_send w data binary"

definition ws_receive_async :: "ffi_world \<Rightarrow> WebSocketMessage ws" where
  "ws_receive_async w = ws_receive w"

definition ws_close_async :: "ffi_world \<Rightarrow> unit ws" where
  "ws_close_async w = ws_close w"

definition ws_enter :: "ffi_world \<Rightarrow> unit ws" where
  "ws_enter w = ws_connect w"

definition ws_exit :: "ffi_world \<Rightarrow> unit ws" where
  "ws_exit w = ws_close w"

definition ws_aenter :: "ffi_world \<Rightarrow> unit ws" where
  "ws_aenter w = ws_connect_async w"

definition ws_aexit :: "ffi_world \<Rightarrow> unit ws" where
  "ws_aexit w = ws_close_async w"

fun ws_aiter :: "nat \<Rightarrow> ffi_world \<Rightarrow> ws_conn \<times> ffi_state \<Rightarrow> (ws_conn \<times> ffi_state) \<times> WebSocketMessage list \<times> unit res" where
  "ws_aiter 0 w s = (s, [], Inr ())"
| "ws_aiter (Suc n) w s = (if \<not> ws_connected (fst s) then (s, [], Inr ())
     else case ws_receive_async w s of
       (s1, Inl e) \<Rightarrow> (s1, [], if isinstance_exc e WebSocketError then Inr () else Inl e)
     | (s1, Inr m) \<Rightarrow> (case ws_aiter n w s1 of (s2, ms, r) \<Rightarrow> (s2, m # ms, r)))"

subsection \<open>Lemmas\<close>

definition ws_ok :: "ws_conn \<Rightarrow> bool" where
  "ws_ok c = (if ws_connected c then (\<exists>h. ws_handle c = Some h \<and> h \<noteq> 0) else ws_handle c = None)"

definition ws_rel :: "ws_conn \<times> ffi_state \<Rightarrow> ws_conn \<times> ffi_state \<Rightarrow> bool" where
  "ws_rel = pair_rel (\<lambda>c c'. ws_ok c \<longrightarrow> ws_ok c') balanced"

interpretation ws_keeps: state_relation ws_rel
  by unfold_locales (auto simp: ws_rel_def pair_rel_def balance.refl intro: balance.trans)

lemma keeps_ws_parts:
  "keeps balanced m \<Longrightarrow> keeps ws_rel (onSnd m)" "keeps ws_rel (readFst f)"
  "(\<And>c. ws_ok c \<Longrightarrow> ws_ok (u c)) \<Longrightarrow> keeps ws_rel (onFst u)"
  unfolding ws_rel_def by (simp_all add: keeps_onSnd keeps_readFst keeps_onFst balance.refl)

lemma keeps_ws_connect: "keeps ws_rel (ws_connect w)"
  unfolding ws_connect_def by (intro ws_keeps.keeps_rules keeps_ws_parts keeps_simple) (simp add: ws_ok_def)

lemma keeps_ws_send: "keeps ws_rel (ws_send w data binary)"
  unfolding ws_send_def by (intro ws_keeps.keeps_rules keeps_ws_parts keeps_simple)

lemma keeps_ws_receive: "keeps ws_rel (ws_receive w)"
  unfolding ws_receive_def
  by (intro ws_keeps.keeps_rules keeps_ws_parts keeps_simple keeps_with_block [of "\<lambda>p _. ffi_string p"] reads_block_ffi)

lemma keeps_ws_close: "keeps ws_rel (ws_close w)"
  unfolding ws_close_def by (intro ws_keeps.keeps_rules keeps_ws_parts keeps_simple) (simp add: ws_ok_def)

lemma ws_inert:
  assumes "ws_active c = None"
  shows "ws_send w data binary (c, f) = ((c, f), Inl (ws_error ''WebSocket is not connected''))"
    "ws_receive w (c, f) = ((c, f), Inl (ws_error ''WebSocket is not connected''))"
    "ws_close w (c, f) = ((c, f), Inr ())"
  using assms by (simp_all add: ws_send_def ws_receive_def ws_close_def eff_simps bindX_Inr readFst_apply raiseX_def retX_def)

lemma ws_close_closes:
  assumes "ws_close w s = (s', Inr ())"
  shows "ws_active (fst s') = None"
proof -
  obtain c f where s: "s = (c, f)" by (cases s)
  show ?thesis
  proof (cases "ws_active c")
    case None
    with assms ws_inert(3) [OF None] show ?thesis by (auto simp: s)
  next
    case (Some h)
    with assms have "bindX (onSnd (has_symbol w ''wsClose'')) (\<lambda>ok.
       thenX (if ok then bindX (onSnd (call_num w (WsClose h))) (\<lambda>_. retX ()) else retX ())
         (onFst (\<lambda>c. c\<lparr>ws_handle := None, ws_connected := False\<rparr>))) (c, f) = (s', Inr ())"
      by (simp add: ws_close_def s bindX_Inr readFst_apply)
    then show ?thesis
    proof (cases rule: onSnd_bind_cases)
      case (2 ok f1)
      then show ?thesis
        by (auto simp: thenX_def bindX_def onFst_def updX_def retX_def ws_active_def split: if_splits prod.splits sum.splits)
    qed simp
  qed
qed

interpretation ws_closing: closable "\<lambda>s. ws_active (fst s) \<noteq> None" "ws_close w"
  by unfold_locales (auto simp: ws_inert dest: ws_close_closes)

lemma ws_close_calls:
  assumes "ws_active c = Some h" "lib f = Some path" "''wsClose'' \<in> set (w_symbols w path)"
  shows "ws_close w (c, f) = ((c\<lparr>ws_handle := None, ws_connected := False\<rparr>, external (WsClose h) f), Inr ())"
  using assms has_symbol_loaded [OF assms(2), of w "''wsClose''"] call_num_loaded [OF assms(2), of "WsClose h" w]
  by (simp add: ws_close_def bindX_def thenX_def readFst_def onSnd_def onFst_def readX_def updX_def retX_def)

text \<open>A received reply: the native memory is as before, the message is what the reply says.\<close>

lemma ws_receive_reply:
  assumes "ws_active c = Some h" "lib f = Some path" "''wsReceive'' \<in> set (w_symbols w path)"
    "w_ptr w (length (history f)) (WsReceive h) = Some (b64encode b @ CHR 0x00 # rest, n)" "w_unpackb w b = Inr v"
  shows "\<exists>f'. ws_receive w (c, f) = ((c, f'), parse_message v) \<and> lib f' = lib f"
proof -
  let ?p = "length (history f)" and ?c = "b64encode b @ CHR 0x00 # rest"
  have 1: "call_ptr w (WsReceive h) f = ((external (WsReceive h) f)\<lparr>heap := (?p, ?c) # heap f\<rparr>, Inr (Some (?p, n)))"
    by (rule call_ptr_loaded [OF assms(2) _ assms(4)]) (use assms(3) in simp)
  note 2 = string_then_free [where p = ?p and f = "external (WsReceive h) f" and content = ?c and hs = "heap f", unfolded c_string_b64]
  show ?thesis
    using assms 1 2 has_symbol_loaded [OF assms(2), of w "''wsReceive''"]
    by (simp add: ws_receive_def bindX_def readFst_def readX_def onSnd_def liftX_def external_def)
qed

subsection \<open>Properties\<close>

text \<open>C20. The life of a connection: in every operation, successful or not, a connected object has a valid handle and
  a disconnected one has none, and native memory is balanced; on an object that is not connected,
  \<^verbatim>\<open>send\<close> and \<^verbatim>\<open>receive\<close> raise \<^verbatim>\<open>WebSocketError\<close> and \<^verbatim>\<open>close\<close> does nothing; \<^verbatim>\<open>close\<close> of a
  connected object releases its handle exactly once, however often it is called.\<close>

theorem ws_handle_discipline:
  "ws_rel s (fst (ws_connect w s)) \<and> ws_rel s (fst (ws_send w data binary s)) \<and>
   ws_rel s (fst (ws_receive w s)) \<and> ws_rel s (fst (ws_close w s)) \<and>
   (ws_active (fst s) = None \<longrightarrow> ws_send w data binary s = (s, Inl (ws_error ''WebSocket is not connected'')) \<and>
      ws_receive w s = (s, Inl (ws_error ''WebSocket is not connected'')) \<and> ws_close w s = (s, Inr ())) \<and>
   (\<forall>h path. ws_active (fst s) = Some h \<longrightarrow> lib (snd s) = Some path \<longrightarrow> ''wsClose'' \<in> set (w_symbols w path) \<longrightarrow>
      history (snd (fst (thenX (ws_close w) (ws_close w) s))) = history (snd s) @ [WsClose h] \<and>
      ws_active (fst (fst (thenX (ws_close w) (ws_close w) s))) = None)"
proof -
  obtain c f where s: "s = (c, f)" by (cases s)
  have "history (snd (fst (thenX (ws_close w) (ws_close w) s))) = history f @ [WsClose h] \<and>
      ws_active (fst (fst (thenX (ws_close w) (ws_close w) s))) = None"
    if "ws_active c = Some h" "lib f = Some path" "''wsClose'' \<in> set (w_symbols w path)" for h path
    using ws_closing.close_twice [OF ws_close_calls [OF that]] by (simp add: s external_def ws_active_def)
  then show ?thesis
    using keeps_ws_connect [of w] keeps_ws_send [of w data binary] keeps_ws_receive [of w] keeps_ws_close [of w] ws_inert [of c]
    by (simp add: keeps_def s)
qed

definition example_ws :: ws_conn where
  "example_ws = (ws_init (PStr ''wss://x'') PNone PNone PNone PNone (PInt 30))\<lparr>ws_handle := Some 7, ws_connected := True\<rparr>"

theorem ws_handle_discipline_witness:
  "ws_active (fst (fst (thenX (ws_close example_world) (ws_close example_world)
     (example_ws, initial_ffi\<lparr>lib := Some ''/lib.so''\<rparr>)))) = None"
proof -
  have "ws_active example_ws = Some 7" by (simp add: example_ws_def ws_active_def)
  moreover have "''wsClose'' \<in> set (w_symbols example_world ''/lib.so'')" by (simp add: example_world_def)
  ultimately show ?thesis
    using ws_handle_discipline [of "(example_ws, initial_ffi\<lparr>lib := Some ''/lib.so''\<rparr>)" example_world PNone False] by simp
qed

text \<open>C38. A read error does not end a connection: the library reports it as a reply with an \<^verbatim>\<open>error\<close> entry and no type,
  which \<^verbatim>\<open>receive\<close> takes for an empty text message, so iterating over a failed connection yields empty messages
  for ever.\<close>

theorem ws_read_error_never_ends_iteration:
  assumes "ws_connected c" "ws_handle c = Some h" "lib f = Some path" "''wsReceive'' \<in> set (w_symbols w path)"
    "\<And>i. \<exists>b rest k e. w_ptr w i (WsReceive h) = Some (b64encode b @ CHR 0x00 # rest, k) \<and>
       w_unpackb w b = Inr (PDict [(''error'', e)])"
  shows "\<exists>s'. ws_iter n w (c, f) = (s', replicate n \<lparr>wm_type = TEXT, wm_data = PStr []\<rparr>, Inr ()) \<and> ws_connected (fst s')"
  using assms(3)
proof (induction n arbitrary: f)
  case 0
  with assms(1) show ?case by simp
next
  case (Suc n)
  obtain b rest k e where r: "w_ptr w (length (history f)) (WsReceive h) = Some (b64encode b @ CHR 0x00 # rest, k)"
    "w_unpackb w b = Inr (PDict [(''error'', e)])" using assms(5) by blast
  have m: "parse_message (PDict [(''error'', e)]) = Inr \<lparr>wm_type = TEXT, wm_data = PStr []\<rparr>"
    by (simp add: dget_or_def message_type_def)
  obtain f' where f': "ws_receive w (c, f) = ((c, f'), Inr \<lparr>wm_type = TEXT, wm_data = PStr []\<rparr>)" "lib f' = Some path"
    using ws_receive_reply [OF _ Suc.prems assms(4) r, of c, unfolded m] assms(1,2) Suc.prems by (auto simp: ws_active_def)
  obtain s' where "ws_iter n w (c, f') = (s', replicate n \<lparr>wm_type = TEXT, wm_data = PStr []\<rparr>, Inr ())" "ws_connected (fst s')"
    using Suc.IH [OF f'(2)] by blast
  with f'(1) assms(1) show ?case by simp
qed

theorem ws_read_error_never_ends_iteration_witness:
  "\<exists>s'. ws_iter 1000 (example_world\<lparr>w_ptr := \<lambda>_ _. Some ([CHR 0x00], 0), w_unpackb := \<lambda>_. Inr (PDict [(''error'', PStr ''EOF'')])\<rparr>)
      (example_ws, initial_ffi\<lparr>lib := Some ''/lib.so''\<rparr>) =
    (s', replicate 1000 \<lparr>wm_type = TEXT, wm_data = PStr []\<rparr>, Inr ())"
proof -
  let ?w = "example_world\<lparr>w_ptr := \<lambda>_ _. Some ([CHR 0x00], 0), w_unpackb := \<lambda>_. Inr (PDict [(''error'', PStr ''EOF'')])\<rparr>"
  have "\<exists>b rest k e. w_ptr ?w i (WsReceive 7) = Some (b64encode b @ CHR 0x00 # rest, k) \<and>
       w_unpackb ?w b = Inr (PDict [(''error'', e)])" for i
    by (rule exI [of _ "[]"]) simp
  then show ?thesis
    using ws_read_error_never_ends_iteration [of example_ws 7 "initial_ffi\<lparr>lib := Some ''/lib.so''\<rparr>" "''/lib.so''" ?w 1000]
    by (auto simp: example_ws_def example_world_def)
qed

end
