(* ===== verification/ServerEvents.thy ===== *)
theory ServerEvents
  imports FFI
begin

section \<open>Server-sent events (\<^verbatim>\<open>cycletls/sse.py\<close>)\<close>

text \<open>
  As for WebSockets, an operation works on the connection object and the native library. \<open>sse_iter\<close> is the generator
  \<^verbatim>\<open>__iter__\<close>: the events it yields until it ends, or until \<open>n\<close> were taken.
\<close>

record SSEEvent =
  ev_data :: pyval
  ev_event :: pyval
  ev_id :: pyval
  ev_retry :: pyval

fun first_50 :: "pyval \<Rightarrow> pyval res" where
  "first_50 (PStr s) = Inr (PStr (take 50 s))"
| "first_50 (PBytes b) = Inr (PBytes (take 50 b))"
| "first_50 (PList xs) = Inr (PList (take 50 xs))"
| "first_50 (PTuple xs) = Inr (PTuple (take 50 xs))"
| "first_50 _ = Inl (Exc TypeError ''object is not subscriptable'')"

definition event_str :: "SSEEvent \<Rightarrow> string res" where
  "event_str e = bindE (first_50 (ev_data e)) (\<lambda>d.
     Inr (''SSEEvent(event='' @ py_repr (ev_event e) @ '', data='' @ py_repr d @ ''...)''))"

record sse_conn =
  sse_url :: pyval
  sse_headers :: pyval
  sse_ja3 :: pyval
  sse_user_agent :: pyval
  sse_proxy :: pyval
  sse_timeout :: pyval
  sse_last_event_id :: pyval
  sse_handle :: "int option"
  sse_connected :: bool
  sse_retry_time :: pyval

type_synonym 'a sse = "(sse_conn \<times> ffi_state, 'a) eff"

definition sse_init :: "pyval \<Rightarrow> pyval \<Rightarrow> pyval \<Rightarrow> pyval \<Rightarrow> pyval \<Rightarrow> pyval \<Rightarrow> pyval \<Rightarrow> sse_conn" where
  "sse_init url headers ja3 user_agent proxy timeout last_event_id =
     \<lparr>sse_url = url, sse_headers = py_or headers (PDict []), sse_ja3 = ja3, sse_user_agent = user_agent,
      sse_proxy = proxy, sse_timeout = timeout, sse_last_event_id = last_event_id,
      sse_handle = None, sse_connected = False, sse_retry_time = PInt 3000\<rparr>"

definition sse_error :: "string \<Rightarrow> pyexc" where
  "sse_error msg = Exc SSEError msg"

definition sse_set_truthy :: "string \<Rightarrow> pyval \<Rightarrow> kwargs \<Rightarrow> kwargs" where
  "sse_set_truthy k v d = (if py_truth v then dset d k v else d)"

fun sse_header_dict :: "pyval \<Rightarrow> pyval \<Rightarrow> kwargs res" where
  "sse_header_dict (PDict headers) last_event_id = Inr (sse_set_truthy ''Last-Event-ID'' last_event_id
     (dupdate [(''Accept'', PStr ''text/event-stream''), (''Cache-Control'', PStr ''no-cache'')] headers))"
| "sse_header_dict _ _ = Inl (Exc TypeError ''object is not a mapping'')"

definition sse_options :: "sse_conn \<Rightarrow> kwargs res" where
  "sse_options c = bindE (sse_header_dict (sse_headers c) (sse_last_event_id c)) (\<lambda>headers_dict.
     let d = [(''url'', sse_url c), (''headers'', PDict headers_dict), (''timeout'', sse_timeout c)];
         d = sse_set_truthy ''ja3'' (sse_ja3 c) d;
         d = sse_set_truthy ''userAgent'' (sse_user_agent c) d
     in Inr (sse_set_truthy ''proxy'' (sse_proxy c) d))"

definition sse_connect :: "ffi_world \<Rightarrow> unit sse" where
  "sse_connect w = bindX (readFst sse_connected) (\<lambda>connected. if connected then retX ()
     else bindX (onSnd (has_symbol w ''sseConnect'')) (\<lambda>ok. if \<not> ok
       then raiseX (sse_error (''SSE support requires rebuilding the Go library with SSE exports. '' @
         ''The current library does not have sseConnect exported.''))
     else bindX (readFst (\<lambda>c. c)) (\<lambda>c.
       bindX (liftX (sse_options c)) (\<lambda>options.
       bindX (liftX (w_packb w (PDict options))) (\<lambda>msgpack_data.
       bindX (onSnd (call_num w (SseConnect (b64encode msgpack_data)))) (\<lambda>handle.
         if handle = 0 then raiseX (sse_error (''Failed to connect to SSE endpoint: '' @ py_str (sse_url c)))
         else onFst (\<lambda>c. c\<lparr>sse_handle := Some handle, sse_connected := True\<rparr>)))))))"

definition sse_active :: "sse_conn \<Rightarrow> int option" where
  "sse_active c = (if sse_connected c then sse_handle c else None)"

text \<open>What a decoded reply means: the end of the stream, an error, or an event.\<close>

fun parse_event :: "pyval \<Rightarrow> SSEEvent option res" where
  "parse_event (PDict result) =
     (if py_truth (dget_or result ''eof'' (PBool False)) then Inr None
      else case map_of result ''error'' of
        Some e \<Rightarrow> Inl (sse_error (py_str e))
      | None \<Rightarrow> Inr (Some \<lparr>ev_data = dget_or result ''data'' (PStr []),
          ev_event = dget_or result ''event'' (PStr ''message''), ev_id = dget result ''id'', ev_retry = dget result ''retry''\<rparr>))"
| "parse_event _ = Inl (no_attribute ''get'')"

definition track_event :: "SSEEvent \<Rightarrow> sse_conn \<Rightarrow> sse_conn" where
  "track_event e c =
    (let c = (if py_truth (ev_id e) then c\<lparr>sse_last_event_id := ev_id e\<rparr> else c)
     in if py_truth (ev_retry e) then c\<lparr>sse_retry_time := ev_retry e\<rparr> else c)"

definition sse_next_event :: "ffi_world \<Rightarrow> SSEEvent option sse" where
  "sse_next_event w = bindX (readFst sse_active) (\<lambda>h. case h of
     None \<Rightarrow> raiseX (sse_error ''SSE connection is not active'')
   | Some handle \<Rightarrow> bindX (onSnd (has_symbol w ''sseNextEvent'')) (\<lambda>ok. if \<not> ok
       then raiseX (sse_error ''SSE next_event not supported in this library build'')
       else bindX (onSnd (bindX (call_ptr w (SseNextEvent handle)) (\<lambda>r. case r of
           None \<Rightarrow> retX None
         | Some (p, _) \<Rightarrow> bindX (finallyX (ffi_string p) (freeString p)) (\<lambda>raw_b64.
             bindX (liftX (b64decode raw_b64)) (\<lambda>raw.
             bindX (liftX (w_unpackb w raw)) (\<lambda>result. liftX (parse_event result))))))) (\<lambda>r. case r of
           None \<Rightarrow> thenX (onFst (\<lambda>c. c\<lparr>sse_connected := False\<rparr>)) (retX None)
         | Some e \<Rightarrow> thenX (onFst (track_event e)) (retX (Some e)))))"

definition sse_close :: "ffi_world \<Rightarrow> unit sse" where
  "sse_close w = bindX (readFst sse_active) (\<lambda>h. case h of
     None \<Rightarrow> retX ()
   | Some handle \<Rightarrow> bindX (onSnd (has_symbol w ''sseClose'')) (\<lambda>ok.
       thenX (if ok then bindX (onSnd (call_num w (SseClose handle))) (\<lambda>_. retX ()) else retX ())
         (onFst (\<lambda>c. c\<lparr>sse_handle := None, sse_connected := False\<rparr>))))"

fun sse_iter :: "nat \<Rightarrow> ffi_world \<Rightarrow> sse_conn \<times> ffi_state \<Rightarrow> (sse_conn \<times> ffi_state) \<times> SSEEvent list \<times> unit res" where
  "sse_iter 0 w s = (s, [], Inr ())"
| "sse_iter (Suc n) w s = (if \<not> sse_connected (fst s) then (s, [], Inr ())
     else case sse_next_event w s of
       (s1, Inl e) \<Rightarrow> (s1, [], Inl e)
     | (s1, Inr None) \<Rightarrow> (s1, [], Inr ())
     | (s1, Inr (Some ev)) \<Rightarrow> (case sse_iter n w s1 of (s2, evs, r) \<Rightarrow> (s2, ev # evs, r)))"

text \<open>The asynchronous methods run the synchronous ones in an executor and await them; a \<^verbatim>\<open>with\<close> block connects on entry and
  closes on exit, and lets an exception of its body pass.\<close>

definition sse_connect_async :: "ffi_world \<Rightarrow> unit sse" where
  "sse_connect_async w = sse_connect w"

definition sse_next_event_async :: "ffi_world \<Rightarrow> SSEEvent option sse" where
  "sse_next_event_async w = sse_next_event w"

definition sse_close_async :: "ffi_world \<Rightarrow> unit sse" where
  "sse_close_async w = sse_close w"

definition sse_enter :: "ffi_world \<Rightarrow> unit sse" where
  "sse_enter w = sse_connect w"

definition sse_exit :: "ffi_world \<Rightarrow> unit sse" where
  "sse_exit w = sse_close w"

definition sse_aenter :: "ffi_world \<Rightarrow> unit sse" where
  "sse_aenter w = sse_connect_async w"

definition sse_aexit :: "ffi_world \<Rightarrow> unit sse" where
  "sse_aexit w = sse_close_async w"

fun sse_aiter :: "nat \<Rightarrow> ffi_world \<Rightarrow> sse_conn \<times> ffi_state \<Rightarrow> (sse_conn \<times> ffi_state) \<times> SSEEvent list \<times> unit res" where
  "sse_aiter 0 w s = (s, [], Inr ())"
| "sse_aiter (Suc n) w s = (if \<not> sse_connected (fst s) then (s, [], Inr ())
     else case sse_next_event_async w s of
       (s1, Inl e) \<Rightarrow> (s1, [], Inl e)
     | (s1, Inr None) \<Rightarrow> (s1, [], Inr ())
     | (s1, Inr (Some ev)) \<Rightarrow> (case sse_aiter n w s1 of (s2, evs, r) \<Rightarrow> (s2, ev # evs, r)))"

subsection \<open>Lemmas\<close>

definition sse_rel :: "sse_conn \<times> ffi_state \<Rightarrow> sse_conn \<times> ffi_state \<Rightarrow> bool" where
  "sse_rel = pair_rel (\<lambda>_ _. True) balanced"

interpretation sse_keeps: state_relation sse_rel
  by unfold_locales (auto simp: sse_rel_def pair_rel_def balance.refl intro: balance.trans)

lemma keeps_sse_parts: "keeps balanced m \<Longrightarrow> keeps sse_rel (onSnd m)" "keeps sse_rel (readFst f)" "keeps sse_rel (onFst u)"
  unfolding sse_rel_def by (simp_all add: keeps_onSnd keeps_readFst keeps_onFst balance.refl)

lemma keeps_sse_next_event: "keeps sse_rel (sse_next_event w)"
  unfolding sse_next_event_def
  by (intro sse_keeps.keeps_rules keeps_sse_parts keeps_simple keeps_with_block [of "\<lambda>p _. ffi_string p"] reads_block_ffi)

lemma sse_inert: "sse_active c = None \<Longrightarrow> sse_close w (c, f) = ((c, f), Inr ())"
  by (simp add: sse_close_def bindX_Inr readFst_apply retX_def)

lemma sse_close_closes:
  assumes "sse_close w s = (s', Inr ())"
  shows "sse_active (fst s') = None"
proof -
  obtain c f where s: "s = (c, f)" by (cases s)
  show ?thesis
  proof (cases "sse_active c")
    case None
    with assms sse_inert [OF None] show ?thesis by (auto simp: s)
  next
    case (Some h)
    with assms have "bindX (onSnd (has_symbol w ''sseClose'')) (\<lambda>ok.
       thenX (if ok then bindX (onSnd (call_num w (SseClose h))) (\<lambda>_. retX ()) else retX ())
         (onFst (\<lambda>c. c\<lparr>sse_handle := None, sse_connected := False\<rparr>))) (c, f) = (s', Inr ())"
      by (simp add: sse_close_def s bindX_Inr readFst_apply)
    then show ?thesis
    proof (cases rule: onSnd_bind_cases)
      case (2 ok f1)
      then show ?thesis
        by (auto simp: thenX_def bindX_def onFst_def updX_def retX_def sse_active_def split: if_splits prod.splits sum.splits)
    qed simp
  qed
qed

interpretation sse_closing: closable "\<lambda>s. sse_active (fst s) \<noteq> None" "sse_close w"
  by unfold_locales (auto simp: sse_inert dest: sse_close_closes)

text \<open>The object after a read: unchanged up to the tracking of the event, disconnected at the end of the stream.\<close>

lemma sse_next_event_cases:
  assumes "sse_next_event w (c, f) = ((c', f'), Inr r)"
  shows "(case r of None \<Rightarrow> c' = c\<lparr>sse_connected := False\<rparr> | Some e \<Rightarrow> c' = track_event e c) \<and>
    sse_active c \<noteq> None \<and> balanced f f'"
proof -
  have "balanced f f'" using sse_keeps.keepsD [OF keeps_sse_next_event assms] by (simp add: sse_rel_def pair_rel_def)
  moreover from assms have "(case r of None \<Rightarrow> c' = c\<lparr>sse_connected := False\<rparr> | Some e \<Rightarrow> c' = track_event e c) \<and> sse_active c \<noteq> None"
    unfolding sse_next_event_def
    by (auto simp: readFst_def readX_def raiseX_def retX_def onFst_def updX_def thenX_def elim!: bindX_cases onSnd_bind_cases
        split: option.splits if_splits prod.splits)
  ultimately show ?thesis by simp
qed

lemma track_event_fields:
  "sse_last_event_id (track_event e c) = (if py_truth (ev_id e) then ev_id e else sse_last_event_id c)"
  "sse_retry_time (track_event e c) = (if py_truth (ev_retry e) then ev_retry e else sse_retry_time c)"
  "sse_headers (track_event e c) = sse_headers c" "sse_handle (track_event e c) = sse_handle c"
  "sse_connected (track_event e c) = sse_connected c"
  by (simp_all add: track_event_def Let_def)

lemma sse_options_header:
  assumes "sse_headers c = PDict h" "py_truth (sse_last_event_id c)"
  shows "\<exists>opts hd. sse_options c = Inr opts \<and> map_of opts ''headers'' = Some (PDict hd) \<and>
    map_of hd ''Last-Event-ID'' = Some (sse_last_event_id c)"
  using assms by (simp add: sse_options_def sse_set_truthy_def Let_def)

subsection \<open>Properties\<close>

text \<open>C39. Resumption: reading an event records its id and its retry time when it has them and keeps the earlier ones
  otherwise, leaves the connection and native memory as they were, and the next \<^verbatim>\<open>connect\<close> asks the server to
  continue after the last id seen.\<close>

theorem sse_resumes_after_last_event:
  assumes "sse_next_event w (c, f) = ((c', f'), Inr (Some e))" "sse_headers c = PDict h"
  shows "sse_last_event_id c' = (if py_truth (ev_id e) then ev_id e else sse_last_event_id c) \<and>
    sse_retry_time c' = (if py_truth (ev_retry e) then ev_retry e else sse_retry_time c) \<and>
    sse_active c' = sse_active c \<and> balanced f f' \<and>
    (py_truth (ev_id e) \<longrightarrow> (\<exists>opts hd. sse_options c' = Inr opts \<and> map_of opts ''headers'' = Some (PDict hd) \<and>
       map_of hd ''Last-Event-ID'' = Some (ev_id e)))"
proof -
  from sse_next_event_cases [OF assms(1)] have c': "c' = track_event e c" and b: "balanced f f'" by simp_all
  have "sse_headers c' = PDict h" by (simp add: c' track_event_fields assms(2))
  from sse_options_header [OF this] b show ?thesis
    by (auto simp: c' track_event_fields sse_active_def)
qed

definition example_sse :: sse_conn where
  "example_sse = (sse_init (PStr ''https://x'') PNone PNone PNone PNone (PInt 30) PNone)\<lparr>sse_handle := Some 7, sse_connected := True\<rparr>"

definition example_stream :: "pyval \<Rightarrow> ffi_world" where
  "example_stream v = example_world\<lparr>w_ptr := \<lambda>_ _. Some ([CHR 0x00], 0), w_unpackb := \<lambda>_. Inr v\<rparr>"

abbreviation loaded_ffi :: ffi_state where
  "loaded_ffi \<equiv> initial_ffi\<lparr>lib := Some ''/lib.so''\<rparr>"

theorem sse_resumes_after_last_event_witness:
  "\<exists>c' f' e. sse_next_event (example_stream (PDict [(''id'', PStr ''42''), (''data'', PStr ''x'')])) (example_sse, loaded_ffi) =
      ((c', f'), Inr (Some e)) \<and> sse_last_event_id c' = PStr ''42''"
proof -
  let ?w = "example_stream (PDict [(''id'', PStr ''42''), (''data'', PStr ''x'')])"
  have "case sse_next_event ?w (example_sse, loaded_ffi) of (_, Inr (Some e)) \<Rightarrow> ev_id e = PStr ''42'' | _ \<Rightarrow> False" by code_simp
  then obtain c' f' e where e: "sse_next_event ?w (example_sse, loaded_ffi) = ((c', f'), Inr (Some e))" "ev_id e = PStr ''42''"
    by (auto split: prod.splits sum.splits option.splits)
  moreover have "sse_headers example_sse = PDict []" by (simp add: example_sse_def sse_init_def)
  ultimately show ?thesis using sse_resumes_after_last_event [OF e(1)] by auto
qed

text \<open>After the end of the stream the object is disconnected but keeps its handle, so that \<^verbatim>\<open>close\<close>, also the one
  of a \<^verbatim>\<open>with\<close> block, never calls \<^verbatim>\<open>sseClose\<close>: the native connection of every stream that was read to its end
  stays open.\<close>

theorem sse_end_of_stream_leaks_handle:
  assumes "sse_next_event w (c, f) = ((c', f'), Inr None)"
  shows "(\<exists>h. sse_handle c' = Some h) \<and> \<not> sse_connected c' \<and> sse_close w (c', f') = ((c', f'), Inr ())"
proof -
  from sse_next_event_cases [OF assms] have c': "c' = c\<lparr>sse_connected := False\<rparr>" "sse_active c \<noteq> None" by simp_all
  then have "sse_active c' = None" "\<exists>h. sse_handle c' = Some h" by (auto simp: sse_active_def split: if_splits)
  with sse_inert [of c'] c' show ?thesis by simp
qed

theorem sse_end_of_stream_leaks_handle_witness:
  "\<exists>c' f'. sse_next_event (example_stream (PDict [(''eof'', PBool True)])) (example_sse, loaded_ffi) = ((c', f'), Inr None) \<and>
     sse_handle c' \<noteq> None \<and> sse_close (example_stream (PDict [(''eof'', PBool True)])) (c', f') = ((c', f'), Inr ())"
proof -
  let ?w = "example_stream (PDict [(''eof'', PBool True)])"
  have "case sse_next_event ?w (example_sse, loaded_ffi) of (_, Inr None) \<Rightarrow> True | _ \<Rightarrow> False" by code_simp
  then obtain c' f' where e: "sse_next_event ?w (example_sse, loaded_ffi) = ((c', f'), Inr None)"
    by (auto split: prod.splits sum.splits option.splits)
  with sse_end_of_stream_leaks_handle [OF e] show ?thesis by blast
qed

end
