(* ===== verification/Urls.thy ===== *)
theory Urls
  imports Codec Pyval
begin

section \<open>URLs and query strings\<close>

text \<open>
  What \<^verbatim>\<open>api.py\<close> uses of \<^verbatim>\<open>urllib.parse\<close>, and \<^verbatim>\<open>_merge_url_params\<close> on top of it. \<open>unquote_plus\<close> yields
  an error where the decoded text is not over U+0000 .. U+00FF, the characters of the model. The check of
  bracketed host names for a valid address is left out; unbalanced brackets raise.
\<close>

subsection \<open>Quoting\<close>

definition unreserved :: "char \<Rightarrow> bool" where
  "unreserved c = (let n = of_char c :: nat in is_digit c \<or> (65 \<le> n \<and> n \<le> 90) \<or> (97 \<le> n \<and> n \<le> 122) \<or>
     n = 95 \<or> n = 46 \<or> n = 45 \<or> n = 126)"

definition upper_hex :: "nat \<Rightarrow> char" where
  "upper_hex n = ''0123456789ABCDEF'' ! (n mod 16)"

definition byte_as_char :: "byte \<Rightarrow> char" where
  "byte_as_char b = char_of (unat b)"

definition quote_byte :: "byte \<Rightarrow> string" where
  "quote_byte b = (let c = byte_as_char b in
     if unreserved c then [c] else if unat b = 32 then ''+''
     else [CHR ''%'', upper_hex (unat b div 16), upper_hex (unat b)])"

definition quote_plus_bytes :: "bytes \<Rightarrow> string" where
  "quote_plus_bytes bs = concat (map quote_byte bs)"

definition quote_plus :: "string \<Rightarrow> string" where
  "quote_plus s = quote_plus_bytes (utf8_encode s)"

fun hex_value :: "char \<Rightarrow> nat option" where
  "hex_value c = (let n = of_char c :: nat in
     if 48 \<le> n \<and> n \<le> 57 then Some (n - 48)
     else if 65 \<le> n \<and> n \<le> 70 then Some (n - 55)
     else if 97 \<le> n \<and> n \<le> 102 then Some (n - 87) else None)"

text \<open>Percent decoding after \<^verbatim>\<open>+\<close> became a space; a percent sign without two hex digits stays.\<close>

fun unquote_to_bytes :: "string \<Rightarrow> bytes" where
  "unquote_to_bytes [] = []"
| "unquote_to_bytes (c # s) = (if c = CHR ''+'' then 32 # unquote_to_bytes s
     else if c = CHR ''%'' then (case s of
         a # b # s' \<Rightarrow> (case (hex_value a, hex_value b) of
           (Some x, Some y) \<Rightarrow> word_of_nat (16 * x + y) # unquote_to_bytes s'
         | _ \<Rightarrow> utf8_char c @ unquote_to_bytes s)
       | _ \<Rightarrow> utf8_char c @ unquote_to_bytes s)
     else utf8_char c @ unquote_to_bytes s)"

definition unquote_plus :: "string \<Rightarrow> string res" where
  "unquote_plus s = (case utf8_decode (unquote_to_bytes s) of
     Some t \<Rightarrow> Inr t | None \<Rightarrow> Inl (Exc UnicodeError ''decoded text outside the modelled characters''))"

subsection \<open>Query strings\<close>

fun split_on :: "char \<Rightarrow> string \<Rightarrow> string list" where
  "split_on d [] = [[]]"
| "split_on d (c # s) = (case split_on d s of
     [] \<Rightarrow> []
   | f # fs \<Rightarrow> if c = d then [] # f # fs else (c # f) # fs)"

definition partition_on :: "char \<Rightarrow> string \<Rightarrow> string \<times> string" where
  "partition_on d s = (takeWhile (\<lambda>c. c \<noteq> d) s, drop 1 (dropWhile (\<lambda>c. c \<noteq> d) s))"

text \<open>\<^verbatim>\<open>parse_qsl(qs, keep_blank_values=True)\<close>.\<close>

definition parse_pair :: "string \<Rightarrow> (string \<times> string) res" where
  "parse_pair nv = (let (n, v) = partition_on (CHR ''='') nv in
     bindE (unquote_plus n) (\<lambda>name. bindE (unquote_plus v) (\<lambda>val. Inr (name, val))))"

definition parse_qsl :: "string \<Rightarrow> (string \<times> string) list res" where
  "parse_qsl qs = mapE parse_pair (filter (\<lambda>nv. nv \<noteq> []) (split_on (CHR ''&'') qs))"

definition urlencode :: "(string \<times> string) list \<Rightarrow> string" where
  "urlencode ps = join ''&'' (map (\<lambda>(k, v). quote_plus k @ ''='' @ quote_plus v) ps)"

text \<open>\<^verbatim>\<open>urlencode\<close> of the values of a form: bytes are quoted as they are, everything else as \<^verbatim>\<open>str\<close>.\<close>

fun quote_value :: "pyval \<Rightarrow> string" where
  "quote_value (PBytes b) = quote_plus_bytes b"
| "quote_value (PProtocol p) = quote_plus (protocol_value p)"
| "quote_value v = quote_plus (py_str v)"

definition urlencode_form :: "kwargs \<Rightarrow> string" where
  "urlencode_form d = join ''&'' (map (\<lambda>(k, v). quote_plus k @ ''='' @ quote_value v) d)"

subsection \<open>Splitting and joining\<close>

record SplitResult =
  su_scheme :: string
  su_netloc :: string
  su_path :: string
  su_query :: string
  su_fragment :: string

definition scheme_char :: "char \<Rightarrow> bool" where
  "scheme_char c = (let n = of_char c :: nat in is_digit c \<or> (65 \<le> n \<and> n \<le> 90) \<or> (97 \<le> n \<and> n \<le> 122) \<or>
     n = 43 \<or> n = 45 \<or> n = 46)"

definition ascii_letter :: "char \<Rightarrow> bool" where
  "ascii_letter c = (let n = of_char c :: nat in (65 \<le> n \<and> n \<le> 90) \<or> (97 \<le> n \<and> n \<le> 122))"

definition clean_url :: "string \<Rightarrow> string" where
  "clean_url url = filter (\<lambda>c. (of_char c :: nat) \<notin> {9, 10, 13}) (dropWhile (\<lambda>c. (of_char c :: nat) \<le> 32) url)"

definition split_scheme :: "string \<Rightarrow> string \<times> string" where
  "split_scheme url = (let (pre, post) = partition_on (CHR '':'') url in
     if CHR '':'' \<in> set url \<and> pre \<noteq> [] \<and> ascii_letter (hd pre) \<and> list_all scheme_char pre
     then (lower pre, post) else ([], url))"

definition split_netloc :: "string \<Rightarrow> string \<times> string" where
  "split_netloc url = (if startswith url ''//''
     then (takeWhile (\<lambda>c. c \<notin> set ''/?#'') (drop 2 url), dropWhile (\<lambda>c. c \<notin> set ''/?#'') (drop 2 url))
     else ([], url))"

definition urlsplit :: "string \<Rightarrow> SplitResult res" where
  "urlsplit url0 =
    (let (scheme, url) = split_scheme (clean_url url0);
         (netloc, url) = split_netloc url;
         (url, fragment) = partition_on (CHR ''#'') url;
         (path, query) = partition_on (CHR ''?'') url
     in if (CHR ''['' \<in> set netloc) \<noteq> (CHR '']'' \<in> set netloc) then Inl (Exc ValueError ''Invalid IPv6 URL'')
        else Inr \<lparr>su_scheme = scheme, su_netloc = netloc, su_path = path, su_query = query, su_fragment = fragment\<rparr>)"

definition uses_netloc :: "string list" where
  "uses_netloc = [[], ''ftp'', ''http'', ''gopher'', ''nntp'', ''telnet'', ''imap'', ''wais'', ''file'', ''mms'', ''https'',
     ''shttp'', ''snews'', ''prospero'', ''rtsp'', ''rtsps'', ''rtspu'', ''rsync'', ''svn'', ''svn+ssh'', ''sftp'', ''nfs'',
     ''git'', ''git+ssh'', ''ws'', ''wss'', ''itms-services'']"

definition urlunsplit :: "SplitResult \<Rightarrow> string" where
  "urlunsplit u =
    (let url = su_path u;
         url = (if su_netloc u \<noteq> [] \<or> (su_scheme u \<noteq> [] \<and> su_scheme u \<in> set uses_netloc \<and> \<not> startswith url ''//'')
           then ''//'' @ su_netloc u @ (if url \<noteq> [] \<and> \<not> startswith url ''/'' then ''/'' @ url else url) else url);
         url = (if su_scheme u \<noteq> [] then su_scheme u @ '':'' @ url else url);
         url = (if su_query u \<noteq> [] then url @ ''?'' @ su_query u else url)
     in if su_fragment u \<noteq> [] then url @ ''#'' @ su_fragment u else url)"

subsection \<open>\<^verbatim>\<open>_merge_url_params\<close>\<close>

text \<open>The pairs one parameter contributes: none for \<^verbatim>\<open>None\<close>, one per element of a sequence.\<close>

fun param_values :: "pyval \<Rightarrow> pyval list" where
  "param_values PNone = []"
| "param_values (PList xs) = filter (\<lambda>v. v \<noteq> PNone) xs"
| "param_values (PTuple xs) = filter (\<lambda>v. v \<noteq> PNone) xs"
| "param_values v = [v]"

definition param_pairs :: "pyval \<Rightarrow> pyval \<Rightarrow> (string \<times> string) list" where
  "param_pairs key v = map (\<lambda>x. (py_str key, py_str x)) (param_values v)"

text \<open>\<^verbatim>\<open>for key, value in params\<close>.\<close>

fun unpack_pair :: "pyval \<Rightarrow> (pyval \<times> pyval) res" where
  "unpack_pair (PTuple [k, v]) = Inr (k, v)"
| "unpack_pair (PList [k, v]) = Inr (k, v)"
| "unpack_pair (PStr [k, v]) = Inr (PStr [k], PStr [v])"
| "unpack_pair (PDict [(k, _), (l, _)]) = Inr (PStr k, PStr l)"
| "unpack_pair (PTuple _) = Inl (Exc ValueError ''wrong number of values to unpack (expected 2)'')"
| "unpack_pair (PList _) = Inl (Exc ValueError ''wrong number of values to unpack (expected 2)'')"
| "unpack_pair (PStr _) = Inl (Exc ValueError ''wrong number of values to unpack (expected 2)'')"
| "unpack_pair (PDict _) = Inl (Exc ValueError ''wrong number of values to unpack (expected 2)'')"
| "unpack_pair _ = Inl (Exc TypeError ''cannot unpack non-iterable object'')"

fun param_source :: "pyval \<Rightarrow> (pyval \<times> pyval) list res" where
  "param_source (PDict d) = Inr (map (\<lambda>(k, v). (PStr k, v)) d)"
| "param_source (PList xs) = mapE unpack_pair xs"
| "param_source (PTuple xs) = mapE unpack_pair xs"
| "param_source (PStr s) = mapE unpack_pair (map (\<lambda>c. PStr [c]) s)"
| "param_source _ = Inl (Exc TypeError ''object is not iterable'')"

definition iter_params :: "pyval \<Rightarrow> (string \<times> string) list res" where
  "iter_params params = bindE (param_source params) (\<lambda>kvs. Inr (concat (map (\<lambda>(k, v). param_pairs k v) kvs)))"

definition merge_url_params :: "string \<Rightarrow> pyval \<Rightarrow> string res" where
  "merge_url_params url params = (if \<not> py_truth params then Inr url
     else bindE (urlsplit url) (\<lambda>parsed. bindE (parse_qsl (su_query parsed)) (\<lambda>existing.
       bindE (iter_params params) (\<lambda>new.
         Inr (urlunsplit (parsed\<lparr>su_query := urlencode (existing @ new)\<rparr>))))))"

subsection \<open>Lemmas\<close>

lemma hex_value_upper [simp]: "hex_value (upper_hex n) = Some (n mod 16)"
proof -
  have "list_all (\<lambda>k. hex_value (''0123456789ABCDEF'' ! k) = Some k) [0..<16]" by code_simp
  moreover have "n mod 16 \<in> set [0..<16]" by simp
  ultimately show ?thesis unfolding upper_hex_def list_all_iff by blast
qed

definition url_char :: "char \<Rightarrow> bool" where
  "url_char c = (unreserved c \<or> c = CHR ''+'' \<or> c = CHR ''%'')"

lemma upper_hex_url: "url_char (upper_hex n)"
proof -
  have "list_all (\<lambda>k. url_char (''0123456789ABCDEF'' ! k)) [0..<16]" by code_simp
  moreover have "n mod 16 \<in> set [0..<16]" by simp
  ultimately show ?thesis unfolding upper_hex_def list_all_iff by blast
qed

lemma quote_byte_chars: "c \<in> set (quote_byte b) \<Longrightarrow> url_char c"
  using upper_hex_url [of "unat b"] upper_hex_url [of "unat b div 16"]
  by (auto simp: quote_byte_def Let_def url_char_def split: if_splits)

lemma quote_chars: "c \<in> set (quote_plus_bytes bs) \<Longrightarrow> url_char c"
  by (auto simp: quote_plus_bytes_def dest: quote_byte_chars)

lemma url_char_not_sep: "url_char c \<Longrightarrow> c \<noteq> CHR ''&'' \<and> c \<noteq> CHR ''=''"
proof -
  have "\<not> url_char (CHR ''&'')" "\<not> url_char (CHR ''='')" by code_simp+
  then show "url_char c \<Longrightarrow> c \<noteq> CHR ''&'' \<and> c \<noteq> CHR ''=''" by metis
qed

lemma unquote_unreserved:
  assumes "unreserved (byte_as_char b)"
  shows "unquote_to_bytes (byte_as_char b # s) = b # unquote_to_bytes s"
proof -
  have "\<not> unreserved (CHR ''+'')" "\<not> unreserved (CHR ''%'')" by code_simp+
  with assms have ne: "byte_as_char b \<noteq> CHR ''+''" "byte_as_char b \<noteq> CHR ''%''" by metis+
  have n: "of_char (byte_as_char b) = unat b" using unat_byte_less [of b] by (simp add: byte_as_char_def)
  have "unat b < 128" using assms by (auto simp: unreserved_def is_digit_def Let_def n)
  then have "utf8_char (byte_as_char b) = [b]" by (simp add: utf8_char_def Let_def n)
  with ne show ?thesis by simp
qed

lemma unquote_quote_byte: "unquote_to_bytes (quote_byte b @ s) = b # unquote_to_bytes s"
proof (cases "unreserved (byte_as_char b)")
  case True
  then show ?thesis by (simp add: quote_byte_def Let_def unquote_unreserved del: unquote_to_bytes.simps)
next
  case False
  show ?thesis
  proof (cases "unat b = 32")
    case True
    then have "unat b = unat (32 :: byte)" by simp
    then have "b = 32" by (rule unsigned_word_eqI)
    with False show ?thesis by (simp add: quote_byte_def Let_def)
  next
    case no_space: False
    have "16 * (unat b div 16 mod 16) + unat b mod 16 = unat b" using unat_byte_less [of b] by simp
    with False no_space show ?thesis by (simp add: quote_byte_def Let_def del: hex_value.simps)
  qed
qed

lemma unquote_quote_bytes: "unquote_to_bytes (quote_plus_bytes bs) = bs"
  by (induction bs) (simp_all add: quote_plus_bytes_def unquote_quote_byte del: unquote_to_bytes.simps(2))

lemma unquote_quote [simp]: "unquote_plus (quote_plus s) = Inr s"
  by (simp add: unquote_plus_def quote_plus_def unquote_quote_bytes)

lemma split_on_none: "d \<notin> set s \<Longrightarrow> split_on d s = [s]"
  by (induction s) auto

lemma split_on_append: "d \<notin> set s \<Longrightarrow> split_on d (s @ d # t) = s # split_on d t"
proof (induction s)
  case Nil
  have "split_on d t \<noteq> []" by (induction t) (auto split: list.splits)
  then show ?case by (cases "split_on d t") auto
qed auto

lemma split_on_join: "xs \<noteq> [] \<Longrightarrow> \<forall>x \<in> set xs. d \<notin> set x \<Longrightarrow> split_on d (join [d] xs) = xs"
  by (induction "[d]" xs rule: join.induct) (auto simp: split_on_none split_on_append)

lemma parse_pair_quoted: "parse_pair (quote_plus k @ ''='' @ quote_plus v) = Inr (k, v)"
proof -
  have "CHR ''='' \<notin> set (quote_plus k)" using quote_chars url_char_not_sep unfolding quote_plus_def by blast
  then have "partition_on (CHR ''='') (quote_plus k @ ''='' @ quote_plus v) = (quote_plus k, quote_plus v)"
    by (simp add: partition_on_def takeWhile_append dropWhile_append)
  then show ?thesis by (simp add: parse_pair_def)
qed

lemma parse_urlencode [simp]: "parse_qsl (urlencode ps) = Inr ps"
proof (cases "ps = []")
  case True
  then show ?thesis by (simp add: parse_qsl_def urlencode_def)
next
  case False
  let ?f = "\<lambda>(k, v). quote_plus k @ ''='' @ quote_plus v"
  have "\<forall>x \<in> set (map ?f ps). CHR ''&'' \<notin> set x"
    using quote_chars url_char_not_sep by (fastforce simp: quote_plus_def)
  then have "split_on (CHR ''&'') (urlencode ps) = map ?f ps"
    using False split_on_join [of "map ?f ps" "CHR ''&''"] by (simp add: urlencode_def)
  then have "parse_qsl (urlencode ps) = mapE parse_pair (map ?f ps)"
    by (simp add: parse_qsl_def filter_id_conv split_def)
  also have "\<dots> = Inr ps" by (induction ps) (auto simp: parse_pair_quoted [simplified])
  finally show ?thesis .
qed

subsection \<open>Properties\<close>

text \<open>C16. Attaching parameters to a URL: scheme, host, path and fragment are those of the given URL, and the new query
  string parses to the pairs the URL already had, in order and with blank values, followed by one pair for each
  parameter and for each element of a sequence, without those that are \<^verbatim>\<open>None\<close>; without parameters the URL is
  returned unchanged.\<close>

theorem merge_url_params_appends:
  assumes "urlsplit url = Inr u" "parse_qsl (su_query u) = Inr existing"
  shows "\<exists>q. merge_url_params url (PDict (p # ps)) = Inr (urlunsplit (u\<lparr>su_query := q\<rparr>)) \<and>
    parse_qsl q = Inr (existing @ concat (map (\<lambda>(k, v). map (\<lambda>x. (k, py_str x)) (param_values v)) (p # ps))) \<and>
    merge_url_params url (PDict []) = Inr url \<and> merge_url_params url PNone = Inr url"
proof -
  let ?new = "concat (map (\<lambda>(k, v). map (\<lambda>x. (k, py_str x)) (param_values v)) (p # ps))"
  have "iter_params (PDict (p # ps)) = Inr ?new"
    by (simp add: iter_params_def param_pairs_def comp_def split_def)
  with assms have "merge_url_params url (PDict (p # ps)) = Inr (urlunsplit (u\<lparr>su_query := urlencode (existing @ ?new)\<rparr>))"
    unfolding merge_url_params_def by (simp del: map_eq_conv concat.simps list.map)
  moreover have "merge_url_params url (PDict []) = Inr url" "merge_url_params url PNone = Inr url"
    by (simp_all add: merge_url_params_def)
  ultimately show ?thesis using parse_urlencode by blast
qed

theorem merge_url_params_appends_witness:
  "\<exists>q. merge_url_params ''https://h/p?a=1#f'' (PDict [(''b'', PStr ''x&y'')]) = Inr (urlunsplit
       \<lparr>su_scheme = ''https'', su_netloc = ''h'', su_path = ''/p'', su_query = q, su_fragment = ''f''\<rparr>) \<and>
     parse_qsl q = Inr [(''a'', ''1''), (''b'', ''x&y'')]"
proof -
  let ?u = "\<lparr>su_scheme = ''https'', su_netloc = ''h'', su_path = ''/p'', su_query = ''a=1'', su_fragment = ''f''\<rparr>"
  have "urlsplit ''https://h/p?a=1#f'' = Inr ?u" by code_simp
  moreover have "parse_qsl (su_query ?u) = Inr [(''a'', ''1'')]" by code_simp
  ultimately show ?thesis using merge_url_params_appends [of "''https://h/p?a=1#f''" ?u "[(''a'', ''1'')]" "(''b'', PStr ''x&y'')" "[]"]
    by auto
qed

end
