(* ===== verification/Api.thy ===== *)
theory Api
  imports Fingerprints Urls FFI Batcher
begin

section \<open>The client (\<^verbatim>\<open>cycletls/api.py\<close>)\<close>

text \<open>
  An operation of the client works on \<open>api_state\<close> and the native library. The named arguments of
  \<^verbatim>\<open>request\<close> are the record \<open>request_args\<close>, its other options the dictionary \<open>kw\<close>. \<^verbatim>\<open>**kwargs\<close> makes a new
  dictionary for each call but not new values: the dictionary of headers is the caller's own object (or the one
  of the module defaults), and \<^verbatim>\<open>_prepare_request\<close> changes it in place. \<open>caller_headers\<close> is the content of that
  object; the flag \<open>aliased\<close> says that the headers being prepared are still that object. A call starts with
  \<open>caller_headers\<close> equal to the headers option.

  \<open>api_env\<close> has what is not code of this package: the native world, the JSON serialiser, the parser of ISO dates,
  the random boundary and the guess of a file's type; the identity of the thread; and the registry of
  fingerprints. \<open>e_submit\<close> is what the batcher answers to a request.
\<close>

datatype upload = Plain pyval | Readable "string option" pyval

datatype file_info = FilePair string upload | FileTriple string upload "string option" | FileTupleOther | FileBare upload

datatype fp_arg = FPName string | FPProfile TLSFingerprint

record request_args =
  ra_params :: pyval
  ra_data :: pyval
  ra_json_data :: pyval
  ra_json :: pyval
  ra_files :: "(string \<times> file_info) list option"
  ra_fingerprint :: "fp_arg option"
  ra_auth :: "(pyval \<times> pyval) option"

definition no_args :: request_args where
  "no_args = \<lparr>ra_params = PNone, ra_data = PNone, ra_json_data = PNone, ra_json = PNone, ra_files = None,
     ra_fingerprint = None, ra_auth = None\<rparr>"

record api_env =
  e_world :: ffi_world
  e_json_dumps :: "pyval \<Rightarrow> string res"
  e_fromiso :: "string \<Rightarrow> datetime res"
  e_registry :: registry
  e_thread :: int
  e_boundary :: string
  e_guess_type :: "string \<Rightarrow> string option"
  e_submit :: "pyval \<Rightarrow> pyval res"

record api_state =
  caller_headers :: pyval
  request_counter :: nat

record client =
  cl_closed :: bool
  cl_use_batching :: bool
  cl_batcher :: "nat option"

type_synonym 'a api = "(api_state \<times> ffi_state, 'a) eff"

subsection \<open>Clients and the shared batcher\<close>

definition client_init :: "bool \<Rightarrow> pyval \<Rightarrow> pyval \<Rightarrow> batcher_module \<Rightarrow> client \<times> batcher_module" where
  "client_init use_batching batch_size flush_interval m =
     (if use_batching
      then (case get_batcher batch_size flush_interval m of (i, m') \<Rightarrow>
        (\<lparr>cl_closed = False, cl_use_batching = True, cl_batcher = Some i\<rparr>, m'))
      else (\<lparr>cl_closed = False, cl_use_batching = False, cl_batcher = None\<rparr>, m))"

definition client_close :: "client \<Rightarrow> batcher_module \<Rightarrow> client \<times> batcher_module" where
  "client_close c m = (case cl_batcher c of
     Some _ \<Rightarrow> (c\<lparr>cl_batcher := None, cl_closed := True\<rparr>, shutdown_batcher m)
   | None \<Rightarrow> (c\<lparr>cl_closed := True\<rparr>, m))"

definition client_aclose :: "'a client_scheme \<Rightarrow> 'a client_scheme" where
  "client_aclose c = c\<lparr>cl_closed := True\<rparr>"

text \<open>Blocks \<^verbatim>\<open>with\<close> and \<^verbatim>\<open>async with\<close>. \<^verbatim>\<open>__exit__\<close> calls \<open>close\<close>, the method of the object's own class, \<^verbatim>\<open>__aexit__\<close> the
  \<^verbatim>\<open>aclose\<close> that all classes share. Both return \<^verbatim>\<open>False\<close>: an exception of the block goes on.\<close>

definition client_enter :: "'a client_scheme \<Rightarrow> 'a client_scheme" where
  "client_enter c = c"

definition client_exit :: "('a client_scheme \<Rightarrow> batcher_module \<Rightarrow> 'a client_scheme \<times> batcher_module) \<Rightarrow>
    'a client_scheme \<Rightarrow> batcher_module \<Rightarrow> ('a client_scheme \<times> batcher_module) \<times> bool" where
  "client_exit close c m = (close c m, False)"

definition client_aenter :: "'a client_scheme \<Rightarrow> 'a client_scheme" where
  "client_aenter c = c"

definition client_aexit :: "'a client_scheme \<Rightarrow> 'a client_scheme \<times> bool" where
  "client_aexit c = (client_aclose c, False)"

definition client_del :: "'a client_scheme \<Rightarrow> 'a client_scheme" where
  "client_del c = c\<lparr>cl_closed := True\<rparr>"

subsection \<open>Multipart bodies\<close>

definition crlf :: string where
  "crlf = [char_of (13 :: nat), char_of (10 :: nat)]"

fun upload_name :: "string \<Rightarrow> upload \<Rightarrow> string" where
  "upload_name field (Readable (Some n) _) = n"
| "upload_name field _ = field"

fun upload_data :: "upload \<Rightarrow> bytes res" where
  "upload_data (Plain (PStr s)) = Inr (utf8_encode s)" | "upload_data (Readable _ (PStr s)) = Inr (utf8_encode s)"
| "upload_data (Plain (PBytes b)) = Inr b" | "upload_data (Readable _ (PBytes b)) = Inr b"
| "upload_data _ = Inl (Exc TypeError ''a bytes-like object is required'')"

fun parse_file_info :: "string \<Rightarrow> file_info \<Rightarrow> (string \<times> upload \<times> string option) res" where
  "parse_file_info field (FilePair n u) = Inr (n, u, None)"
| "parse_file_info field (FileTriple n u t) = Inr (n, u, t)"
| "parse_file_info field FileTupleOther =
     Inl (Exc ValueError (''Invalid file info format for field '' @ (CHR 0x27 # field @ [CHR 0x27])))"
| "parse_file_info field (FileBare u) = Inr (upload_name field u, u, None)"

definition field_part :: "string \<Rightarrow> string \<times> pyval \<Rightarrow> bytes" where
  "field_part boundary fv = (case fv of (name, v) \<Rightarrow>
     utf8_encode (''--'' @ boundary @ crlf) @
     utf8_encode (''Content-Disposition: form-data; name='' @ quoted name @ crlf @ crlf) @
     utf8_encode (py_str v) @ utf8_encode crlf)"

definition file_part :: "(string \<Rightarrow> string option) \<Rightarrow> string \<Rightarrow> string \<times> file_info \<Rightarrow> bytes res" where
  "file_part guess boundary fi = (case fi of (name, info) \<Rightarrow>
     bindE (parse_file_info name info) (\<lambda>(filename, u, content_type).
       let ctype = (case content_type of Some t \<Rightarrow> t | None \<Rightarrow>
         (case guess filename of Some t \<Rightarrow> t | None \<Rightarrow> ''application/octet-stream'')) in
       bindE (upload_data u) (\<lambda>file_data.
         Inr (utf8_encode (''--'' @ boundary @ crlf) @
           utf8_encode (''Content-Disposition: form-data; name='' @ quoted name @ ''; filename='' @ quoted filename @ crlf) @
           utf8_encode (''Content-Type: '' @ ctype @ crlf @ crlf) @ file_data @ utf8_encode crlf))))"

definition encode_multipart_formdata :: "api_env \<Rightarrow> kwargs \<Rightarrow> (string \<times> file_info) list \<Rightarrow> (bytes \<times> string) res" where
  "encode_multipart_formdata env form files =
    (let boundary = ''----WebKitFormBoundary'' @ take 16 (e_boundary env) in
     bindE (mapE (file_part (e_guess_type env) boundary) files) (\<lambda>parts.
       Inr (concat (map (field_part boundary) form) @ concat parts @ utf8_encode (''--'' @ boundary @ ''--'' @ crlf),
         ''multipart/form-data; boundary='' @ boundary)))"

subsection \<open>Preparing a request\<close>

definition mutate :: "bool \<Rightarrow> pyval \<Rightarrow> unit api" where
  "mutate aliased h = (if aliased then onFst (\<lambda>s. s\<lparr>caller_headers := h\<rparr>) else retX ())"

text \<open>\<^verbatim>\<open>headers[k] = v\<close> on the object that is being prepared.\<close>

definition set_header :: "bool \<Rightarrow> pyval \<Rightarrow> string \<Rightarrow> string \<Rightarrow> pyval api" where
  "set_header aliased h k v = (case h of
     PDict d \<Rightarrow> thenX (mutate aliased (PDict (dset d k (PStr v)))) (retX (PDict (dset d k (PStr v))))
   | _ \<Rightarrow> raiseX (Exc TypeError ''object does not support item assignment''))"

definition headers_of :: "kwargs \<Rightarrow> pyval" where
  "headers_of kw = py_or (dget kw ''headers'') (PDict [])"

definition step_json :: "request_args \<Rightarrow> pyval api" where
  "step_json a = (if ra_json a = PNone then retX (ra_json_data a)
     else if ra_json_data a \<noteq> PNone
     then raiseX (Exc ValueError (''Cannot specify both '' @ str_repr ''json'' @ '' and '' @ str_repr ''json_data'' @ '' parameters''))
     else retX (ra_json a))"

definition step_auth :: "bool \<Rightarrow> (pyval \<times> pyval) option \<Rightarrow> kwargs \<Rightarrow> kwargs api" where
  "step_auth aliased auth kw = (case auth of
     None \<Rightarrow> retX kw
   | Some (user, password) \<Rightarrow>
       let credentials = b64encode (utf8_encode (py_str user @ '':'' @ py_str password)) in
       bindX (set_header aliased (headers_of kw) ''Authorization'' (''Basic '' @ credentials)) (\<lambda>h.
         retX (dset kw ''headers'' h)))"

definition resolve_fingerprint :: "registry \<Rightarrow> fp_arg \<Rightarrow> TLSFingerprint res" where
  "resolve_fingerprint r f = (case f of FPName n \<Rightarrow> registry_get r n | FPProfile fp \<Rightarrow> Inr fp)"

text \<open>A profile with headers of its own makes a new dictionary; otherwise the hints are added to the given one.\<close>

definition step_fingerprint :: "api_env \<Rightarrow> bool \<Rightarrow> fp_arg option \<Rightarrow> kwargs \<Rightarrow> (bool \<times> kwargs) api" where
  "step_fingerprint env aliased f kw = (case f of
     None \<Rightarrow> retX (aliased, kw)
   | Some farg \<Rightarrow> bindX (liftX (resolve_fingerprint (e_registry env) farg)) (\<lambda>fp.
       bindX (liftX (apply_to_kwargs fp kw)) (\<lambda>kw'.
       let aliased' = (aliased \<and> fp_headers fp = PNone) in
       thenX (mutate aliased' (dget kw' ''headers'')) (retX (aliased', kw')))))"

definition pop_body :: "string \<Rightarrow> pyval \<times> kwargs \<Rightarrow> pyval \<times> kwargs" where
  "pop_body k dk = (case dk of (data, kw) \<Rightarrow>
     if dhas kw k \<and> data = PNone then (dget kw k, ddel kw k) else (data, kw))"

text \<open>The loop over \<^verbatim>\<open>list(headers.items())\<close>. A dictionary with an item is the value of the option \<^verbatim>\<open>headers\<close>, which
  loses the item with it.\<close>

definition step_user_agent :: "bool \<Rightarrow> pyval \<Rightarrow> kwargs \<Rightarrow> (pyval \<times> kwargs) api" where
  "step_user_agent aliased h kw = (case h of
     PDict d \<Rightarrow> (case find (\<lambda>(k, v). lower k = ''user-agent'') d of
       None \<Rightarrow> retX (h, kw)
     | Some (k, v) \<Rightarrow> thenX (mutate aliased (PDict (ddel d k))) 
         (retX (PDict (ddel d k), dset (dset kw ''headers'' (PDict (ddel d k))) ''user_agent'' v)))
   | _ \<Rightarrow> raiseX (no_attribute ''items''))"

text \<open>The body options and the headers: the text body, the bytes body.\<close>

definition step_body :: "api_env \<Rightarrow> bool \<Rightarrow> pyval \<Rightarrow> pyval \<Rightarrow> pyval \<Rightarrow> (pyval \<times> string option \<times> bytes option) api" where
  "step_body env aliased h json_data data =
     (if json_data \<noteq> PNone then
        (if data \<noteq> PNone
         then raiseX (Exc ValueError (''Cannot specify both '' @ str_repr ''data'' @ '' and '' @ str_repr ''json_data'' @ '' parameters''))
         else bindX (liftX (e_json_dumps env json_data)) (\<lambda>b.
           bindX (set_header aliased h ''Content-Type'' ''application/json'') (\<lambda>h. retX (h, Some b, None))))
      else case data of
        PNone \<Rightarrow> retX (h, None, None)
      | PDict d \<Rightarrow> bindX (liftX (py_contains ''Content-Type'' h)) (\<lambda>present.
          if present then retX (h, Some (urlencode_form d), None)
          else bindX (set_header aliased h ''Content-Type'' ''application/x-www-form-urlencoded'') (\<lambda>h.
            retX (h, Some (urlencode_form d), None)))
      | PBytes b \<Rightarrow> retX (h, None, Some b)
      | _ \<Rightarrow> retX (h, Some (py_str data), None))"

definition step_files :: "api_env \<Rightarrow> bool \<Rightarrow> pyval \<Rightarrow> (string \<times> file_info) list option \<Rightarrow> pyval \<Rightarrow> bytes option \<Rightarrow>
    (pyval \<times> bytes option) api" where
  "step_files env aliased h files data body_bytes = (case files of
     None \<Rightarrow> retX (h, body_bytes)
   | Some fs \<Rightarrow> bindX (liftX (encode_multipart_formdata env (case data of PDict d \<Rightarrow> d | _ \<Rightarrow> []) fs)) (\<lambda>(b, content_type).
       bindX (set_header aliased h ''Content-Type'' content_type) (\<lambda>h. retX (h, Some b))))"

definition cookie_of_dict :: "kwargs \<Rightarrow> cookie" where
  "cookie_of_dict c = Cookie (dget_or c ''name'' (PStr [])) (dget_or c ''value'' (PStr [])) (dget c ''path'') (dget c ''domain'')
     PNone (py_or (dget c ''max_age'') (dget c ''maxAge'')) (dget_or c ''secure'' (PBool False))
     (py_or (dget c ''http_only'') (dget_or c ''httpOnly'' (PBool False))) (py_or (dget c ''same_site'') (dget c ''sameSite''))"

fun convert_cookie :: "pyval \<Rightarrow> pyval" where
  "convert_cookie (PDict c) = PCookie (cookie_of_dict c)"
| "convert_cookie c = c"

fun convert_cookies :: "pyval \<Rightarrow> pyval" where
  "convert_cookies (PDict d) = PList (map (\<lambda>(k, v). PCookie (simple_cookie (PStr k) (PStr (py_str v)))) d)"
| "convert_cookies (PList cs) = PList (map convert_cookie cs)"
| "convert_cookies (PJar j) = PList (map (\<lambda>(_, c). PCookie c) j)"
| "convert_cookies v = v"

definition step_cookies :: "kwargs \<Rightarrow> kwargs" where
  "step_cookies kw = (case map_of kw ''cookies'' of
     None \<Rightarrow> kw
   | Some v \<Rightarrow> if v = PNone then kw else dset kw ''cookies'' (convert_cookies v))"

definition next_request_id :: "api_env \<Rightarrow> string api" where
  "next_request_id env = thenX (onFst (\<lambda>s. s\<lparr>request_counter := Suc (request_counter s)\<rparr>))
     (readFst (\<lambda>s. ''req_'' @ int_str (e_thread env) @ ''_'' @ nat_str (request_counter s)))"

definition set_opt :: "string \<Rightarrow> pyval option \<Rightarrow> kwargs \<Rightarrow> kwargs" where
  "set_opt k v kw = (case v of None \<Rightarrow> kw | Some x \<Rightarrow> dset kw k x)"

definition finish_request :: "api_env \<Rightarrow> string \<Rightarrow> string \<Rightarrow> kwargs \<Rightarrow> pyval api" where
  "finish_request env meth url kw =
     bindX (liftX (request_init url meth (step_cookies kw))) (\<lambda>model.
     bindX (liftX (request_to_dict model)) (\<lambda>options.
     bindX (next_request_id env) (\<lambda>rid.
       retX (PDict [(''requestId'', PStr rid), (''options'', PDict options)]))))"

definition store_body :: "pyval \<Rightarrow> string option \<Rightarrow> bytes option \<Rightarrow> kwargs \<Rightarrow> kwargs" where
  "store_body h body body_bytes kw =
    (let kw' = set_opt ''body_bytes'' (map_option PBytes body_bytes) (set_opt ''body'' (map_option PStr body) kw)
     in if py_truth h then dset kw' ''headers'' h else kw')"

definition prepare_request :: "api_env \<Rightarrow> client \<Rightarrow> string \<Rightarrow> string \<Rightarrow> request_args \<Rightarrow> kwargs \<Rightarrow> pyval api" where
  "prepare_request env c meth url a kw =
    (if cl_closed c then raiseX (cycletls_error ''CycleTLS client is closed'')
     else bindX (step_json a) (\<lambda>json_data.
       bindX (step_auth (py_truth (dget kw ''headers'')) (ra_auth a) kw) (\<lambda>kw1.
       bindX (step_fingerprint env (py_truth (dget kw ''headers'')) (ra_fingerprint a) kw1) (\<lambda>(aliased, kw2).
       case pop_body ''body_bytes'' (pop_body ''body'' (ra_data a, kw2)) of (data, kw3) \<Rightarrow>
       bindX (step_user_agent aliased (headers_of kw3) kw3) (\<lambda>(h, kw4).
       bindX (liftX (merge_url_params url (ra_params a))) (\<lambda>url'.
       bindX (step_body env aliased h json_data data) (\<lambda>(h, body, body_bytes).
       bindX (step_files env aliased h (ra_files a) data body_bytes) (\<lambda>(h, body_bytes).
         finish_request env meth url' (store_body h body body_bytes kw4)))))))))"

subsection \<open>Sending\<close>

fun parse_response :: "(string \<Rightarrow> datetime res) \<Rightarrow> pyval \<Rightarrow> Response res" where
  "parse_response fromiso (PDict d) = (case dict_to_response fromiso d True of
     Inr r \<Rightarrow> Inr r
   | Inl e \<Rightarrow> if isinstance_exc e CycleTLSError then Inl e
       else Inl (cycletls_error (''Failed to parse CycleTLS response: '' @ exc_message e)))"
| "parse_response fromiso _ = Inl (cycletls_error ''Invalid response payload received from CycleTLS backend'')"

definition request :: "api_env \<Rightarrow> client \<Rightarrow> string \<Rightarrow> string \<Rightarrow> request_args \<Rightarrow> kwargs \<Rightarrow> Response api" where
  "request env c meth url a kw = bindX (prepare_request env c meth url a kw) (\<lambda>payload.
     case cl_batcher c of
       Some _ \<Rightarrow> bindX (liftX (e_submit env payload)) (\<lambda>result. liftX (parse_response (e_fromiso env) result))
     | None \<Rightarrow> bindX (tryX (onSnd (send_request (e_world env) payload)) Exception (\<lambda>e.
           raiseX (cycletls_error (''Failed to execute CycleTLS request: '' @ exc_message e)))) (\<lambda>response_data.
         liftX (parse_response (e_fromiso env) response_data)))"

text \<open>The verbs pass their arguments on; the asynchronous ones likewise to \<open>arequest\<close>.\<close>

definition api_get :: "api_env \<Rightarrow> client \<Rightarrow> string \<Rightarrow> request_args \<Rightarrow> kwargs \<Rightarrow> Response api" where
  "api_get env c url a kw = request env c ''get'' url a kw"

definition api_options :: "api_env \<Rightarrow> client \<Rightarrow> string \<Rightarrow> request_args \<Rightarrow> kwargs \<Rightarrow> Response api" where
  "api_options env c url a kw = request env c ''options'' url a kw"

definition api_head :: "api_env \<Rightarrow> client \<Rightarrow> string \<Rightarrow> request_args \<Rightarrow> kwargs \<Rightarrow> Response api" where
  "api_head env c url a kw = request env c ''head'' url a kw"

definition api_post :: "api_env \<Rightarrow> client \<Rightarrow> string \<Rightarrow> request_args \<Rightarrow> kwargs \<Rightarrow> Response api" where
  "api_post env c url a kw = request env c ''post'' url a kw"

definition api_put :: "api_env \<Rightarrow> client \<Rightarrow> string \<Rightarrow> request_args \<Rightarrow> kwargs \<Rightarrow> Response api" where
  "api_put env c url a kw = request env c ''put'' url a kw"

definition api_patch :: "api_env \<Rightarrow> client \<Rightarrow> string \<Rightarrow> request_args \<Rightarrow> kwargs \<Rightarrow> Response api" where
  "api_patch env c url a kw = request env c ''patch'' url a kw"

definition api_delete :: "api_env \<Rightarrow> client \<Rightarrow> string \<Rightarrow> request_args \<Rightarrow> kwargs \<Rightarrow> Response api" where
  "api_delete env c url a kw = request env c ''delete'' url a kw"

subsection \<open>Batches\<close>

fun merge_url_value :: "pyval \<Rightarrow> pyval \<Rightarrow> pyval res" where
  "merge_url_value (PStr url) params = bindE (merge_url_params url params) (\<lambda>u. Inr (PStr u))"
| "merge_url_value v params = (if py_truth params then Inl (no_attribute ''decode'') else Inr v)"

text \<open>\<^verbatim>\<open>dict(v or {})\<close>.\<close>

fun str_item :: "pyval \<times> pyval \<Rightarrow> (string \<times> pyval) res" where
  "str_item (PStr k, v) = Inr (k, v)"
| "str_item _ = Inl (Exc TypeError ''header name is not a string'')"

fun copy_dict :: "pyval \<Rightarrow> kwargs res" where
  "copy_dict (PDict d) = Inr d"
| "copy_dict (PList xs) = bindE (mapE unpack_pair xs) (\<lambda>kvs. bindE (mapE str_item kvs) (\<lambda>items. Inr (dupdate [] items)))"
| "copy_dict (PTuple xs) = bindE (mapE unpack_pair xs) (\<lambda>kvs. bindE (mapE str_item kvs) (\<lambda>items. Inr (dupdate [] items)))"
| "copy_dict _ = Inl (Exc TypeError ''object is not iterable'')"

definition batch_body :: "api_env \<Rightarrow> kwargs \<Rightarrow> pyval \<Rightarrow> pyval \<Rightarrow> (kwargs \<times> string option \<times> bytes option) res" where
  "batch_body env headers json_data data =
     (if json_data \<noteq> PNone then
        (if data \<noteq> PNone
         then Inl (Exc ValueError (''Cannot specify both '' @ str_repr ''data'' @ '' and '' @ str_repr ''json_data'' @ '' in batch request''))
         else bindE (e_json_dumps env json_data) (\<lambda>b. Inr (dset headers ''Content-Type'' (PStr ''application/json''), Some b, None)))
      else case data of
        PNone \<Rightarrow> Inr (headers, None, None)
      | PDict d \<Rightarrow> Inr (if dhas headers ''Content-Type'' then headers
          else dset headers ''Content-Type'' (PStr ''application/x-www-form-urlencoded''), Some (urlencode_form d), None)
      | PBytes b \<Rightarrow> Inr (headers, None, Some b)
      | _ \<Rightarrow> Inr (headers, Some (py_str data), None))"

definition batch_ja3 :: string where
  "batch_ja3 = ''771,4865-4866-4867-49195-49199-49196-49200-52393-52392-49171-49172-'' @
     ''156-157-47-53,65037-5-65281-16-45-10-13-0-18-23-35-43-11-27-51-17613,'' @ ''4588-29-23-24,0''"

definition batch_options :: "kwargs \<Rightarrow> pyval \<Rightarrow> kwargs \<Rightarrow> string option \<Rightarrow> kwargs" where
  "batch_options req url headers body =
     [(''url'', url), (''method'', dget_or req ''method'' (PStr ''GET'')), (''headers'', PDict headers),
      (''body'', PStr (case body of None \<Rightarrow> [] | Some b \<Rightarrow> b)),
      (''ja3'', dget_or req ''ja3'' (PStr batch_ja3)), (''userAgent'', dget_or req ''user_agent'' (PStr default_user_agent)),
      (''timeout'', dget_or req ''timeout'' (PInt 30)), (''proxy'', dget_or req ''proxy'' (PStr [])),
      (''disableRedirect'', dget_or req ''disable_redirect'' (PBool False)),
      (''insecureSkipVerify'', dget_or req ''insecure_skip_verify'' (PBool False))]"

definition build_batch_payload :: "api_env \<Rightarrow> kwargs \<Rightarrow> string \<Rightarrow> pyval res" where
  "build_batch_payload env req rid =
     bindE (copy_dict (py_or (dget req ''headers'') (PDict []))) (\<lambda>headers.
     bindE (merge_url_value (dget_or req ''url'' (PStr [])) (dget req ''params'')) (\<lambda>url.
     bindE (batch_body env headers (dget req ''json_data'') (dget req ''data'')) (\<lambda>(headers, body, body_bytes).
     let options = set_opt ''bodyBytes'' (map_option PBytes body_bytes) (batch_options req url headers body) in
     bindE (if dget req ''header_values'' = PNone then Inr options
       else bindE (normalize_header_values (dget req ''header_values'')) (\<lambda>hv. Inr (dset options ''headerValues'' hv))) (\<lambda>options.
       Inr (PDict [(''requestId'', PStr rid), (''options'', PDict options)])))))"

fun build_batch_payloads :: "api_env \<Rightarrow> nat \<Rightarrow> kwargs list \<Rightarrow> pyval list res" where
  "build_batch_payloads env i [] = Inr []"
| "build_batch_payloads env i (req # reqs) = bindE (build_batch_payload env req (''batch_'' @ nat_str i)) (\<lambda>p.
     bindE (build_batch_payloads env (Suc i) reqs) (\<lambda>ps. Inr (p # ps)))"

fun parse_responses :: "(string \<Rightarrow> datetime res) \<Rightarrow> pyval \<Rightarrow> Response list res" where
  "parse_responses fromiso (PList rds) = mapE (parse_response fromiso) rds"
| "parse_responses fromiso _ = Inl (Exc TypeError ''object is not iterable'')"

definition batch :: "api_env \<Rightarrow> client \<Rightarrow> kwargs list \<Rightarrow> Response list api" where
  "batch env c reqs =
    (if cl_closed c then raiseX (cycletls_error ''CycleTLS client is closed'')
     else if reqs = [] then retX []
     else bindX (liftX (build_batch_payloads env 0 reqs)) (\<lambda>payloads.
       bindX (tryX (onSnd (send_batch_request (e_world env) payloads)) Exception (\<lambda>e.
         raiseX (cycletls_error (''Failed to execute batch request: '' @ exc_message e)))) (\<lambda>response_data_list.
       liftX (parse_responses (e_fromiso env) response_data_list))))"

subsection \<open>Asynchronous requests\<close>

definition async_response :: "nat \<Rightarrow> ffi_world \<Rightarrow> pyval \<Rightarrow> int \<Rightarrow> int \<Rightarrow> bool \<Rightarrow> ffi_state \<Rightarrow> (ffi_state \<times> pyval res) option" where
  "async_response fuel w pl poll_interval timeout use_cb f =
    (if \<not> use_cb then send_request_async fuel w pl poll_interval timeout f
     else case has_callback_support w f of
       (f1, Inl e) \<Rightarrow> Some (f1, Inl e)
     | (f1, Inr False) \<Rightarrow> send_request_async fuel w pl poll_interval timeout f1
     | (f1, Inr True) \<Rightarrow> (case send_request_async_callback w pl timeout f1 of
         (f2, Inl e) \<Rightarrow> if isinstance_exc e RuntimeError
           then send_request_async fuel w pl poll_interval timeout f2 else Some (f2, Inl e)
       | (f2, Inr r) \<Rightarrow> Some (f2, Inr r)))"

definition wrap_async_error :: "pyval res \<Rightarrow> pyval res" where
  "wrap_async_error r = (case r of Inr v \<Rightarrow> Inr v
     | Inl e \<Rightarrow> if isinstance_exc e Exception
         then Inl (cycletls_error (''Failed to execute async CycleTLS request: '' @ exc_message e)) else Inl e)"

definition arequest :: "nat \<Rightarrow> api_env \<Rightarrow> client \<Rightarrow> string \<Rightarrow> string \<Rightarrow> request_args \<Rightarrow> int \<Rightarrow> int \<Rightarrow> bool \<Rightarrow> kwargs \<Rightarrow>
    api_state \<times> ffi_state \<Rightarrow> ((api_state \<times> ffi_state) \<times> Response res) option" where
  "arequest fuel env c meth url a poll_interval timeout use_cb kw s =
    (case prepare_request env c meth url a kw s of
       (s1, Inl e) \<Rightarrow> Some (s1, Inl e)
     | ((st, f), Inr pl) \<Rightarrow> (case cl_batcher c of
         Some _ \<Rightarrow> Some ((st, f), bindE (e_submit env pl) (parse_response (e_fromiso env)))
       | None \<Rightarrow> (case async_response fuel (e_world env) pl poll_interval timeout use_cb f of
           None \<Rightarrow> None
         | Some (f', r) \<Rightarrow> Some ((st, f'), bindE (wrap_async_error r) (parse_response (e_fromiso env))))))"

text \<open>With the default poll interval (1 ms) and timeout (30 s) of \<open>send_requests_batch\<close>.\<close>

definition abatch :: "api_env \<Rightarrow> client \<Rightarrow> kwargs list \<Rightarrow> nat list \<Rightarrow>
    api_state \<times> ffi_state \<Rightarrow> ((api_state \<times> ffi_state) \<times> Response list res) option" where
  "abatch env c reqs sched s =
    (if cl_closed c then Some (s, Inl (cycletls_error ''CycleTLS client is closed''))
     else if reqs = [] then Some (s, Inr [])
     else case build_batch_payloads env 0 reqs of
       Inl e \<Rightarrow> Some (s, Inl e)
     | Inr payloads \<Rightarrow> (case send_requests_batch (e_world env) payloads 1000 30000000 sched (snd s) of
         None \<Rightarrow> None
       | Some (f', Inl e) \<Rightarrow> Some ((fst s, f'),
           Inl (cycletls_error (''Failed to execute async batch request: '' @ exc_message e)))
       | Some (f', Inr rds) \<Rightarrow> Some ((fst s, f'), mapE (parse_response (e_fromiso env)) rds)))"

subsection \<open>Lemmas\<close>

lemma map_of_ddel_other [simp]: "x \<noteq> k \<Longrightarrow> map_of (ddel d k) x = map_of d x"
  by (induction d k rule: ddel.induct) auto

lemma isinstance_cycletls_error [simp]: "isinstance_exc (cycletls_error msg) CycleTLSError"
  by (simp add: isinstance_exc_def cycletls_error_def)

lemma parse_response_error: "parse_response fromiso v = Inl e \<Longrightarrow> isinstance_exc e CycleTLSError"
  by (cases v) (auto split: sum.splits if_splits)

lemma wrapped_send_error:
  assumes "bindX (tryX m Exception (\<lambda>e. raiseX (cycletls_error (msg e)))) (\<lambda>v. liftX (parse_response fromiso v)) s = (s', Inl e)"
  shows "isinstance_exc e CycleTLSError"
proof (cases "m s")
  case (Pair s1 r)
  with assms show ?thesis
    by (cases r) (auto simp: bindX_def tryX_def raiseX_def liftX_def dest: parse_response_error)
qed

lemma set_header_Inr:
  assumes "set_header al h k v (st, f) = (s', Inr h')"
  shows "\<exists>d. h = PDict d \<and> h' = PDict (dset d k (PStr v)) \<and>
    s' = ((if al then st\<lparr>caller_headers := h'\<rparr> else st), f)"
  using assms by (cases h) (auto simp: set_header_def mutate_def eff_defs onFst_def)

lemma step_auth_other:
  assumes "step_auth al auth kw s = (s', Inr kw')" "x \<noteq> ''headers''"
  shows "map_of kw' x = map_of kw x"
  using assms by (cases auth) (auto simp: step_auth_def retX_def Let_def elim!: bindX_InrE)

text \<open>The options a profile may set.\<close>

definition fp_options :: "string list" where
  "fp_options = [''ja3'', ''ja4r'', ''http2_fingerprint'', ''quic_fingerprint'', ''user_agent'', ''header_order'',
     ''headers'', ''disable_grease'', ''force_http1'', ''force_http3'']"

lemma filled_other: "x \<notin> set fp_options \<Longrightarrow> map_of (filled fp kw) x = map_of kw x"
  and flagged_other: "x \<notin> set fp_options \<Longrightarrow> map_of (flagged fp kw) x = map_of kw x"
  by (simp_all add: filled_def flagged_def fp_options_def)

lemma apply_to_kwargs_other:
  assumes "apply_to_kwargs fp kw = Inr kw'" "x \<notin> set fp_options"
  shows "map_of kw' x = map_of kw x"
proof -
  have h: "x \<noteq> ''headers''" using assms(2) by (auto simp: fp_options_def)
  from assms(1) show ?thesis
    by (rule apply_to_kwargs_cases) (use assms(2) h in \<open>auto simp: flagged_other filled_other\<close>)
qed

lemma step_fingerprint_other:
  assumes "step_fingerprint env al fa kw s = (s', Inr (al', kw'))" "x \<notin> set fp_options"
  shows "map_of kw' x = map_of kw x"
  using assms
  by (cases fa) (auto simp: step_fingerprint_def retX_def Let_def liftX_def thenX_def apply_to_kwargs_other elim!: bindX_InrE)

lemma pop_body_other:
  assumes "pop_body ''body_bytes'' (pop_body ''body'' (data, kw)) = (data', kw')" "x \<noteq> ''body''" "x \<noteq> ''body_bytes''"
  shows "map_of kw' x = map_of kw x"
  using assms by (auto simp: pop_body_def split: if_splits)

lemma step_user_agent_other:
  assumes "step_user_agent al h kw s = (s', Inr (h', kw'))" "x \<noteq> ''user_agent''" "x \<noteq> ''headers''"
  shows "map_of kw' x = map_of kw x"
  using assms by (cases h) (auto simp: step_user_agent_def retX_def raiseX_def thenX_def elim!: bindX_InrE split: option.splits)

lemma set_opt_other: "x \<noteq> k \<Longrightarrow> map_of (set_opt k v kw) x = map_of kw x"
  by (simp add: set_opt_def split: option.split)

lemma step_cookies_other: "x \<noteq> ''cookies'' \<Longrightarrow> map_of (step_cookies kw) x = map_of kw x"
  by (simp add: step_cookies_def split: option.split)

lemma finish_requestE:
  assumes "finish_request env meth url kw (st, f) = (s', Inr pl)"
  obtains model options where "request_init url meth (step_cookies kw) = Inr model" "request_to_dict model = Inr options"
    "pl = PDict [(''requestId'', PStr (''req_'' @ int_str (e_thread env) @ ''_'' @ nat_str (Suc (request_counter st)))),
       (''options'', PDict options)]"
    "s' = (st\<lparr>request_counter := Suc (request_counter st)\<rparr>, f)"
proof -
  from assms obtain model options where "request_init url meth (step_cookies kw) = Inr model"
    "request_to_dict model = Inr options"
    unfolding finish_request_def by (auto simp: liftX_def elim!: bindX_InrE)
  with assms that show thesis
    by (auto simp: finish_request_def next_request_id_def eff_defs onFst_def readFst_def)
qed

lemma step_json_state: "step_json a s = (s', r) \<Longrightarrow> s' = s"
  by (auto simp: step_json_def raiseX_def retX_def split: if_splits)

text \<open>The steps of a preparation that succeeds.\<close>

lemma prepare_requestE:
  assumes "prepare_request env c meth url a kw s = (s', Inr pl)"
  obtains jd s0 s1 kw1 s2 al kw2 data kw3 s3 h3 kw4 url' s5 h5 body bb s6 h6 bb6
  where "\<not> cl_closed c" "step_json a s = (s0, Inr jd)"
    "step_auth (py_truth (dget kw ''headers'')) (ra_auth a) kw s0 = (s1, Inr kw1)"
    "step_fingerprint env (py_truth (dget kw ''headers'')) (ra_fingerprint a) kw1 s1 = (s2, Inr (al, kw2))"
    "pop_body ''body_bytes'' (pop_body ''body'' (ra_data a, kw2)) = (data, kw3)"
    "step_user_agent al (headers_of kw3) kw3 s2 = (s3, Inr (h3, kw4))"
    "merge_url_params url (ra_params a) = Inr url'"
    "step_body env al h3 jd data s3 = (s5, Inr (h5, body, bb))"
    "step_files env al h5 (ra_files a) data bb s5 = (s6, Inr (h6, bb6))"
    "finish_request env meth url' (store_body h6 body bb6 kw4) s6 = (s', Inr pl)"
proof -
  have open_c: "\<not> cl_closed c" using assms by (auto simp: prepare_request_def raiseX_def)
  from assms open_c show thesis
    unfolding prepare_request_def if_not_P [OF open_c]
    apply (elim bindX_InrE)
    apply (clarsimp elim!: bindX_InrE simp: liftX_def split: prod.splits)
    apply (rule that)
    apply assumption+
    done
qed

text \<open>A preparation does not touch the native library, whether it succeeds or not.\<close>

abbreviation no_native :: "api_state \<times> ffi_state \<Rightarrow> api_state \<times> ffi_state \<Rightarrow> bool" where
  "no_native \<equiv> pair_rel (\<lambda>_ _. True) (=)"

interpretation client_only: state_relation no_native
  by unfold_locales (auto simp: pair_rel_def)

lemma keeps_prod_case: "(\<And>x y. p = (x, y) \<Longrightarrow> keeps R (f x y)) \<Longrightarrow> keeps R (case p of (x, y) \<Rightarrow> f x y)"
  by (cases p) simp

lemma keeps_mutate: "keeps no_native (mutate al h)"
  by (auto simp: mutate_def intro: keeps_onFst client_only.keeps_rules)

lemma keeps_set_header: "keeps no_native (set_header al h k v)"
  unfolding set_header_def by (cases h) (simp_all add: client_only.keeps_rules keeps_mutate)

lemmas client_rules = client_only.keeps_rules keeps_mutate keeps_set_header keeps_onFst keeps_readFst keeps_prod_case

lemma keeps_steps:
  "keeps no_native (step_json a)" "keeps no_native (step_auth al auth kw)"
  "keeps no_native (step_fingerprint env al fa kw)" "keeps no_native (step_user_agent al h kw)"
  "keeps no_native (step_files env al h files data bb)" "keeps no_native (finish_request env meth url kw)"
  unfolding step_json_def step_auth_def step_fingerprint_def step_files_def finish_request_def next_request_id_def Let_def
  by (intro client_rules TrueI refl | simp add: step_user_agent_def client_rules split: pyval.split option.split)+

lemma keeps_step_body: "keeps no_native (step_body env al h jd data)"
  unfolding step_body_def by (cases data) (simp_all add: client_rules)

lemma keeps_prepare_request: "keeps no_native (prepare_request env c meth url a kw)"
  unfolding prepare_request_def by (intro client_rules keeps_steps keeps_step_body)

lemma prepare_request_native: "prepare_request env c meth url a kw (st, f) = ((st', f'), r) \<Longrightarrow> f' = f"
  using client_only.keepsD [OF keeps_prepare_request] by (fastforce simp: pair_rel_def)

lemma request_unbatched:
  assumes "cl_batcher c = None" "prepare_request env c meth url a kw s = (s1, Inr pl)"
  shows "request env c meth url a kw s =
    bindX (tryX (onSnd (send_request (e_world env) pl)) Exception (\<lambda>e.
      raiseX (cycletls_error (''Failed to execute CycleTLS request: '' @ exc_message e))))
      (\<lambda>v. liftX (parse_response (e_fromiso env) v)) s1"
  using assms by (simp add: request_def eff_simps)

lemma request_raised:
  "prepare_request env c meth url a kw s = (s1, Inl e) \<Longrightarrow> request env c meth url a kw s = (s1, Inl e)"
  by (simp add: request_def eff_simps)

lemma parse_response_Inr:
  "parse_response fromiso v = Inr r \<Longrightarrow> \<exists>d. v = PDict d \<and> dict_to_response fromiso d True = Inr r"
  by (cases v) (auto split: sum.splits if_splits)

subsection \<open>Properties\<close>

text \<open>C4. \<^verbatim>\<open>request\<close> of a client that does not batch. A closed client raises and changes nothing. While a request is
  prepared the native library is not called, and an error of the preparation is the result. Once it is prepared,
  every exception that leaves \<^verbatim>\<open>request\<close> is a \<^verbatim>\<open>CycleTLSError\<close>, and a response is the conversion of the
  dictionary the library answered to exactly the prepared payload. In every case the blocks of the native library
  are balanced.\<close>

theorem request_outcomes:
  assumes "cl_batcher c = None" "request env c meth url a kw (st, f) = ((st', f'), r)"
  shows "(cl_closed c \<longrightarrow> st' = st \<and> f' = f \<and> r = Inl (cycletls_error ''CycleTLS client is closed'')) \<and>
    (case prepare_request env c meth url a kw (st, f) of
       ((st1, f1), Inl e) \<Rightarrow> st' = st1 \<and> f' = f \<and> r = Inl e
     | ((st1, f1), Inr pl) \<Rightarrow> st' = st1 \<and> f1 = f \<and> f' = fst (send_request (e_world env) pl f) \<and>
         (case r of Inl e \<Rightarrow> isinstance_exc e CycleTLSError
          | Inr resp \<Rightarrow> \<exists>d. send_request (e_world env) pl f = (f', Inr (PDict d)) \<and>
              dict_to_response (e_fromiso env) d True = Inr resp)) \<and>
    balanced f f'"
proof -
  obtain st1 f1 r1 where p: "prepare_request env c meth url a kw (st, f) = ((st1, f1), r1)" by (metis prod.exhaust)
  have f1: "f1 = f" by (rule prepare_request_native [OF p])
  have closed: "cl_closed c \<Longrightarrow> st' = st \<and> f' = f \<and> r = Inl (cycletls_error ''CycleTLS client is closed'')"
    using assms(2) by (simp add: request_def prepare_request_def eff_defs)
  show ?thesis
  proof (cases r1)
    case (Inl e)
    from assms(2) request_raised [OF p [unfolded Inl]] have "st' = st1" "f' = f1" "r = Inl e" by simp_all
    with closed p f1 Inl show ?thesis by (simp add: balance.refl)
  next
    case (Inr pl)
    note req = request_unbatched [OF assms(1) p [unfolded Inr]]
    obtain f2 r2 where s: "send_request (e_world env) pl f1 = (f2, r2)" by (metis prod.exhaust)
    have "balanced f f2" using balance.keepsD [OF keeps_send_request s] f1 by simp
    moreover have "st' = st1 \<and> f' = f2"
      using assms(2) req s by (cases r2) (auto simp: eff_defs onSnd_def)
    moreover have "case r of Inl e \<Rightarrow> isinstance_exc e CycleTLSError
        | Inr resp \<Rightarrow> \<exists>d. r2 = Inr (PDict d) \<and> dict_to_response (e_fromiso env) d True = Inr resp"
    proof (cases r)
      case (Inl e)
      with assms(2) req show ?thesis by (auto intro: wrapped_send_error)
    next
      case (Inr resp)
      with assms(2) req s show ?thesis
        by (cases r2) (auto simp: eff_defs onSnd_def dest: parse_response_Inr)
    qed
    ultimately show ?thesis using closed p f1 s Inr by (cases r) (simp_all, blast)
  qed
qed

definition example_env :: api_env where
  "example_env = \<lparr>e_world = example_world, e_json_dumps = (\<lambda>v. Inr (py_repr v)),
     e_fromiso = (\<lambda>_. Inl (Exc ValueError ''not a date'')), e_registry = [], e_thread = 7,
     e_boundary = ''0123456789abcdef0123456789abcdef'', e_guess_type = (\<lambda>_. None), e_submit = (\<lambda>_. Inr PNone)\<rparr>"

definition plain_client :: client where
  "plain_client = \<lparr>cl_closed = False, cl_use_batching = False, cl_batcher = None\<rparr>"

definition example_state :: "api_state \<times> ffi_state" where
  "example_state = (\<lparr>caller_headers = PNone, request_counter = 0\<rparr>, initial_ffi)"

theorem request_outcomes_witness:
  "\<exists>st' f' r. request example_env plain_client ''get'' ''https://a.b'' no_args [] example_state = ((st', f'), r) \<and>
     balanced initial_ffi f'"
proof -
  obtain st' f' r where
    q: "request example_env plain_client ''get'' ''https://a.b'' no_args [] example_state = ((st', f'), r)"
    by (metis prod.exhaust)
  have "cl_batcher plain_client = None" by (simp add: plain_client_def)
  from request_outcomes [OF this q [unfolded example_state_def]] q show ?thesis by blast
qed

text \<open>The option a prepared payload carries.\<close>

fun sent_option :: "pyval res \<Rightarrow> string \<Rightarrow> pyval option" where
  "sent_option (Inr (PDict [(_, _), (_, PDict options)])) k = map_of options k"
| "sent_option _ k = None"

lemma step_cookies_none: "map_of kw ''cookies'' = None \<Longrightarrow> step_cookies kw = kw"
  by (simp add: step_cookies_def)

lemma request_init_option:
  assumes "request_init url meth kw = Inr m"
  shows "rq_timeout m = dget_or kw ''timeout'' (PInt 6)" "rq_user_agent m = dget_or kw ''user_agent'' (PStr default_user_agent)"
    "rq_headers m = dget_or kw ''headers'' (PDict [])"
  using assms by (auto simp: request_init_def split: list.splits)

lemma store_body_other: "x \<notin> {''body'', ''body_bytes'', ''headers''} \<Longrightarrow> map_of (store_body h b bb kw) x = map_of kw x"
  by (simp add: store_body_def Let_def set_opt_other)

lemma prepare_request_timeout:
  assumes "prepare_request env c meth url a kw s = (s', Inr pl)" "map_of kw ''timeout'' = None"
  shows "sent_option (Inr pl) ''timeout'' = Some (PInt 6)"
  using assms(1)
proof (rule prepare_requestE)
  fix jd s0 s1 kw1 s2 al kw2 data kw3 s3 h3 kw4 url' s5 h5 body bb h6 bb6 and s6 :: "api_state \<times> ffi_state"
  assume steps: "step_auth (py_truth (dget kw ''headers'')) (ra_auth a) kw s0 = (s1, Inr kw1)"
    "step_fingerprint env (py_truth (dget kw ''headers'')) (ra_fingerprint a) kw1 s1 = (s2, Inr (al, kw2))"
    "pop_body ''body_bytes'' (pop_body ''body'' (ra_data a, kw2)) = (data, kw3)"
    "step_user_agent al (headers_of kw3) kw3 s2 = (s3, Inr (h3, kw4))"
    and fin: "finish_request env meth url' (store_body h6 body bb6 kw4) s6 = (s', Inr pl)"
  have "''timeout'' \<notin> set fp_options" by code_simp
  then have none: "map_of kw4 ''timeout'' = None"
    using assms(2) step_auth_other [OF steps(1)] step_fingerprint_other [OF steps(2)] pop_body_other [OF steps(3)]
      step_user_agent_other [OF steps(4)] by simp
  obtain st f where s6: "s6 = (st, f)" by (cases s6)
  from fin [unfolded s6] show ?thesis
  proof (rule finish_requestE)
    fix m options
    assume m: "request_init url' meth (step_cookies (store_body h6 body bb6 kw4)) = Inr m"
      and o: "request_to_dict m = Inr options"
      and pl: "pl = PDict [(''requestId'', PStr (''req_'' @ int_str (e_thread env) @ ''_'' @
        nat_str (Suc (request_counter st)))), (''options'', PDict options)]"
    have "map_of (step_cookies (store_body h6 body bb6 kw4)) ''timeout'' = None"
      by (simp add: step_cookies_other store_body_other none)
    then have "rq_timeout m = PInt 6" using request_init_option(1) [OF m] by (simp add: dget_or_def)
    then have "timeout_int (rq_timeout m) = Inr 6" by (simp add: timeout_int_def)
    then have "map_of options ''timeout'' = Some (PInt 6)"
      by (subst request_to_dict_plain [OF o]) (simp_all add: plain_options_def Let_def required_options_def)
    with pl show ?thesis by simp
  qed
qed

text \<open>C35. The \<^verbatim>\<open>timeout\<close> of \<^verbatim>\<open>arequest\<close> never reaches the request: it is a named parameter, so it is not among the
  options that are prepared, and the payload always tells the Go library the default of 6 seconds, whatever
  waiting time the caller asked for.\<close>

theorem arequest_timeout_not_sent:
  assumes "map_of kw ''timeout'' = None" "cl_batcher c = None"
    and "arequest fuel env c meth url a poll_interval timeout use_cb kw s = Some (s', r)"
  shows "case prepare_request env c meth url a kw s of
      (s1, Inl e) \<Rightarrow> s' = s1 \<and> r = Inl e
    | (s1, Inr pl) \<Rightarrow> sent_option (Inr pl) ''timeout'' = Some (PInt 6) \<and>
        (\<exists>f' resp. async_response fuel (e_world env) pl poll_interval timeout use_cb (snd s1) = Some (f', resp) \<and>
           s' = (fst s1, f') \<and> r = bindE (wrap_async_error resp) (parse_response (e_fromiso env)))"
proof -
  obtain st f p where prep: "prepare_request env c meth url a kw s = ((st, f), p)" by (metis prod.exhaust)
  show ?thesis
  proof (cases p)
    case (Inr pl)
    with prep assms(1) have "sent_option (Inr pl) ''timeout'' = Some (PInt 6)" by (metis prepare_request_timeout)
    with assms(2,3) prep Inr show ?thesis by (simp add: arequest_def split: option.splits prod.splits)
  qed (use assms(3) prep in \<open>simp add: arequest_def\<close>)
qed

theorem arequest_timeout_not_sent_witness:
  "\<exists>s' r s1 pl. arequest 99 example_env plain_client ''get'' ''https://a.b'' no_args 0 60 False [] example_state = Some (s', r) \<and>
     prepare_request example_env plain_client ''get'' ''https://a.b'' no_args [] example_state = (s1, Inr pl) \<and>
     sent_option (Inr pl) ''timeout'' = Some (PInt 6)"
proof -
  let ?q = "arequest 99 example_env plain_client ''get'' ''https://a.b'' no_args 0 60 False [] example_state"
  have "?q \<noteq> None" by code_simp
  then obtain s' r where q: "?q = Some (s', r)" by auto
  have "isl (snd (prepare_request example_env plain_client ''get'' ''https://a.b'' no_args [] example_state)) = False"
    by code_simp
  then obtain s1 pl where
    p: "prepare_request example_env plain_client ''get'' ''https://a.b'' no_args [] example_state = (s1, Inr pl)"
    by (metis prod.collapse isl_def sum.exhaust)
  have "map_of [] ''timeout'' = (None :: pyval option)" "cl_batcher plain_client = None" by (simp_all add: plain_client_def)
  from arequest_timeout_not_sent [OF this q] p q show ?thesis by auto
qed

text \<open>Preparing a request that has only headers.\<close>

lemma to_dict_default:
  assumes "request_init url meth kw = Inr m" "map_of kw ''timeout'' = None" "map_of kw ''protocol'' = None"
    "map_of kw ''cookies'' = None" "map_of kw ''header_values'' = None"
  shows "\<exists>options. request_to_dict m = Inr options"
proof -
  have "rq_timeout m = dget_or kw ''timeout'' (PInt 6)" "rq_protocol m = dget kw ''protocol''"
    "rq_cookies m = dget kw ''cookies''" "rq_header_values m = dget kw ''header_values''"
    using assms(1) by (auto simp: request_init_def split: list.splits)
  then show ?thesis using assms(2-) by (simp add: request_to_dict_def Let_def opt_setE_def timeout_int_def dget_def dget_or_def)
qed

lemma prepare_headers_only:
  assumes "\<not> cl_closed c" "d \<noteq> []"
  defines "ua \<equiv> find (\<lambda>(k, v). lower k = ''user-agent'') d"
  shows "\<exists>st' pl. prepare_request env c meth url no_args [(''headers'', PDict d)] (st, f) = ((st', f), Inr pl) \<and>
    sent_option (Inr pl) ''userAgent'' = Some (case ua of None \<Rightarrow> PStr default_user_agent | Some (_, v) \<Rightarrow> v) \<and>
    sent_option (Inr pl) ''headers'' = Some (PDict (case ua of None \<Rightarrow> d | Some (k, _) \<Rightarrow> ddel d k)) \<and>
    caller_headers st' = (case ua of None \<Rightarrow> caller_headers st | Some (k, _) \<Rightarrow> PDict (ddel d k))"
proof -
  define kw where "kw = (case ua of None \<Rightarrow> [(''headers'', PDict d)]
    | Some (k, v) \<Rightarrow> [(''headers'', PDict (ddel d k)), (''user_agent'', v)])"
  define st1 where "st1 = (case ua of None \<Rightarrow> st | Some (k, _) \<Rightarrow> st\<lparr>caller_headers := PDict (ddel d k)\<rparr>)"
  have "prepare_request env c meth url no_args [(''headers'', PDict d)] (st, f) = finish_request env meth url kw (st1, f)"
    using assms(1,2) by (cases ua) (auto simp: prepare_request_def no_args_def step_json_def step_auth_def
      step_fingerprint_def pop_body_def step_user_agent_def merge_url_params_def step_body_def step_files_def
      store_body_def set_opt_def headers_of_def mutate_def eff_simps ua_def [symmetric] kw_def st1_def Let_def)
  moreover obtain m where m: "request_init url meth (step_cookies kw) = Inr m"
    by (cases ua) (auto simp: kw_def request_init_def request_fields_def step_cookies_none)
  moreover obtain options where o: "request_to_dict m = Inr options"
    using to_dict_default [OF m] by (cases ua) (auto simp: kw_def step_cookies_none)
  moreover have "map_of options ''userAgent'' = Some (rq_user_agent m)" "map_of options ''headers'' = Some (rq_headers m)"
    by (subst request_to_dict_plain [OF o]; simp add: plain_options_def Let_def required_options_def)+
  moreover have "rq_user_agent m = (case ua of None \<Rightarrow> PStr default_user_agent | Some (_, v) \<Rightarrow> v)"
    "rq_headers m = PDict (case ua of None \<Rightarrow> d | Some (k, _) \<Rightarrow> ddel d k)"
    using request_init_option(2,3) [OF m] by (cases ua; auto simp: kw_def step_cookies_none dget_or_def)+
  ultimately show ?thesis
    by (cases ua) (auto simp: finish_request_def next_request_id_def eff_simps st1_def)
qed

lemma find_None_ddel:
  assumes "\<And>k' v. (k', v) \<in> set d \<Longrightarrow> P k' \<Longrightarrow> k' = k" "distinct (dkeys d)"
  shows "find (\<lambda>(k, v). P k) (ddel d k) = None"
proof -
  have "map_of (ddel d k) k = None" using assms(2) by (simp add: map_of_ddel)
  then have "k \<notin> fst ` set (ddel d k)" by (simp add: map_of_eq_None_iff)
  moreover have "set (ddel d k) \<subseteq> set d" by (rule set_ddel_subset)
  ultimately have "\<not> P k'" if "(k', v) \<in> set (ddel d k)" for k' v
    using that assms(1) [of k' v] by (metis fst_conv image_eqI subsetD)
  then show ?thesis unfolding find_None_iff by blast
qed

text \<open>C34. \<^verbatim>\<open>_prepare_request\<close> changes the caller's dictionary of headers. When two requests are made with the same
  dictionary, the first sends its User-Agent and removes it from the caller's dictionary, and the second sends the
  built-in User-Agent of the package instead.\<close>

theorem user_agent_lost_on_reuse:
  assumes "\<not> cl_closed c" "distinct (dkeys d)" "(k, ua) \<in> set d" "lower k = ''user-agent''"
    and only: "list_all (\<lambda>(k', v). lower k' = ''user-agent'' \<longrightarrow> k' = k) d"
    and other: "ddel d k \<noteq> []"
  shows "\<exists>st1 pl1 st2 pl2.
    prepare_request env c meth url no_args [(''headers'', PDict d)] (st, f) = ((st1, f), Inr pl1) \<and>
    sent_option (Inr pl1) ''userAgent'' = Some ua \<and> caller_headers st1 = PDict (ddel d k) \<and>
    prepare_request env c meth url no_args [(''headers'', caller_headers st1)] (st1, f) = ((st2, f), Inr pl2) \<and>
    sent_option (Inr pl2) ''userAgent'' = Some (PStr default_user_agent)"
proof -
  have u: "\<And>k' v. (k', v) \<in> set d \<Longrightarrow> lower k' = ''user-agent'' \<Longrightarrow> k' = k"
    using only by (auto simp: list_all_iff)
  obtain k0 v0 where k0: "find (\<lambda>(k, v). lower k = ''user-agent'') d = Some (k0, v0)"
    using assms(3,4) by (cases "find (\<lambda>(k, v). lower k = ''user-agent'') d") (auto simp: find_None_iff)
  then have mem: "(k0, v0) \<in> set d" and "lower k0 = ''user-agent''"
    by (auto simp: find_Some_iff) (metis nth_mem)
  with u have "k0 = k" by blast
  moreover have "v0 = ua" using mem assms(2,3) \<open>k0 = k\<close> by (metis map_of_eq_Some_iff option.inject)
  ultimately have find: "find (\<lambda>(k, v). lower k = ''user-agent'') d = Some (k, ua)" using k0 by simp
  have d: "d \<noteq> []" using assms(3) by auto
  have none: "find (\<lambda>(k, v). lower k = ''user-agent'') (ddel d k) = None"
    by (rule find_None_ddel [OF u assms(2)])
  obtain st1 pl1 where first: "prepare_request env c meth url no_args [(''headers'', PDict d)] (st, f) = ((st1, f), Inr pl1)"
    "sent_option (Inr pl1) ''userAgent'' = Some ua" "caller_headers st1 = PDict (ddel d k)"
    using prepare_headers_only [OF assms(1) d, of env meth url st f] by (auto simp: find)
  obtain st2 pl2 where "prepare_request env c meth url no_args [(''headers'', PDict (ddel d k))] (st1, f) = ((st2, f), Inr pl2)"
    "sent_option (Inr pl2) ''userAgent'' = Some (PStr default_user_agent)"
    using prepare_headers_only [OF assms(1) other, of env meth url st1 f] by (auto simp: none)
  with first show ?thesis by (intro exI [of _ st1] exI [of _ pl1] exI [of _ st2] exI [of _ pl2]) simp
qed

theorem user_agent_lost_on_reuse_witness:
  "\<exists>st1 pl1 st2 pl2. let d = [(''Accept'', PStr ''*/*''), (''User-Agent'', PStr ''me/1.0'')] in
    prepare_request example_env plain_client ''get'' ''https://a.b'' no_args [(''headers'', PDict d)] example_state =
      ((st1, initial_ffi), Inr pl1) \<and>
    sent_option (Inr pl1) ''userAgent'' = Some (PStr ''me/1.0'') \<and>
    prepare_request example_env plain_client ''get'' ''https://a.b'' no_args [(''headers'', caller_headers st1)]
      (st1, initial_ffi) = ((st2, initial_ffi), Inr pl2) \<and>
    sent_option (Inr pl2) ''userAgent'' = Some (PStr default_user_agent)"
proof -
  let ?d = "[(''Accept'', PStr ''*/*''), (''User-Agent'', PStr ''me/1.0'')]"
  have only: "list_all (\<lambda>(k, v). lower k = ''user-agent'' \<longrightarrow> k = ''User-Agent'') ?d" by code_simp
  have l: "lower ''User-Agent'' = ''user-agent''" by code_simp
  have "\<not> cl_closed plain_client" "distinct (dkeys ?d)" "(''User-Agent'', PStr ''me/1.0'') \<in> set ?d" "ddel ?d ''User-Agent'' \<noteq> []"
    by (simp_all add: plain_client_def)
  from user_agent_lost_on_reuse [OF this(1,2,3) l only this(4), where env = example_env and
    meth = "''get''" and url = "''https://a.b''" and st = "\<lparr>caller_headers = PNone, request_counter = 0\<rparr>" and f = initial_ffi]
  show ?thesis unfolding Let_def example_state_def by blast
qed

lemma is_digit_underscore [simp]: "\<not> is_digit CHR ''_''" "\<not> is_digit CHR ''-''"
  by code_simp+

lemma takeWhile_int_str: "takeWhile (\<lambda>c. c \<noteq> CHR ''_'') (int_str n @ CHR ''_'' # cs) = int_str n"
proof -
  have "\<And>c. c \<in> set (int_str n) \<Longrightarrow> c \<noteq> CHR ''_''"
    using nat_str_digits by (fastforce simp: int_str_def split: if_splits)
  then show ?thesis by (simp add: takeWhile_append2)
qed

lemma int_str_inject [simp]: "int_str m = int_str n \<longleftrightarrow> m = n"
proof -
  have "nat_str k \<noteq> CHR ''-'' # cs" for k cs
    using nat_str_digits [of "CHR ''-''" k] by auto
  then show ?thesis by (auto simp: int_str_def dest: sym split: if_splits)
qed

lemma numbered_payloads:
  assumes "build_batch_payloads env n reqs = Inr pls"
  shows "length pls = length reqs \<and> (\<forall>j < length pls. \<exists>options.
    pls ! j = PDict [(''requestId'', PStr (''batch_'' @ nat_str (n + j))), (''options'', options)])"
  using assms
proof (induction reqs arbitrary: n pls)
  case (Cons req reqs)
  then obtain p ps where p: "build_batch_payload env req (''batch_'' @ nat_str n) = Inr p"
    and ps: "build_batch_payloads env (Suc n) reqs = Inr ps" and pls: "pls = p # ps"
    by (auto simp: bindE_eq_Inr)
  from p obtain options where "p = PDict [(''requestId'', PStr (''batch_'' @ nat_str n)), (''options'', options)]"
    by (auto simp: build_batch_payload_def Let_def bindE_eq_Inr split: prod.splits)
  with Cons.IH [OF ps] show ?case unfolding pls by (auto simp: nth_Cons split: nat.split)
qed simp

text \<open>The identifiers of requests are unique: \<^verbatim>\<open>_next_request_id\<close> counts up in its thread, and two calls give the
  same identifier only when they are made by threads of the same identity at the same value of the counter. The
  requests of a batch are numbered from 0 in their order.\<close>

theorem request_ids_unique:
  assumes "next_request_id env (st1, f1) = ((st1', f1'), Inr i1)" "next_request_id env' (st2, f2) = ((st2', f2'), Inr i2)"
    and "build_batch_payloads benv 0 reqs = Inr pls"
  shows "request_counter st1' = Suc (request_counter st1) \<and>
    (i1 = i2 \<longleftrightarrow> e_thread env = e_thread env' \<and> request_counter st1 = request_counter st2) \<and>
    length pls = length reqs \<and>
    (\<forall>j < length pls. \<exists>options. pls ! j = PDict [(''requestId'', PStr (''batch_'' @ nat_str j)), (''options'', options)])"
proof -
  have ids: "i1 = ''req_'' @ int_str (e_thread env) @ ''_'' @ nat_str (Suc (request_counter st1))"
    "i2 = ''req_'' @ int_str (e_thread env') @ ''_'' @ nat_str (Suc (request_counter st2))"
    and c: "request_counter st1' = Suc (request_counter st1)"
    using assms(1,2) by (auto simp: next_request_id_def eff_simps)
  have "i1 = i2 \<longleftrightarrow> int_str (e_thread env) @ CHR ''_'' # nat_str (Suc (request_counter st1)) =
      int_str (e_thread env') @ CHR ''_'' # nat_str (Suc (request_counter st2))"
    by (simp add: ids)
  also have "\<dots> \<longleftrightarrow> e_thread env = e_thread env' \<and> request_counter st1 = request_counter st2"
  proof
    assume *: "int_str (e_thread env) @ CHR ''_'' # nat_str (Suc (request_counter st1)) =
      int_str (e_thread env') @ CHR ''_'' # nat_str (Suc (request_counter st2))"
    from arg_cong [OF *, of "takeWhile (\<lambda>c. c \<noteq> CHR ''_'')"] have "e_thread env = e_thread env'"
      unfolding takeWhile_int_str by simp
    with * show "e_thread env = e_thread env' \<and> request_counter st1 = request_counter st2" by simp
  qed simp
  finally show ?thesis using c numbered_payloads [OF assms(3), unfolded add_0] by blast
qed

theorem request_ids_unique_witness:
  "\<exists>s1 s2 i1 i2 pls. next_request_id example_env example_state = (s1, Inr i1) \<and>
     next_request_id (example_env\<lparr>e_thread := 8\<rparr>) example_state = (s2, Inr i2) \<and> i1 \<noteq> i2 \<and>
     build_batch_payloads example_env 0 [[(''url'', PStr ''https://a.b'')]] = Inr pls \<and> length pls = 1"
proof -
  have "isl (build_batch_payloads example_env 0 [[(''url'', PStr ''https://a.b'')]]) = False" by code_simp
  then obtain pls where pls: "build_batch_payloads example_env 0 [[(''url'', PStr ''https://a.b'')]] = Inr pls"
    by (cases "build_batch_payloads example_env 0 [[(''url'', PStr ''https://a.b'')]]") auto
  obtain st1 f1 i1 where n1: "next_request_id example_env example_state = ((st1, f1), Inr i1)"
    by (auto simp: next_request_id_def example_state_def eff_simps)
  obtain st2 f2 i2 where n2: "next_request_id (example_env\<lparr>e_thread := 8\<rparr>) example_state = ((st2, f2), Inr i2)"
    by (auto simp: next_request_id_def example_state_def eff_simps)
  from request_ids_unique [OF n1 [unfolded example_state_def] n2 [unfolded example_state_def] pls]
  have "i1 \<noteq> i2" "length pls = 1" by (simp_all add: example_env_def)
  with n1 n2 pls show ?thesis by blast
qed

text \<open>The options of a request in a batch that are read.\<close>

definition batch_keys :: "string list" where
  "batch_keys = [''url'', ''method'', ''params'', ''data'', ''json_data'', ''headers'', ''ja3'', ''user_agent'', ''timeout'', ''proxy'',
     ''disable_redirect'', ''insecure_skip_verify'', ''header_values'']"

text \<open>\<^verbatim>\<open>batch\<close> and \<^verbatim>\<open>abatch\<close> read thirteen options and silently drop all others: two requests that agree on those
  thirteen give the same payload. The documentation promises any other option of a request (cookies, JA4, the
  fingerprint, HTTP/2 settings) as well.\<close>

theorem batch_drops_other_options:
  assumes "list_all (\<lambda>k. map_of req1 k = map_of req2 k) batch_keys"
  shows "build_batch_payload env req1 rid = build_batch_payload env req2 rid"
proof -
  have g: "dget req1 k = dget req2 k" "dget_or req1 k v = dget_or req2 k v" if "k \<in> set batch_keys" for k v
    using that assms by (simp_all add: list_all_iff dget_def dget_or_def)
  show ?thesis unfolding build_batch_payload_def batch_options_def by (simp add: g batch_keys_def cong: if_cong)
qed

theorem batch_drops_other_options_witness:
  "build_batch_payload example_env [(''url'', PStr ''https://a.b'')] ''batch_0'' =
   build_batch_payload example_env [(''url'', PStr ''https://a.b''), (''cookies'', PDict [(''sid'', PStr ''1'')]), (''ja4r'', PStr ''t13d'')] ''batch_0''"
  by (rule batch_drops_other_options) code_simp

end
