(* ===== verification/Multipart.thy ===== *)
theory Multipart
  imports Api
begin

section \<open>Multipart bodies read back\<close>

text \<open>
  What \<^verbatim>\<open>_encode_multipart_formdata\<close> of \<^verbatim>\<open>cycletls/api.py\<close> (modelled in \<open>Api\<close>) promises: a reader of
  multipart bodies finds the parts that were written. \<open>form_parts\<close> is the list of parts that a form and its files
  stand for, \<open>read_form\<close> a reader as RFC 7578 has it, which knows nothing of the encoder but the header
  \<^verbatim>\<open>Content-Type\<close>.
\<close>

subsection \<open>The parts of a form\<close>

datatype part = Part (part_name: string) (part_file: "(string \<times> string) option") (part_value: bytes)

definition field_entry :: "string \<times> pyval \<Rightarrow> part" where
  "field_entry fv = Part (fst fv) None (utf8_encode (py_str (snd fv)))"

definition file_type :: "(string \<Rightarrow> string option) \<Rightarrow> string \<Rightarrow> string option \<Rightarrow> string" where
  "file_type guess filename given = (case given of Some t \<Rightarrow> t | None \<Rightarrow>
     (case guess filename of Some t \<Rightarrow> t | None \<Rightarrow> ''application/octet-stream''))"

definition file_entry :: "(string \<Rightarrow> string option) \<Rightarrow> string \<times> file_info \<Rightarrow> part res" where
  "file_entry guess fi = bindE (parse_file_info (fst fi) (snd fi)) (\<lambda>(filename, u, given).
     bindE (upload_data u) (\<lambda>content. Inr (Part (fst fi) (Some (filename, file_type guess filename given)) content)))"

definition form_parts :: "api_env \<Rightarrow> kwargs \<Rightarrow> (string \<times> file_info) list \<Rightarrow> part list res" where
  "form_parts env form files =
     bindE (mapE (file_entry (e_guess_type env)) files) (\<lambda>uploads. Inr (map field_entry form @ uploads))"

subsection \<open>A reader\<close>

text \<open>\<open>break_at d xs\<close> are the elements before and after the first occurrence of \<open>d\<close>, \<open>split_all d xs\<close> the pieces between all
  of them (\<^verbatim>\<open>bytes.partition\<close> and \<^verbatim>\<open>bytes.split\<close>).\<close>

fun break_at :: "'a list \<Rightarrow> 'a list \<Rightarrow> ('a list \<times> 'a list) option" where
  "break_at d [] = (if d = [] then Some ([], []) else None)"
| "break_at d (x # xs) = (if prefix d (x # xs) then Some ([], drop (length d) (x # xs))
     else map_option (\<lambda>(before, after). (x # before, after)) (break_at d xs))"

fun split_all :: "'a list \<Rightarrow> 'a list \<Rightarrow> 'a list list" where
  "split_all d [] = [[]]"
| "split_all d (x # xs) = (if d \<noteq> [] \<and> prefix d (x # xs) then [] # split_all d (drop (length d - 1) xs)
     else (case split_all d xs of [] \<Rightarrow> [[x]] | p # ps \<Rightarrow> (x # p) # ps))"

definition double_quote :: char where
  "double_quote = char_of (34 :: nat)"

definition read_quoted :: "string \<Rightarrow> string \<times> string" where
  "read_quoted s = (takeWhile (\<lambda>c. c \<noteq> double_quote) s, drop 1 (dropWhile (\<lambda>c. c \<noteq> double_quote) s))"

definition after :: "string \<Rightarrow> string \<Rightarrow> string option" where
  "after p s = (if startswith s p then Some (drop (length p) s) else None)"

definition name_prefix :: string where
  "name_prefix = ''Content-Disposition: form-data; name='' @ [double_quote]"

definition filename_prefix :: string where
  "filename_prefix = ''; filename='' @ [double_quote]"

definition type_prefix :: string where
  "type_prefix = crlf @ ''Content-Type: ''"

definition read_head :: "string \<Rightarrow> (string \<times> (string \<times> string) option) option" where
  "read_head h = Option.bind (after name_prefix h) (\<lambda>s. case read_quoted s of (name, s') \<Rightarrow>
     if s' = [] then Some (name, None)
     else Option.bind (after filename_prefix s') (\<lambda>t. case read_quoted t of (filename, t') \<Rightarrow>
       Option.bind (after type_prefix t') (\<lambda>ctype. Some (name, Some (filename, ctype)))))"

definition read_part :: "bytes \<Rightarrow> part option" where
  "read_part piece = Option.bind (break_at (utf8_encode (crlf @ crlf)) (drop 2 piece)) (\<lambda>(head, content).
     Option.bind (utf8_decode head) (\<lambda>h. Option.bind (read_head h) (\<lambda>(name, file). Some (Part name file content))))"

definition delimiter :: "string \<Rightarrow> bytes" where
  "delimiter boundary = utf8_encode (crlf @ ''--'' @ boundary)"

fun all_some :: "'a option list \<Rightarrow> 'a list option" where
  "all_some [] = Some []"
| "all_some (x # xs) = Option.bind x (\<lambda>y. map_option (\<lambda>ys. y # ys) (all_some xs))"

definition read_parts :: "string \<Rightarrow> bytes \<Rightarrow> part list option" where
  "read_parts boundary body = (case split_all (delimiter boundary) (utf8_encode crlf @ body) of
     [] \<Rightarrow> None | _ # pieces \<Rightarrow> all_some (map read_part (butlast pieces)))"

definition read_form :: "string \<Rightarrow> bytes \<Rightarrow> part list option" where
  "read_form content_type body =
     Option.bind (after ''multipart/form-data; boundary='' content_type) (\<lambda>boundary. read_parts boundary body)"

text \<open>The encoder writes names as they are: a reader can only find them when they have no quote and no line break, and
  the content when the delimiter does not occur in it.\<close>

definition cr :: char where
  "cr = CHR 0x0D"

definition plain_name :: "string \<Rightarrow> bool" where
  "plain_name s = (double_quote \<notin> set s \<and> cr \<notin> set s)"

definition readable :: "string \<Rightarrow> part \<Rightarrow> bool" where
  "readable boundary p = (plain_name (part_name p) \<and>
     (case part_file p of None \<Rightarrow> True | Some (filename, ctype) \<Rightarrow> plain_name filename \<and> cr \<notin> set ctype) \<and>
     \<not> sublist (delimiter boundary) (utf8_encode crlf @ part_value p))"

subsection \<open>Searching\<close>

lemma break_at_skip:
  "c \<notin> set xs \<Longrightarrow> break_at (c # d) (xs @ ys) = map_option (\<lambda>(before, after). (xs @ before, after)) (break_at (c # d) ys)"
  by (induction xs) (auto simp: option.map_comp comp_def case_prod_unfold option.map_ident)

lemma no_straddle:
  assumes "prefix (c # d) (p @ (c # d) @ r)" "c \<notin> set d" "p \<noteq> []"
  shows "prefix (c # d) p"
proof -
  from assms(1) consider "prefix (c # d) p" | us where "c # d = p @ us" "prefix us ((c # d) @ r)"
    unfolding prefix_append by blast
  then show ?thesis
  proof cases
    case us: 2
    show ?thesis
    proof (cases us)
      case (Cons u us')
      with us(2) have "us = c # us'" by simp
      moreover obtain x p' where "p = x # p'" using assms(3) by (cases p) auto
      ultimately have "d = p' @ c # us'" using us(1) by simp
      then show ?thesis using assms(2) by simp
    qed (use us in simp)
  qed
qed

lemma split_all_append:
  assumes "c \<notin> set d" "\<not> sublist (c # d) p"
  shows "split_all (c # d) (p @ (c # d) @ r) = p # split_all (c # d) r"
  using assms(2)
proof (induction p)
  case (Cons x p)
  then have p: "\<not> prefix (c # d) (x # p)" "\<not> sublist (c # d) p" by (auto simp: sublist_Cons_right)
  from no_straddle [of c d "x # p" r] assms(1) p(1) have "\<not> prefix (c # d) ((x # p) @ (c # d) @ r)" by blast
  then show ?case using Cons.IH [OF p(2)] by simp
qed simp

lemma split_all_none: "\<not> sublist d p \<Longrightarrow> split_all d p = [p]"
  by (induction p) (auto simp: sublist_Cons_right)

lemma sublist_skip: "c \<notin> set xs \<Longrightarrow> sublist (c # d) (xs @ ys) = sublist (c # d) ys"
  by (induction xs) (auto simp: sublist_Cons_right)

lemma split_all_parts:
  assumes "c \<notin> set d" "\<forall>p \<in> set ps. \<not> sublist (c # d) p" "\<not> sublist (c # d) z"
  shows "split_all (c # d) (concat (map (\<lambda>p. (c # d) @ p) ps) @ (c # d) @ z) = [] # ps @ [z]"
proof -
  have "split_all (c # d) (q @ concat (map (\<lambda>p. (c # d) @ p) ps) @ (c # d) @ z) = q # ps @ [z]"
    if "\<not> sublist (c # d) q" for q
    using assms(2) that
  proof (induction ps arbitrary: q)
    case Nil
    then show ?case using split_all_append [OF assms(1) Nil(2), of z] split_all_none [OF assms(3)] by simp
  next
    case (Cons p ps)
    then show ?case
      using split_all_append [OF assms(1) Cons.prems(2), of "p @ concat (map (\<lambda>p. (c # d) @ p) ps) @ (c # d) @ z"] by simp
  qed
  from this [of "[]"] show ?thesis by simp
qed


subsection \<open>Bytes and characters\<close>

lemma utf8_append [simp]: "utf8_encode (s @ t) = utf8_encode s @ utf8_encode t"
  by (simp add: utf8_encode_def)

lemma utf8_ascii: "of_char c < (128 :: nat) \<Longrightarrow> utf8_encode (c # s) = word_of_nat (of_char c) # utf8_encode s"
  by (simp add: utf8_encode_def utf8_char_def)

lemma of_char_cr: "of_char cr = (13 :: nat)"
  by (simp add: cr_def)

lemma cr_byte_char: "(13 :: byte) \<in> set (utf8_char c) \<longleftrightarrow> c = cr"
proof -
  define n where "n = (of_char c :: nat)"
  have n: "n < 256" unfolding n_def by (rule nat_of_char_less_256)
  have byte: "(13 :: byte) = word_of_nat m \<longleftrightarrow> m mod 256 = 13" for m
    using word_unat_eq_iff [of "13 :: byte" "word_of_nat m"] by (auto simp: unat_of_nat)
  have "c = cr \<longleftrightarrow> n = 13" unfolding n_def by (metis char_of_char of_char_cr)
  moreover have "(192 + n div 64) mod 256 \<noteq> 13" "(128 + n mod 64) mod 256 \<noteq> 13" using n by (simp_all add: mod_if)
  ultimately show ?thesis using n by (simp add: utf8_char_def Let_def byte del: of_nat_add flip: n_def)
qed

lemma cr_byte [simp]: "(13 :: byte) \<in> set (utf8_encode s) \<longleftrightarrow> cr \<in> set s"
  by (auto simp: utf8_encode_def cr_byte_char)

lemma crlf_bytes: "utf8_encode crlf = [13, 10]"
  by (simp add: crlf_def utf8_ascii) (simp add: utf8_encode_def)

lemma delimiter_bytes: "delimiter b = 13 # 10 # 45 # 45 # utf8_encode b"
  by (simp add: delimiter_def crlf_bytes utf8_ascii)

subsection \<open>Heads of parts\<close>

definition head_of :: "part \<Rightarrow> string" where
  "head_of p = ''Content-Disposition: form-data; name='' @ quoted (part_name p) @
     (case part_file p of None \<Rightarrow> [] | Some (filename, ctype) \<Rightarrow>
       ''; filename='' @ quoted filename @ crlf @ ''Content-Type: '' @ ctype)"

lemma read_quoted: "double_quote \<notin> set s \<Longrightarrow> read_quoted (s @ double_quote # r) = (s, r)"
  by (induction s) (auto simp: read_quoted_def)

lemma after_append [simp]: "after p (p @ s) = Some s"
  by (simp add: after_def startswith_def)

lemma quoted_def': "quoted s = double_quote # s @ [double_quote]"
  by (simp add: quoted_def double_quote_def)

lemma read_head: "plain_name (part_name p) \<Longrightarrow> (\<And>f t. part_file p = Some (f, t) \<Longrightarrow> plain_name f) \<Longrightarrow>
    read_head (head_of p) = Some (part_name p, part_file p)"
proof (cases "part_file p")
  case None
  assume "plain_name (part_name p)"
  moreover have "head_of p = name_prefix @ part_name p @ double_quote # []"
    by (simp add: head_of_def None quoted_def' name_prefix_def)
  ultimately show ?thesis by (simp add: read_head_def None read_quoted plain_name_def del: append.simps)
next
  case (Some ft)
  obtain f t where ft: "ft = (f, t)" by (cases ft)
  assume "plain_name (part_name p)" "\<And>f t. part_file p = Some (f, t) \<Longrightarrow> plain_name f"
  moreover have "head_of p = name_prefix @ part_name p @ double_quote # (filename_prefix @ f @ double_quote # (type_prefix @ t))"
    by (simp add: head_of_def Some ft quoted_def' name_prefix_def filename_prefix_def type_prefix_def)
  ultimately show ?thesis
    by (simp add: read_head_def Some ft read_quoted plain_name_def)
qed
subsection \<open>Pieces of a body\<close>

lemma skip_line:
  "13 \<notin> set l \<Longrightarrow> l \<noteq> [] \<Longrightarrow> hd l \<noteq> 45 \<Longrightarrow>
    sublist ((13 :: byte) # 10 # 45 # d) (13 # 10 # l @ r) = sublist (13 # 10 # 45 # d) r"
  by (cases l) (auto simp: sublist_Cons_right sublist_skip)

lemma break_line:
  "13 \<notin> set l \<Longrightarrow> l \<noteq> [] \<Longrightarrow> break_at [13 :: byte, 10, 13, 10] (13 # 10 # l @ r) =
    map_option (\<lambda>(before, after). (13 # 10 # l @ before, after)) (break_at [13, 10, 13, 10] r)"
  using break_at_skip [of 13 l "[10, 13, 10]" r]
  by (cases l) (auto simp: option.map_comp comp_def case_prod_unfold)

definition head_line :: "part \<Rightarrow> bytes" where
  "head_line p = utf8_encode (''Content-Disposition: form-data; name='' @ quoted (part_name p) @
     (case part_file p of None \<Rightarrow> [] | Some (filename, _) \<Rightarrow> ''; filename='' @ quoted filename))"

definition type_line :: "string \<Rightarrow> bytes" where
  "type_line ctype = utf8_encode (''Content-Type: '' @ ctype)"

lemma head_lines: "utf8_encode (head_of p) = head_line p @
    (case part_file p of None \<Rightarrow> [] | Some (_, ctype) \<Rightarrow> utf8_encode crlf @ type_line ctype)"
  by (auto simp: head_of_def head_line_def type_line_def split: option.split simp del: append.simps(2))

lemma type_line: "type_line t \<noteq> []" "hd (type_line t) \<noteq> 45" "13 \<in> set (type_line t) \<longleftrightarrow> cr \<in> set t"
  unfolding type_line_def cr_byte by (simp_all add: utf8_ascii cr_def)

lemma cr_not_quote: "CHR 0x0D \<noteq> char_of (34 :: nat)"
  by code_simp

lemma head_line: "head_line p \<noteq> []" "hd (head_line p) \<noteq> 45"
    "readable b p \<Longrightarrow> 13 \<notin> set (head_line p)"
    "readable b p \<Longrightarrow> part_file p = Some (f, t) \<Longrightarrow> 13 \<notin> set (type_line t)"
  unfolding head_line_def cr_byte type_line
  by (auto simp: utf8_ascii cr_def cr_not_quote quoted_def readable_def plain_name_def split: option.splits)

definition piece_of :: "part \<Rightarrow> bytes" where
  "piece_of p = 13 # 10 # utf8_encode (head_of p) @ 13 # 10 # 13 # 10 # part_value p"

lemma piece_clean: "readable b p \<Longrightarrow> \<not> sublist (delimiter b) (piece_of p)"
proof -
  assume r: "readable b p"
  let ?rest = "13 # 10 # 13 # 10 # part_value p"
  have "\<not> sublist (delimiter b) (13 # 10 # part_value p)" using r by (simp add: readable_def crlf_bytes)
  then have tail: "\<not> sublist (delimiter b) ?rest" by (simp add: delimiter_bytes sublist_Cons_right)
  have line: "sublist (delimiter b) (13 # 10 # l @ x) = sublist (delimiter b) x"
    if "13 \<notin> set l" "l \<noteq> []" "hd l \<noteq> 45" for l x
    using that unfolding delimiter_bytes by (rule skip_line)
  show ?thesis
  proof (cases "part_file p")
    case None
    then show ?thesis using tail by (simp add: piece_of_def head_lines crlf_bytes line head_line(1,2) head_line(3) [OF r])
  next
    case (Some ft)
    then obtain f t where ft: "part_file p = Some (f, t)" by (cases ft) auto
    then show ?thesis using tail
      by (simp add: piece_of_def head_lines crlf_bytes line head_line(1,2) head_line(3) [OF r] head_line(4) [OF r ft] type_line(1,2))
  qed
qed

lemma read_piece: "readable b p \<Longrightarrow> read_part (piece_of p) = Some p"
proof -
  assume r: "readable b p"
  let ?rest = "13 # 10 # 13 # 10 # part_value p"
  have first: "break_at [13, 10, 13, 10] (head_line p @ x) =
      map_option (\<lambda>(before, after). (head_line p @ before, after)) (break_at [13, 10, 13, 10] x)" for x
    using head_line(3) [OF r] by (rule break_at_skip)
  have last: "break_at [13, 10, 13, 10] ?rest = Some ([], part_value p)" by simp
  have "break_at [13, 10, 13, 10] (utf8_encode (head_of p) @ ?rest) = Some (utf8_encode (head_of p), part_value p)"
  proof (cases "part_file p")
    case None
    then show ?thesis by (simp add: head_lines crlf_bytes first last del: break_at.simps)
  next
    case (Some ft)
    then obtain f t where ft: "part_file p = Some (f, t)" by (cases ft) auto
    then show ?thesis by (simp add: head_lines crlf_bytes first last break_line type_line(1) head_line(4) [OF r ft] del: break_at.simps)
  qed
  moreover have "read_head (head_of p) = Some (part_name p, part_file p)"
    using r by (intro read_head) (auto simp: readable_def)
  ultimately show ?thesis by (simp add: read_part_def piece_of_def crlf_bytes)
qed

definition write_part :: "string \<Rightarrow> part \<Rightarrow> bytes" where
  "write_part b p = utf8_encode (''--'' @ b @ crlf) @ utf8_encode (head_of p @ crlf @ crlf) @ part_value p @ utf8_encode crlf"

definition closing :: "string \<Rightarrow> bytes" where
  "closing b = utf8_encode (''--'' @ b @ ''--'' @ crlf)"

lemma body_pieces: "utf8_encode crlf @ concat (map (write_part b) ps) @ closing b =
    concat (map (\<lambda>p. delimiter b @ p) (map piece_of ps)) @ delimiter b @ utf8_encode (''--'' @ crlf)"
  by (induction ps) (simp_all add: closing_def write_part_def piece_of_def delimiter_def crlf_bytes utf8_ascii)

lemma all_some_map: "(\<And>x. x \<in> set xs \<Longrightarrow> f x = Some (g x)) \<Longrightarrow> all_some (map f xs) = Some (map g xs)"
  by (induction xs) auto

lemma read_written:
  assumes "cr \<notin> set b" "list_all (readable b) ps"
  shows "read_parts b (concat (map (write_part b) ps) @ closing b) = Some ps"
proof -
  have "13 \<notin> set (10 # 45 # 45 # utf8_encode b)" using assms(1) by simp
  moreover have "\<forall>q \<in> set (map piece_of ps). \<not> sublist (13 # 10 # 45 # 45 # utf8_encode b) q"
    using assms(2) piece_clean unfolding list_all_iff by (auto simp: delimiter_bytes)
  moreover have "\<not> sublist (13 # 10 # 45 # 45 # utf8_encode b) (utf8_encode (''--'' @ crlf))"
    by (auto simp: crlf_bytes utf8_ascii sublist_Cons_right)
  ultimately have "split_all (delimiter b) (utf8_encode crlf @ concat (map (write_part b) ps) @ closing b) =
      [] # map piece_of ps @ [utf8_encode (''--'' @ crlf)]"
    unfolding body_pieces delimiter_bytes by (rule split_all_parts)
  moreover have "all_some (map read_part (map piece_of ps)) = Some (map (\<lambda>q. q) ps)"
    unfolding map_map using assms(2) by (intro all_some_map) (auto simp: read_piece list_all_iff)
  ultimately show ?thesis by (simp add: read_parts_def)
qed


subsection \<open>The encoder writes the parts of the form\<close>

definition form_boundary :: "api_env \<Rightarrow> string" where
  "form_boundary env = ''----WebKitFormBoundary'' @ take 16 (e_boundary env)"

lemma field_part_eq: "field_part b = (\<lambda>fv. write_part b (field_entry fv))"
  by (rule ext) (simp add: field_part_def field_entry_def write_part_def head_of_def case_prod_unfold del: append.simps(2))

lemma file_part_eq: "file_part guess b fi = bindE (file_entry guess fi) (\<lambda>p. Inr (write_part b p))"
proof (cases fi)
  case (Pair name info)
  show ?thesis
  proof (cases "parse_file_info name info")
    case (Inr d)
    obtain filename u given where d: "d = (filename, u, given)" by (cases d)
    show ?thesis
      by (cases "upload_data u") (simp_all add: Pair Inr d file_part_def file_entry_def file_type_def write_part_def
        head_of_def Let_def del: append.simps(2))
  qed (simp add: Pair file_part_def file_entry_def)
qed

lemma mapE_bind: "mapE (\<lambda>x. bindE (f x) (\<lambda>y. Inr (g y))) xs = bindE (mapE f xs) (\<lambda>ys. Inr (map g ys))"
  by (induction xs) (auto simp: bindE_assoc split: sum.splits)

lemma encode_parts: "encode_multipart_formdata env form files = bindE (form_parts env form files) (\<lambda>ps.
    Inr (concat (map (write_part (form_boundary env)) ps) @ closing (form_boundary env),
      ''multipart/form-data; boundary='' @ form_boundary env))"
  unfolding encode_multipart_formdata_def form_parts_def form_boundary_def [symmetric] Let_def file_part_eq mapE_bind
  by (cases "mapE (file_entry (e_guess_type env)) files") (simp_all add: field_part_eq closing_def comp_def)

subsection \<open>Properties\<close>

text \<open>C13. A reader of multipart bodies finds what the form and the files stand for. When a file has no valid description or content
  \<^verbatim>\<open>_encode_multipart_formdata\<close> raises that error; otherwise, for a boundary of hexadecimal digits, it returns a body from
  which a reader who has only the returned \<^verbatim>\<open>Content-Type\<close> recovers every field and every file, in the order of the two
  dictionaries, with name, file name, type (given, guessed or \<^verbatim>\<open>application/octet-stream\<close>) and the bytes of the content,
  provided that no name has a quote or a carriage return, no type has a carriage return and no content has the delimiter.\<close>

theorem multipart_body_reads_back:
  assumes "set (e_boundary env) \<subseteq> set ''0123456789abcdef''"
  shows "case form_parts env form files of
      Inl e \<Rightarrow> encode_multipart_formdata env form files = Inl e
    | Inr ps \<Rightarrow> list_all (readable (form_boundary env)) ps \<longrightarrow>
        (\<exists>body ctype. encode_multipart_formdata env form files = Inr (body, ctype) \<and> read_form ctype body = Some ps)"
proof (cases "form_parts env form files")
  case (Inr ps)
  have "cr \<notin> set (e_boundary env)" using assms by (auto simp: cr_def)
  then have "cr \<notin> set (form_boundary env)" by (auto simp: form_boundary_def cr_def dest: in_set_takeD)
  then show ?thesis by (simp add: Inr encode_parts read_form_def read_written del: append.simps(2))
qed (simp add: encode_parts)

text \<open>Names are written as they are: a quote and line breaks in the name of a field end its name, so that two different
  forms have the same body and no reader can tell them apart.\<close>

theorem multipart_names_not_escaped:
  "encode_multipart_formdata env [(a @ double_quote # crlf @ crlf @ v, PStr x)] files =
   encode_multipart_formdata env [(a, PStr (v @ double_quote # crlf @ crlf @ x))] files"
  by (simp add: encode_multipart_formdata_def field_part_def quoted_def' Let_def utf8_encode_def)

lemma double_quote_char: "double_quote = CHR 0x22"
  by code_simp

definition example_uploads :: "(string \<times> file_info) list" where
  "example_uploads = [(''f'', FilePair ''x.bin'' (Plain (PBytes [1, 2])))]"

theorem multipart_body_reads_back_witness:
  "\<exists>body ctype. encode_multipart_formdata example_env [(''a'', PInt 1)] example_uploads = Inr (body, ctype) \<and>
     read_form ctype body = Some [Part ''a'' None [49], Part ''f'' (Some (''x.bin'', ''application/octet-stream'')) [1, 2]]"
proof -
  let ?parts = "[Part ''a'' None [49], Part ''f'' (Some (''x.bin'', ''application/octet-stream'')) [1, 2]]"
  have hex: "set (e_boundary example_env) \<subseteq> set ''0123456789abcdef''" by (simp add: example_env_def)
  have parts: "form_parts example_env [(''a'', PInt 1)] example_uploads = Inr ?parts" by code_simp
  have "list_all (readable (form_boundary example_env)) ?parts"
    by (simp add: readable_def delimiter_bytes crlf_bytes sublist_Cons_right plain_name_def cr_def double_quote_char)
  then show ?thesis using multipart_body_reads_back [OF hex, of "[(''a'', PInt 1)]" example_uploads] unfolding parts by simp
qed

end
