(* ===== verification/Delivery.thy ===== *)
theory Delivery
  imports Api
begin

section \<open>What asynchronous requests deliver\<close>

text \<open>
  Two promises of the asynchronous paths of \<^verbatim>\<open>_ffi.py\<close> and \<^verbatim>\<open>api.py\<close> (modelled in \<open>FFI\<close> and \<open>Api\<close>). Requests that run
  concurrently are told apart only by the handles of the library: \<open>tracks\<close> is the invariant of a coroutine, kept by each of its turns
  and by the external actions of all others, that what it waits for, and what it returns, is the reply to its own submission. And
  a request has the same outcome in each way it can be sent: \<open>answers_alike\<close> is what the library promises, \<open>same_or_late\<close> the
  outcomes of a coroutine under this promise. \<open>same_memory\<close> is one more instance of \<open>state_relation\<close>: computations without
  external actions.
\<close>

subsection \<open>Replies and the requests they answer\<close>

definition submit_call :: "bool \<Rightarrow> bytes \<Rightarrow> gocall" where
  "submit_call zerocopy d = (if zerocopy then SubmitRequestAsyncZeroCopy (raw_chars d) (length d)
     else SubmitRequestAsync (b64encode d))"

definition check_call :: "bool \<Rightarrow> int \<Rightarrow> gocall" where
  "check_call zerocopy handle = (if zerocopy then GetAsyncResultZeroCopy handle else CheckRequestAsync handle)"

definition decode_reply :: "ffi_world \<Rightarrow> bool \<Rightarrow> string \<Rightarrow> nat \<Rightarrow> pyval res" where
  "decode_reply w zerocopy content n = (if zerocopy then w_unpackb w (map char_byte (take n content))
     else bindE (b64decode (takeWhile (\<lambda>c. of_char c \<noteq> (0 :: nat)) content)) (w_unpackb w))"

definition sent_as :: "ffi_world \<Rightarrow> nat \<Rightarrow> bool \<Rightarrow> pyval \<Rightarrow> int \<Rightarrow> gocall list \<Rightarrow> bool" where
  "sent_as w n0 zerocopy pl handle h = (\<exists>d j. w_packb w pl = Inr d \<and> n0 \<le> j \<and> j < length h \<and>
     h ! j = submit_call zerocopy d \<and> w_num w j (submit_call zerocopy d) = handle)"

definition delivered :: "ffi_world \<Rightarrow> nat \<Rightarrow> pyval \<Rightarrow> pyval \<Rightarrow> gocall list \<Rightarrow> bool" where
  "delivered w n0 pl r h = (\<exists>zerocopy handle k content n. sent_as w n0 zerocopy pl handle (take k h) \<and>
     k < length h \<and> h ! k = check_call zerocopy handle \<and> w_ptr w k (h ! k) = Some (content, n) \<and>
     decode_reply w zerocopy content n = Inr r)"

lemma sent_as_mono: "sent_as w n0 z p hdl h \<Longrightarrow> prefix h h' \<Longrightarrow> sent_as w n0 z p hdl h'"
  unfolding sent_as_def prefix_def by (metis length_append nth_append trans_less_add1)

lemma delivered_mono: "delivered w n0 p r h \<Longrightarrow> prefix h h' \<Longrightarrow> delivered w n0 p r h'"
  unfolding delivered_def prefix_def by (auto simp: nth_append) (metis less_imp_le_nat take_append append_Nil2 diff_is_0_eq take_0)

subsection \<open>Computations without external actions\<close>

definition same_memory :: "ffi_state \<Rightarrow> ffi_state \<Rightarrow> bool" where
  "same_memory s s' = (history s' = history s \<and> heap s' = heap s)"

interpretation quiet: state_relation same_memory
  by unfold_locales (auto simp: same_memory_def)

lemma quiet_flags [simp]: "same_memory s (s\<lparr>lib := l\<rparr>)" "same_memory s (s\<lparr>use_async_zerocopy := b\<rparr>)"
  by (simp_all add: same_memory_def)

lemma quiet_load_library: "keeps same_memory (load_library w)"
  unfolding load_library_def by (intro quiet.keeps_rules) simp_all

lemma quiet_exported: "keeps same_memory (exported w c)"
  unfolding exported_def by (intro quiet.keeps_rules quiet_load_library)

lemma quiet_has_support: "keeps same_memory (has_async_zerocopy_support w)"
  unfolding has_async_zerocopy_support_def has_symbol_def
  by (intro quiet.keeps_rules quiet_load_library) simp_all

lemma call_num_outcome:
  assumes "call_num w c s = (s', Inr n)"
  shows "history s' = history s @ [c] \<and> n = w_num w (length (history s)) c"
proof -
  obtain s0 r0 where e: "exported w c s = (s0, r0)" by (cases "exported w c s")
  have "same_memory s s0" using quiet.keepsD [OF quiet_exported e] .
  with assms e show ?thesis by (cases r0) (auto simp: call_num_def thenX_def bindX_def external_def same_memory_def)
qed

lemma call_ptr_outcome:
  assumes "call_ptr w c s = (s', Inr (Some (p, n)))"
  obtains content where "history s' = history s @ [c]" "w_ptr w (length (history s)) c = Some (content, n)"
    "map_of (heap s') p = Some content"
proof -
  obtain s0 r0 where e: "exported w c s = (s0, r0)" by (cases "exported w c s")
  have "same_memory s s0" using quiet.keepsD [OF quiet_exported e] .
  with assms e that show ?thesis
    by (cases r0) (auto simp: call_ptr_def thenX_def bindX_def external_def same_memory_def split: option.splits)
qed

lemma decode_msgpack_Inr: "decode_msgpack w raw s = (s', Inr r) \<Longrightarrow> s' = s \<and> w_unpackb w raw = Inr r"
  by (auto simp: decode_msgpack_def eff_defs split: sum.splits if_splits)

lemma free_history [simp]: "history (freeString p s) = history s @ [FreeString p]"
  by (simp add: freeString_def external_def)

definition gave_reply :: "ffi_world \<Rightarrow> bool \<Rightarrow> int \<Rightarrow> pyval \<Rightarrow> ffi_state \<Rightarrow> ffi_state \<Rightarrow> bool" where
  "gave_reply w z handle r s s' = (\<exists>content n. prefix (history s @ [check_call z handle]) (history s') \<and>
     w_ptr w (length (history s)) (check_call z handle) = Some (content, n) \<and> decode_reply w z content n = Inr r)"

lemma check_gave_reply:
  assumes "(if z then check_request_async_zerocopy w handle else check_request_async w handle) s = (s', Inr r)" "r \<noteq> PNone"
  shows "gave_reply w z handle r s s'"
proof -
  obtain s0 path where l: "load_library w s = (s0, Inr path)"
    using assms(1) by (auto simp: check_request_async_zerocopy_def check_request_async_def thenX_def split: if_splits elim!: bindX_InrE)
  have s0: "history s0 = history s" using quiet.keepsD [OF quiet_load_library l] by (simp add: same_memory_def)
  have "gave_reply w z handle r s0 s'"
  proof (cases z)
    case True
    with assms(1) l obtain s1 q where c: "call_ptr w (GetAsyncResultZeroCopy handle) s0 = (s1, Inr q)"
      and k: "(case q of None \<Rightarrow> retX PNone | Some (p, n) \<Rightarrow> bindX (ffi_buffer p n) (\<lambda>raw.
          thenX (updX (freeString p)) (liftX (w_unpackb w raw)))) s1 = (s', Inr r)"
      by (auto simp: check_request_async_zerocopy_def thenX_Inr elim!: bindX_InrE)
    from k assms(2) obtain p n where q: "q = Some (p, n)" by (cases q) (auto simp: eff_defs)
    from c [unfolded q] obtain content where co: "history s1 = history s0 @ [GetAsyncResultZeroCopy handle]"
      "w_ptr w (length (history s0)) (GetAsyncResultZeroCopy handle) = Some (content, n)" "map_of (heap s1) p = Some content"
      by (rule call_ptr_outcome)
    from k q co(3) have "s' = freeString p s1" "w_unpackb w (map char_byte (take n content)) = Inr r"
      by (simp_all add: ffi_buffer_def eff_defs)
    with co True show ?thesis by (auto simp: gave_reply_def check_call_def decode_reply_def)
  next
    case False
    with assms(1) l obtain s1 q where c: "call_ptr w (CheckRequestAsync handle) s0 = (s1, Inr q)"
      and k: "(case q of None \<Rightarrow> retX PNone | Some (p, _) \<Rightarrow> bindX (finallyX (ffi_string p) (freeString p)) (\<lambda>raw_b64.
          bindX (liftX (b64decode raw_b64)) (decode_msgpack w))) s1 = (s', Inr r)"
      by (auto simp: check_request_async_def thenX_Inr elim!: bindX_InrE)
    from k assms(2) obtain p n where q: "q = Some (p, n)" by (cases q) (auto simp: eff_defs)
    from c [unfolded q] obtain content where co: "history s1 = history s0 @ [CheckRequestAsync handle]"
      "w_ptr w (length (history s0)) (CheckRequestAsync handle) = Some (content, n)" "map_of (heap s1) p = Some content"
      by (rule call_ptr_outcome)
    let ?raw = "takeWhile (\<lambda>c. of_char c \<noteq> (0 :: nat)) content"
    have "finallyX (ffi_string p) (freeString p) s1 = (freeString p s1, Inr ?raw)"
      using co(3) by (simp add: ffi_string_def eff_defs)
    with k q have "bindX (liftX (b64decode ?raw)) (decode_msgpack w) (freeString p s1) = (s', Inr r)"
      by (simp add: bindX_Inr)
    then obtain bs where "b64decode ?raw = Inr bs" "decode_msgpack w bs (freeString p s1) = (s', Inr r)"
      by (auto simp: liftX_def elim!: bindX_InrE)
    with decode_msgpack_Inr have "s' = freeString p s1" "bindE (b64decode ?raw) (w_unpackb w) = Inr r" by fastforce+
    with co False show ?thesis by (auto simp: gave_reply_def check_call_def decode_reply_def)
  qed
  then show ?thesis by (simp add: gave_reply_def s0)
qed

lemma submit_sent:
  assumes "(if z then submit_request_async_zerocopy w pl else submit_request_async w pl) s = (s', Inr handle)"
    "n0 \<le> length (history s)"
  shows "sent_as w n0 z pl handle (history s')"
proof -
  obtain s0 path where l: "load_library w s = (s0, Inr path)"
    using assms(1) by (auto simp: submit_request_async_zerocopy_def submit_request_async_def thenX_def split: if_splits elim!: bindX_InrE)
  have s0: "history s0 = history s" using quiet.keepsD [OF quiet_load_library l] by (simp add: same_memory_def)
  obtain d where d: "w_packb w pl = Inr d" "call_num w (submit_call z d) s0 = (s', Inr handle)"
    using assms(1) l
    by (cases z) (auto simp: submit_request_async_zerocopy_def submit_request_async_def submit_call_def thenX_Inr liftX_def
      retX_def raiseX_def split: if_splits elim!: bindX_InrE)
  show ?thesis using call_num_outcome [OF d(2)] d(1) assms(2) s0
    by (auto simp: sent_as_def intro!: exI [of _ d] exI [of _ "length (history s)"])
qed

subsection \<open>Coroutines\<close>

fun tracks :: "ffi_world \<Rightarrow> nat \<Rightarrow> gocall list \<Rightarrow> pyval \<Rightarrow> coroutine \<Rightarrow> bool" where
  "tracks w n0 h pl (Start p) = (p = pl)"
| "tracks w n0 h pl (Polling z handle start n) = sent_as w n0 z pl handle h"
| "tracks w n0 h pl (Done (Inr r)) = delivered w n0 pl r h"
| "tracks w n0 h pl (Done (Inl e)) = True"

lemma tracks_mono: "tracks w n0 h p c \<Longrightarrow> prefix h h' \<Longrightarrow> tracks w n0 h' p c"
  by (cases "(w, n0, h, p, c)" rule: tracks.cases) (auto intro: sent_as_mono delivered_mono)

lemma delivered_now:
  assumes "sent_as w n0 z pl handle (history s)" "gave_reply w z handle r s s'"
  shows "delivered w n0 pl r (history s')"
proof -
  obtain content n where a: "prefix (history s @ [check_call z handle]) (history s')"
    "w_ptr w (length (history s)) (check_call z handle) = Some (content, n)" "decode_reply w z content n = Inr r"
    using assms(2) by (auto simp: gave_reply_def)
  from a(1) obtain t where t: "history s' = history s @ check_call z handle # t" by (auto simp: prefix_def)
  show ?thesis unfolding delivered_def
    by (rule exI [of _ z], rule exI [of _ handle], rule exI [of _ "length (history s)"]) (use t a assms(1) in auto)
qed

lemma poll_once_tracks:
  assumes "poll_once w z pi timeout handle st n s = (s', r)" "sent_as w n0 z pl handle (history s)"
  shows "tracks w n0 (history s') pl (case r of Inl e \<Rightarrow> Done (Inl e) | Inr c \<Rightarrow> c)"
proof (cases r)
  case (Inr c)
  let ?chk = "if z then check_request_async_zerocopy w handle else check_request_async w handle"
  have grow: "prefix (history s) (history s')"
    using balance.keepsD [OF keeps_poll_once assms(1)] by (simp add: balanced_def)
  from assms(1) Inr obtain s1 res where c1: "?chk s = (s1, Inr res)"
    and k: "(if res \<noteq> PNone then retX (Done (Inr res)) else bindX (loop_time w) (\<lambda>now.
         if now - st > timeout then raiseX (async_timeout timeout)
         else thenX (updX (external (Sleep (poll_delay pi (Suc n))))) (retX (Polling z handle st (Suc n))))) s1 = (s', Inr c)"
    unfolding poll_once_def by (auto elim!: bindX_InrE)
  show ?thesis
  proof (cases "res = PNone")
    case True
    with k have "c = Polling z handle st (Suc n)" by (auto simp: eff_defs loop_time_def split: if_splits)
    with Inr sent_as_mono [OF assms(2) grow] show ?thesis by simp
  next
    case False
    with k have "c = Done (Inr res)" "s' = s1" by (auto simp: retX_def)
    with Inr delivered_now [OF assms(2) check_gave_reply [OF c1 False]] show ?thesis by simp
  qed
qed simp

lemma resume_tracks:
  assumes "resume_catch w pi timeout c s = (s', c')" "tracks w n0 (history s) pl c" "n0 \<le> length (history s)"
  shows "tracks w n0 (history s') pl c'"
proof (cases c)
  case (Start p)
  with assms(2) have p: "p = pl" by simp
  obtain r where r: "resume w pi timeout c s = (s', r)" "c' = (case r of Inl e \<Rightarrow> Done (Inl e) | Inr c \<Rightarrow> c)"
    using assms(1) by (auto simp: resume_catch_def split: prod.splits sum.splits)
  from r(1) show ?thesis unfolding Start p resume_def coroutine.case
  proof (rule bindX_cases)
    fix z s1
    assume z: "has_async_zerocopy_support w s = (s1, Inr z)"
      and k: "bindX (if z then submit_request_async_zerocopy w pl else submit_request_async w pl) (\<lambda>handle.
       bindX (loop_time w) (\<lambda>start_time. poll_once w z pi timeout handle start_time 0)) s1 = (s', r)"
    have n1: "n0 \<le> length (history s1)" using quiet.keepsD [OF quiet_has_support z] assms(3) by (simp add: same_memory_def)
    from k show ?thesis
    proof (rule bindX_cases)
      fix handle s2
      assume h: "(if z then submit_request_async_zerocopy w pl else submit_request_async w pl) s1 = (s2, Inr handle)"
        and k2: "bindX (loop_time w) (\<lambda>start_time. poll_once w z pi timeout handle start_time 0) s2 = (s', r)"
      have sub: "sent_as w n0 z pl handle (history (external Clock s2))"
        using sent_as_mono [OF submit_sent [OF h n1]] by (simp add: external_def)
      from k2 obtain st where "poll_once w z pi timeout handle st 0 (external Clock s2) = (s', r)"
        by (auto simp: loop_time_def bindX_def)
      from poll_once_tracks [OF this sub] show ?thesis by (simp add: r(2))
    qed (simp add: r(2))
  qed (simp add: r(2))
next
  case (Polling z handle st n)
  obtain r where r: "poll_once w z pi timeout handle st n s = (s', r)" "c' = (case r of Inl e \<Rightarrow> Done (Inl e) | Inr c \<Rightarrow> c)"
    using assms(1) Polling by (auto simp: resume_catch_def resume_def split: prod.splits sum.splits)
  from poll_once_tracks [OF r(1)] assms(2) Polling r(2) show ?thesis by simp
next
  case (Done r)
  with assms(1,2) show ?thesis by (auto simp: resume_catch_def resume_def retX_def)
qed

lemma results_of_nth: "results_of cs = Some rs \<Longrightarrow> length rs = length cs \<and> (\<forall>i < length cs. cs ! i = Done (Inr (rs ! i)))"
  by (induction cs arbitrary: rs rule: results_of.induct) (auto simp: nth_Cons split: nat.splits)

lemma gather_tracks:
  assumes "gather w pi timeout sched cs s = Some (s', Inr rs)" "length cs = length ps"
    "\<forall>i < length ps. tracks w n0 (history s) (ps ! i) (cs ! i)" "n0 \<le> length (history s)"
  shows "length rs = length ps \<and> (\<forall>i < length ps. delivered w n0 (ps ! i) (rs ! i) (history s'))"
  using assms
proof (induction w pi timeout sched cs s rule: gather.induct)
  case (1 w pi timeout cs s)
  then have "results_of cs = Some rs" "s' = s" by (auto simp: gathered_def split: option.splits)
  with results_of_nth [of cs rs] 1 show ?case by fastforce
next
  case (2 w pi timeout i sched cs s)
  consider (ended) r where "gathered cs = Some r" | (skip) "gathered cs = None" "\<not> i < length cs"
    | (turn) "gathered cs = None" "i < length cs" by (cases "gathered cs") auto
  then show ?case
  proof cases
    case ended
    with 2 have "results_of cs = Some rs" "s' = s" by (auto simp: gathered_def split: option.splits)
    with results_of_nth [of cs rs] 2 show ?thesis by fastforce
  next
    case skip
    with 2 show ?thesis by simp
  next
    case turn
    obtain s1 c1 where c1: "resume_catch w pi timeout (cs ! i) s = (s1, c1)" by (cases "resume_catch w pi timeout (cs ! i) s")
    have grow: "prefix (history s) (history s1)" using resume_catch_balanced [OF c1] by (simp add: balanced_def)
    have "tracks w n0 (history s1) (ps ! i) c1"
      using resume_tracks [OF c1] 2 turn by simp
    then have "\<forall>k < length ps. tracks w n0 (history s1) (ps ! k) (cs[i := c1] ! k)"
      using 2 turn grow by (auto simp: nth_list_update intro: tracks_mono)
    with 2 turn c1 grow show ?thesis by (auto dest: prefix_length_le)
  qed
qed

subsection \<open>The same reply by every way\<close>

text \<open>A block of memory carries the bytes of a reply: as it is with its length, or as a base64 text with its terminator.\<close>

definition carries :: "bool \<Rightarrow> bytes \<Rightarrow> (string \<times> nat) option \<Rightarrow> bool" where
  "carries raw reply block = (case block of None \<Rightarrow> False | Some (content, n) \<Rightarrow>
     if raw then take n content = raw_chars reply
     else takeWhile (\<lambda>c. of_char c \<noteq> (0 :: nat)) content = b64encode reply)"

text \<open>
  What the library promises for the request with the bytes \<open>d\<close>: it accepts it in every way of sending, the handle it answers
  gives no result or this reply, and after a notification the result is there.
\<close>

definition answers_alike :: "ffi_world \<Rightarrow> bytes \<Rightarrow> bytes \<Rightarrow> bool" where
  "answers_alike w d reply = ((\<forall>i. carries False reply (w_ptr w i (GetRequest (b64encode d)))) \<and>
     (\<forall>i. carries True reply (w_ptr w i (GetRequestZeroCopy (raw_chars d) (length d)))) \<and>
     (\<forall>i z. w_num w i (submit_call z d) \<noteq> 0 \<and>
        (\<forall>j. w_ptr w j (check_call z (w_num w i (submit_call z d))) = None \<or>
          carries z reply (w_ptr w j (check_call z (w_num w i (submit_call z d)))))) \<and>
     (\<forall>i fd. w_num w i (SubmitRequestAsyncWithNotify (raw_chars d) (length d) fd) \<noteq> 0 \<and>
        (\<forall>j. carries True reply (w_ptr w j
          (GetAsyncResult (w_num w i (SubmitRequestAsyncWithNotify (raw_chars d) (length d) fd)))))))"

definition request_symbols :: "string list" where
  "request_symbols = [''getRequest'', ''getRequestZeroCopy'', ''submitRequestAsync'', ''checkRequestAsync'',
     ''submitRequestAsyncZeroCopy'', ''getAsyncResultZeroCopy'', ''submitRequestAsyncWithNotify'', ''getAsyncResult'']"

definition is_loaded :: "ffi_world \<Rightarrow> string \<Rightarrow> ffi_state \<Rightarrow> bool" where
  "is_loaded w path s = (lib s = Some path \<and> set request_symbols \<subseteq> set (w_symbols w path))"

lemma ready_external [simp]: "is_loaded w path (external c s) = is_loaded w path s"
  "is_loaded w path (s\<lparr>heap := x\<rparr>) = is_loaded w path s" "is_loaded w path (s\<lparr>fds := y\<rparr>) = is_loaded w path s"
  "is_loaded w path (freeString p s) = is_loaded w path s"
  by (simp_all add: is_loaded_def external_def freeString_def)

lemma ready_symbols: "is_loaded w path s \<Longrightarrow> n \<in> set request_symbols \<Longrightarrow> n \<in> set (w_symbols w path)"
  by (auto simp: is_loaded_def)

lemma symbols_request [simp]: "symbol_of (submit_call z d) \<in> set request_symbols" "symbol_of (check_call z h) \<in> set request_symbols"
  "symbol_of (GetRequest x) \<in> set request_symbols" "symbol_of (GetRequestZeroCopy x n) \<in> set request_symbols"
  "symbol_of (SubmitRequestAsyncWithNotify x n fd) \<in> set request_symbols" "symbol_of (GetAsyncResult h) \<in> set request_symbols"
  by (cases z; simp add: submit_call_def check_call_def request_symbols_def)+

lemma ready_exported: "is_loaded w path s \<Longrightarrow> symbol_of c \<in> set request_symbols \<Longrightarrow> exported w c s = (s, Inr ())"
  using exported_ok [of s path c w] ready_symbols [of w path s "symbol_of c"] by (simp add: is_loaded_def)

lemma ready_load: "is_loaded w path s \<Longrightarrow> load_library w s = (s, Inr path)"
  by (simp add: is_loaded_def load_library_cached)

lemma ready_then: "is_loaded w path s \<Longrightarrow> thenX (load_library w) n s = n s"
  by (simp add: ready_load thenX_def bindX_def)

lemma ready_num: "is_loaded w path s \<Longrightarrow> symbol_of c \<in> set request_symbols \<Longrightarrow>
    call_num w c s = (external c s, Inr (w_num w (length (history s)) c))"
  using ready_exported [of w path s c] by (simp add: call_num_def eff_defs)

lemma ready_ptr: "is_loaded w path s \<Longrightarrow> symbol_of c \<in> set request_symbols \<Longrightarrow>
    call_ptr w c s = (case w_ptr w (length (history s)) c of None \<Rightarrow> (external c s, Inr None)
      | Some (content, n) \<Rightarrow> ((external c s)\<lparr>heap := (length (history s), content) # heap s\<rparr>, Inr (Some (length (history s), n))))"
  using ready_exported [of w path s c] by (simp add: call_ptr_def eff_defs split: option.split)

text \<open>Receiving a reply in either mode.\<close>

lemma receive_raw:
  assumes "is_loaded w path s" "symbol_of c \<in> set request_symbols" "carries True reply (w_ptr w (length (history s)) c)"
  shows "\<exists>s'. is_loaded w path s' \<and> bindX (call_ptr w c) (\<lambda>r. case r of None \<Rightarrow> m
      | Some (p, n) \<Rightarrow> bindX (finallyX (ffi_buffer p n) (freeString p)) k) s = k reply s'"
proof -
  obtain content n where b: "w_ptr w (length (history s)) c = Some (content, n)" "take n content = raw_chars reply"
    using assms(3) by (auto simp: carries_def split: option.splits)
  let ?s1 = "(external c s)\<lparr>heap := (length (history s), content) # heap s\<rparr>"
  show ?thesis
    by (rule exI [of _ "freeString (length (history s)) ?s1"])
      (use assms b in \<open>simp_all add: ready_ptr bindX_def finallyX_def ffi_buffer_def readX_def retX_def\<close>)
qed

lemma receive_text:
  assumes "is_loaded w path s" "symbol_of c \<in> set request_symbols" "carries False reply (w_ptr w (length (history s)) c)"
  shows "\<exists>s'. is_loaded w path s' \<and> bindX (call_ptr w c) (\<lambda>r. case r of None \<Rightarrow> m
      | Some (p, _) \<Rightarrow> bindX (finallyX (ffi_string p) (freeString p)) (\<lambda>raw. bindX (liftX (b64decode raw)) k)) s = k reply s'"
proof -
  obtain content n where b: "w_ptr w (length (history s)) c = Some (content, n)"
    "takeWhile (\<lambda>c. of_char c \<noteq> (0 :: nat)) content = b64encode reply"
    using assms(3) by (auto simp: carries_def split: option.splits)
  let ?s1 = "(external c s)\<lparr>heap := (length (history s), content) # heap s\<rparr>"
  show ?thesis
    by (rule exI [of _ "freeString (length (history s)) ?s1"])
      (use assms b in \<open>simp_all add: ready_ptr bindX_def finallyX_def ffi_string_def readX_def retX_def liftX_def\<close>)
qed

lemma decode_ok: "w_unpackb w reply = Inr v \<Longrightarrow> decode_msgpack w reply s = (s, Inr v)"
  by (simp add: decode_msgpack_def eff_defs)

lemma bind_lift [simp]: "bindX (liftX (Inr d)) f = f d"
  by (rule ext) (simp add: bindX_def liftX_def)

lemma sync_reply:
  assumes "is_loaded w path s" "w_packb w pl = Inr d" "answers_alike w d reply" "w_unpackb w reply = Inr v"
  shows "snd (send_request w pl s) = Inr v"
proof -
  have zero: "snd (send_request_zerocopy w pl t) = Inr v" if t: "is_loaded w path t" for t
  proof -
    have c: "carries True reply (w_ptr w (length (history t)) (GetRequestZeroCopy (raw_chars d) (length d)))"
      using assms(3) by (simp add: answers_alike_def)
    show ?thesis unfolding send_request_zerocopy_def ready_then [OF t] assms(2) bind_lift
      using receive_raw [OF t symbols_request(4) c, of "raiseX null_response" "decode_msgpack w"]
      by (auto simp: decode_ok [OF assms(4)])
  qed
  have base64: "snd (send_request_base64 w pl t) = Inr v" if t: "is_loaded w path t" for t
  proof -
    have c: "carries False reply (w_ptr w (length (history t)) (GetRequest (b64encode d)))"
      using assms(3) by (simp add: answers_alike_def)
    show ?thesis unfolding send_request_base64_def ready_then [OF t] assms(2) bind_lift
      using receive_text [OF t symbols_request(3) c, of "raiseX null_response" "decode_msgpack w"]
      by (auto simp: decode_ok [OF assms(4)])
  qed
  obtain z t where z: "has_zerocopy_support w s = (t, Inr z)" "is_loaded w path t"
    using assms(1) has_symbol_loaded [of s path w]
    by (cases "use_zerocopy s") (auto simp: has_zerocopy_support_def is_loaded_def eff_defs)
  then show ?thesis using zero [OF z(2)] base64 [OF z(2)] by (simp add: send_request_def bindX_def)
qed

text \<open>A check of a handle whose results carry the reply returns it, or \<^verbatim>\<open>None\<close>.\<close>

definition good_handle :: "ffi_world \<Rightarrow> bool \<Rightarrow> int \<Rightarrow> bytes \<Rightarrow> bool" where
  "good_handle w z handle reply = (\<forall>j. w_ptr w j (check_call z handle) = None \<or> carries z reply (w_ptr w j (check_call z handle)))"

lemma check_good:
  assumes "is_loaded w path s" "good_handle w z handle reply" "w_unpackb w reply = Inr v"
  shows "\<exists>s' r. (if z then check_request_async_zerocopy w handle else check_request_async w handle) s = (s', Inr r) \<and>
    is_loaded w path s' \<and> (r = PNone \<or> r = v)"
proof (cases "w_ptr w (length (history s)) (check_call z handle)")
  case None
  then have c: "call_ptr w (check_call z handle) s = (external (check_call z handle) s, Inr None)"
    by (simp add: ready_ptr [OF assms(1) symbols_request(2)])
  show ?thesis
  proof (cases z)
    case True
    with c have "check_request_async_zerocopy w handle s = (external (check_call z handle) s, Inr PNone)"
      unfolding check_request_async_zerocopy_def ready_then [OF assms(1)] by (simp add: check_call_def bindX_Inr eff_apply)
    with True assms(1) show ?thesis by simp
  next
    case False
    with c have "check_request_async w handle s = (external (check_call z handle) s, Inr PNone)"
      unfolding check_request_async_def ready_then [OF assms(1)] by (simp add: check_call_def bindX_Inr eff_apply)
    with False assms(1) show ?thesis by simp
  qed
next
  case (Some b)
  with assms(2) have c: "carries z reply (w_ptr w (length (history s)) (check_call z handle))"
    by (metis good_handle_def option.discI)
  show ?thesis
  proof (cases z)
    case True
    with c have c': "carries True reply (w_ptr w (length (history s)) (check_call True handle))" by simp
    obtain s' where "is_loaded w path s'" "check_request_async_zerocopy w handle s = liftX (w_unpackb w reply) s'"
      unfolding check_request_async_zerocopy_def ready_then [OF assms(1)] buffer_then_free
      using receive_raw [OF assms(1) symbols_request(2) c', of "retX PNone" "\<lambda>raw. liftX (w_unpackb w raw)"]
      by (auto simp: check_call_def)
    with True assms(3) show ?thesis by (simp add: liftX_def)
  next
    case False
    with c have c': "carries False reply (w_ptr w (length (history s)) (check_call False handle))" by simp
    obtain s' where "is_loaded w path s'" "check_request_async w handle s = decode_msgpack w reply s'"
      unfolding check_request_async_def ready_then [OF assms(1)]
      using receive_text [OF assms(1) symbols_request(2) c', of "retX PNone" "decode_msgpack w"]
      by (auto simp: check_call_def)
    with False show ?thesis by (simp add: decode_ok [OF assms(3)])
  qed
qed

definition same_or_late :: "pyval \<Rightarrow> int \<Rightarrow> pyval res \<Rightarrow> bool" where
  "same_or_late v timeout r = (r = Inr v \<or> r = Inl (async_timeout timeout))"

lemma poll_good:
  assumes "is_loaded w path s" "good_handle w z handle reply" "w_unpackb w reply = Inr v"
    "poll_once w z pi timeout handle st n s = (s', r)"
  shows "is_loaded w path s' \<and> (r = Inl (async_timeout timeout) \<or> r = Inr (Done (Inr v)) \<or> r = Inr (Polling z handle st (Suc n)))"
proof -
  obtain s1 x where c: "(if z then check_request_async_zerocopy w handle else check_request_async w handle) s = (s1, Inr x)"
    and s1: "is_loaded w path s1" "x = PNone \<or> x = v"
    using check_good [OF assms(1-3)] by blast
  from assms(4) s1 c show ?thesis
    by (cases z) (auto simp: poll_once_def loop_time_def eff_defs split: if_splits)
qed

lemma run_good:
  assumes "run_coroutine fuel w pi timeout (Polling z handle st n) s = Some (s', r)"
    "is_loaded w path s" "good_handle w z handle reply" "w_unpackb w reply = Inr v"
  shows "same_or_late v timeout r"
  using assms(1,2)
proof (induction fuel arbitrary: s n)
  case (Suc fuel)
  obtain s1 x where p: "poll_once w z pi timeout handle st n s = (s1, x)" by (cases "poll_once w z pi timeout handle st n s")
  note g = poll_good [OF Suc.prems(2) assms(3,4) p]
  then consider "x = Inl (async_timeout timeout)" | "x = Inr (Done (Inr v))" | "x = Inr (Polling z handle st (Suc n))" by blast
  then show ?case
  proof cases
    case 3
    with Suc.prems p have "run_coroutine fuel w pi timeout (Polling z handle st (Suc n)) s1 = Some (s', r)"
      by (simp add: resume_catch_def resume_def)
    with Suc.IH g show ?thesis by blast
  qed (use Suc.prems p in \<open>simp_all add: resume_catch_def resume_def same_or_late_def\<close>)
qed simp

lemma polling_reply:
  assumes "is_loaded w path s" "w_packb w pl = Inr d" "answers_alike w d reply" "w_unpackb w reply = Inr v"
    "send_request_async fuel w pl pi timeout s = Some (s', r)"
  shows "same_or_late v timeout r"
proof -
  obtain z t where z: "has_async_zerocopy_support w s = (t, Inr z)" and t: "is_loaded w path t"
    using assms(1) has_symbol_loaded [of s path w] ready_symbols [OF assms(1), of "''submitRequestAsyncZeroCopy''"]
    by (cases "use_async_zerocopy s")
      (auto simp: has_async_zerocopy_support_def is_loaded_def eff_defs request_symbols_def)
  let ?h = "w_num w (length (history t)) (submit_call z d)" and ?s1 = "external (submit_call z d) t"
  have nz: "?h \<noteq> 0" and good: "good_handle w z ?h reply"
    using assms(3) unfolding answers_alike_def good_handle_def by blast+
  have num: "call_num w (submit_call z d) t = (?s1, Inr ?h)" by (rule ready_num [OF t symbols_request(1)])
  have sub: "(if z then submit_request_async_zerocopy w pl else submit_request_async w pl) t = (?s1, Inr ?h)"
    using num nz by (cases z) (simp_all add: submit_request_async_zerocopy_def submit_request_async_def submit_call_def
      ready_then [OF t] assms(2) bindX_Inr retX_def)
  let ?s2 = "external Clock ?s1" and ?st = "w_num w (length (history ?s1)) Clock"
  obtain s3 x where p: "poll_once w z pi timeout ?h ?st 0 ?s2 = (s3, x)" by (cases "poll_once w z pi timeout ?h ?st 0 ?s2")
  have start: "resume w pi timeout (Start pl) s = (s3, x)"
    using z sub p by (cases z) (simp_all add: resume_def loop_time_def bindX_def)
  have "is_loaded w path ?s2" using t by simp
  note g = poll_good [OF this good assms(4) p]
  obtain fuel' where fuel: "fuel = Suc fuel'" using assms(5) by (cases fuel) (auto simp: send_request_async_def)
  from g consider "x = Inl (async_timeout timeout)" | "x = Inr (Done (Inr v))" | "x = Inr (Polling z ?h ?st (Suc 0))" by blast
  then show ?thesis
  proof cases
    case 3
    with assms(5) start fuel have "run_coroutine fuel' w pi timeout (Polling z ?h ?st (Suc 0)) s3 = Some (s', r)"
      by (simp add: send_request_async_def resume_catch_def)
    then show ?thesis by (rule run_good) (use g good assms(4) in auto)
  qed (use assms(5) start fuel in \<open>simp_all add: send_request_async_def resume_catch_def same_or_late_def\<close>)
qed

lemma callback_reply:
  assumes "is_loaded w path s" "w_packb w pl = Inr d" "answers_alike w d reply" "w_unpackb w reply = Inr v"
  shows "same_or_late v timeout (snd (send_request_async_callback w pl timeout s))"
proof -
  let ?fd = "2 * length (history s) + 1"
  let ?s1 = "fst (os_pipe s)" and ?c = "SubmitRequestAsyncWithNotify (raw_chars d) (length d) ?fd"
  have r1: "is_loaded w path ?s1" using assms(1) by (simp add: os_pipe_def Let_def)
  let ?h = "w_num w (length (history ?s1)) ?c" and ?s2 = "external (AwaitPipe timeout) (external ?c ?s1)"
  have nz: "?h \<noteq> 0" using assms(3) by (simp add: answers_alike_def)
  have r2: "is_loaded w path ?s2" using r1 by simp
  have c: "carries True reply (w_ptr w (length (history ?s2)) (GetAsyncResult ?h))"
    using assms(3) unfolding answers_alike_def by blast
  note r = receive_raw [OF r2 symbols_request(6) c, of "raiseX (cycletls_error ''Failed to get async result (null pointer returned)'')"
    "decode_msgpack w"]
  have num: "bindX (call_num w ?c) k ?s1 = k ?h (external ?c ?s1)" for k :: "int \<Rightarrow> pyval ffi"
    by (simp add: bindX_def ready_num [OF r1 symbols_request(5)])
  have "same_or_late v timeout (snd (callback_body w pl timeout ?fd ?s1))"
    unfolding callback_body_def assms(2) bind_lift num using nz r
    by (auto simp: await_pipe_def bindX_Inr eff_apply same_or_late_def decode_ok [OF assms(4)])
  then show ?thesis unfolding send_request_async_callback_def ready_then [OF assms(1)]
    by (auto simp: os_pipe_def bindX_def finallyX_def Let_def split: prod.splits)
qed


subsection \<open>Client operations\<close>

lemma built_payloads:
  "build_batch_payloads env n reqs = Inr pls \<Longrightarrow> length pls = length reqs \<and>
    (\<forall>i < length reqs. build_batch_payload env (reqs ! i) (''batch_'' @ nat_str (n + i)) = Inr (pls ! i))"
proof (induction env n reqs arbitrary: pls rule: build_batch_payloads.induct)
  case (2 env n req reqs)
  then obtain p ps where "build_batch_payload env req (''batch_'' @ nat_str n) = Inr p"
    "build_batch_payloads env (Suc n) reqs = Inr ps" "pls = p # ps" by auto
  with 2 show ?case by (fastforce simp: nth_Cons split: nat.splits)
qed simp

lemma async_response_reply:
  assumes "is_loaded w path f" "w_packb w pl = Inr d" "answers_alike w d reply" "w_unpackb w reply = Inr v"
    "async_response fuel w pl pi timeout use_cb f = Some (f', r)"
  shows "same_or_late v timeout r"
proof (cases use_cb)
  case False
  with assms(5) show ?thesis by (intro polling_reply [OF assms(1-4)]) (simp add: async_response_def)
next
  case True
  obtain b f1 where b: "has_callback_support w f = (f1, Inr b)" and f1: "is_loaded w path f1"
    using assms(1) has_symbol_loaded [of f path w] ready_symbols [OF assms(1), of "''submitRequestAsyncWithNotify''"]
    by (cases "use_callback f") (auto simp: has_callback_support_def is_loaded_def eff_defs request_symbols_def)
  obtain f2 x where x: "send_request_async_callback w pl timeout f1 = (f2, x)"
    by (cases "send_request_async_callback w pl timeout f1")
  have sx: "same_or_late v timeout x" using callback_reply [OF f1 assms(2-4)] x by (metis snd_conv)
  have "\<not> isinstance_exc (async_timeout timeout) RuntimeError"
    by (simp add: isinstance_exc_def async_timeout_def)
  with assms(5) True b x sx have "r = x \<or> send_request_async fuel w pl pi timeout f1 = Some (f', r)"
    by (cases b) (auto simp: async_response_def same_or_late_def)
  then show ?thesis using sx polling_reply [OF f1 assms(2-4)] by blast
qed

subsection \<open>Properties\<close>

text \<open>C6. \<^verbatim>\<open>arequest\<close> is equivalent to \<^verbatim>\<open>request\<close>: from the same state and for the same arguments both leave the client's state
  the same, and when the library answers a request with the same bytes however it was sent, \<^verbatim>\<open>arequest\<close> returns the same
  \<^verbatim>\<open>Response\<close> (or raises the same error of the conversion), by polling in either transfer mode and by notification, or else
  the waiting time was over, which is a \<^verbatim>\<open>CycleTLSError\<close>.\<close>

theorem arequest_equals_request:
  assumes "cl_batcher c = None" "prepare_request env c meth url a kw (st, f) = (s1, Inr pl)" "is_loaded (e_world env) path f"
    "w_packb (e_world env) pl = Inr d" "answers_alike (e_world env) d reply" "w_unpackb (e_world env) reply = Inr v"
    "request env c meth url a kw (st, f) = ((st2, f2), r)"
    "arequest fuel env c meth url a pi timeout use_cb kw (st, f) = Some ((st3, f3), ar)"
  shows "st3 = st2 \<and> (ar = r \<or>
    ar = Inl (cycletls_error (''Failed to execute async CycleTLS request: '' @ exc_message (async_timeout timeout))))"
proof -
  obtain st1 where s1: "s1 = (st1, f)" using prepare_request_native assms(2) by (cases s1) blast
  obtain fs where send: "send_request (e_world env) pl f = (fs, Inr v)"
    using sync_reply [OF assms(3-6)] by (metis prod.collapse)
  have "request env c meth url a kw (st, f) = ((st1, fs), parse_response (e_fromiso env) v)"
    unfolding request_unbatched [OF assms(1,2)] s1 by (simp add: send onSnd_def tryX_def bindX_def liftX_def)
  with assms(7) have r: "st2 = st1" "r = parse_response (e_fromiso env) v" by simp_all
  from assms(8) s1 obtain x where x: "async_response fuel (e_world env) pl pi timeout use_cb f = Some (f3, x)"
    and ar: "st3 = st1" "ar = bindE (wrap_async_error x) (parse_response (e_fromiso env))"
    by (auto simp: arequest_def assms(1,2) split: option.splits)
  have "isinstance_exc (async_timeout timeout) Exception" by (rule isinstance_Exception)
  with async_response_reply [OF assms(3-6) x] r ar show ?thesis by (auto simp: same_or_late_def wrap_async_error_def)
qed

text \<open>C5. The results of \<^verbatim>\<open>abatch\<close> are never mixed up: when it returns, under every interleaving of its coroutines, there is one
  response for each request, in the order of the requests, and the response at place \<open>i\<close> is the conversion of what the
  library gave_reply, during this call, to a check of the handle that it had given for the submission of exactly the
  pl of request \<open>i\<close>.\<close>

theorem abatch_returns_own_replies:
  assumes "abatch env c reqs sched (st, f) = Some ((st', f'), Inr resps)"
  shows "\<not> cl_closed c \<and> length resps = length reqs \<and> (\<forall>i < length reqs. \<exists>pl r.
    build_batch_payload env (reqs ! i) (''batch_'' @ nat_str i) = Inr pl \<and>
    delivered (e_world env) (length (history f)) pl r (history f') \<and>
    parse_response (e_fromiso env) r = Inr (resps ! i))"
proof (cases "reqs = []")
  case True
  with assms show ?thesis by (auto simp: abatch_def split: if_splits)
next
  case False
  from assms False obtain pls rds where open_client: "\<not> cl_closed c" and pls: "build_batch_payloads env 0 reqs = Inr pls"
    and sent: "send_requests_batch (e_world env) pls 1000 30000000 sched f = Some (f', Inr rds)"
    and resps: "mapE (parse_response (e_fromiso env)) rds = Inr resps"
    by (auto simp: abatch_def split: if_splits sum.splits option.splits)
  have own: "length rds = length pls \<and>
      (\<forall>i < length pls. delivered (e_world env) (length (history f)) (pls ! i) (rds ! i) (history f'))"
    using sent unfolding send_requests_batch_def by (rule gather_tracks) simp_all
  have "length pls = length reqs \<and>
      (\<forall>i < length reqs. build_batch_payload env (reqs ! i) (''batch_'' @ nat_str i) = Inr (pls ! i))"
    using built_payloads [OF pls] by simp
  with own open_client mapE_length [OF resps] mapE_nth [OF resps] show ?thesis by (metis)
qed

text \<open>A library that accepts every request and has the result after a while.\<close>

definition answering_world :: ffi_world where
  "answering_world = example_world\<lparr>w_symbols := (\<lambda>_. request_symbols),
     w_ptr := (\<lambda>i c. case c of GetRequest _ \<Rightarrow> Some ([CHR 0x00], 0) | GetRequestZeroCopy _ _ \<Rightarrow> Some ([], 0)
       | CheckRequestAsync _ \<Rightarrow> if i < 9 then None else Some ([CHR 0x00], 0)
       | GetAsyncResultZeroCopy _ \<Rightarrow> if i < 9 then None else Some ([], 0) | GetAsyncResult _ \<Rightarrow> Some ([], 0) | _ \<Rightarrow> None),
     w_num := (\<lambda>i c. case c of Clock \<Rightarrow> int i | _ \<Rightarrow> int i + 1)\<rparr>"

definition answering_env :: api_env where
  "answering_env = example_env\<lparr>e_world := answering_world\<rparr>"

definition loaded_state :: ffi_state where
  "loaded_state = initial_ffi\<lparr>lib := Some ''/lib.so''\<rparr>"

theorem arequest_equals_request_witness:
  "\<exists>s2 s3 r. request answering_env plain_client ''get'' ''https://a.b'' no_args [] (fst example_state, loaded_state) = (s2, Inr r) \<and>
     arequest 99 answering_env plain_client ''get'' ''https://a.b'' no_args 0 60 False [] (fst example_state, loaded_state) =
       Some (s3, Inr r)"
proof -
  let ?s = "(fst example_state, loaded_state)"
  let ?p = "prepare_request answering_env plain_client ''get'' ''https://a.b'' no_args [] ?s"
  let ?q = "request answering_env plain_client ''get'' ''https://a.b'' no_args [] ?s"
  let ?a = "arequest 99 answering_env plain_client ''get'' ''https://a.b'' no_args 0 60 False [] ?s"
  have "\<not> isl (snd ?p)" by code_simp
  then obtain s1 pl where p: "?p = (s1, Inr pl)" by (cases ?p, cases "snd ?p") auto
  have "?a \<noteq> None \<and> (case ?a of None \<Rightarrow> False | Some (_, r) \<Rightarrow> \<not> isl r)" by code_simp
  then obtain st3 f3 r where a: "?a = Some ((st3, f3), Inr r)" by (cases ?a) (auto split: prod.splits, metis obj_sumE sum.disc(1))
  obtain st2 f2 x where q: "?q = ((st2, f2), x)" by (metis prod.exhaust)
  have facts: "cl_batcher plain_client = None" "is_loaded (e_world answering_env) ''/lib.so'' loaded_state"
    "w_packb (e_world answering_env) pl = Inr [1]" "answers_alike (e_world answering_env) [1] []"
    "w_unpackb (e_world answering_env) [] = Inr (PDict [(''Status'', PInt 200)])"
    by (simp_all add: plain_client_def answering_env_def answering_world_def example_world_def is_loaded_def loaded_state_def
      answers_alike_def carries_def submit_call_def check_call_def raw_chars_def)
  from arequest_equals_request [OF facts(1) p facts(2-5) q a] q a show ?thesis by simp blast
qed

theorem abatch_returns_own_replies_witness:
  "\<exists>s' resps. abatch answering_env plain_client [[(''url'', PStr ''https://a.b'')], [(''url'', PStr ''https://c.d'')]]
      [0, 1, 1, 0, 0, 1] (fst example_state, loaded_state) = Some (s', Inr resps) \<and> length resps = 2"
proof -
  let ?a = "abatch answering_env plain_client [[(''url'', PStr ''https://a.b'')], [(''url'', PStr ''https://c.d'')]]
      [0, 1, 1, 0, 0, 1] (fst example_state, loaded_state)"
  have "?a \<noteq> None \<and> (case ?a of None \<Rightarrow> False | Some (_, r) \<Rightarrow> \<not> isl r)" by code_simp
  then obtain st f r where a: "?a = Some ((st, f), Inr r)" by (cases ?a) (auto split: prod.splits, metis obj_sumE sum.disc(1))
  from abatch_returns_own_replies [OF a] a show ?thesis by simp
qed

end
