(* ===== verification/Wire.thy ===== *)
theory Wire
  imports Schema
begin

section \<open>The types of what is sent\<close>

text \<open>
  The Go library decodes a request from msgpack into fixed fields of plain types. \<open>wire\<close> says that a value is plain
  data (no Python object of this package and no date). \<open>go_option_names\<close> are the names of the fields of the Go struct
  \<^verbatim>\<open>Options\<close> (\<^verbatim>\<open>golang/index.go\<close>), in its order; a key of the message with another name is not decoded.
\<close>

fun wire :: "pyval \<Rightarrow> bool" where
  "wire (PList xs) = list_all wire xs"
| "wire (PTuple xs) = list_all wire xs"
| "wire (PDict d) = list_all (\<lambda>(_, v). wire v) d"
| "wire (PDatetime _) = False" | "wire (PProtocol _) = False" | "wire (PCookie _) = False" | "wire (PJar _) = False"
| "wire _ = True"

abbreviation wires :: "kwargs \<Rightarrow> bool" where
  "wires d \<equiv> list_all (\<lambda>(_, v). wire v) d"

text \<open>A cookie whose attributes are plain; its expiry may be a date and its SameSite anything.\<close>

fun wire_cookie :: "pyval \<Rightarrow> bool" where
  "wire_cookie (PCookie c) = (list_all wire [ck_name c, ck_value c, ck_path c, ck_domain c, ck_max_age c, ck_secure c, ck_http_only c])"
| "wire_cookie (PDict d) = wires d"
| "wire_cookie _ = True"

definition go_option_names :: "string list" where
  "go_option_names = [''url'', ''method'', ''headers'', ''headerValues'', ''body'', ''bodyBytes'', ''ja3'', ''ja4r'',
     ''http2Fingerprint'', ''quicFingerprint'', ''disableGrease'', ''userAgent'', ''proxy'', ''localAddress'', ''serverName'',
     ''cookies'', ''timeout'', ''disableRedirect'', ''headerOrder'', ''orderAsProvided'', ''insecureSkipVerify'',
     ''forceHTTP1'', ''forceHTTP3'', ''protocol'', ''tls13AutoRetry'', ''enableConnectionReuse'']"

subsection \<open>Lemmas\<close>

lemma wires_dset: "wires d \<Longrightarrow> wire v \<Longrightarrow> wires (dset d k v)"
  by (induction d k v rule: dset.induct) auto

lemma wires_opt_set: "wires d \<Longrightarrow> wire v \<Longrightarrow> wires (opt_set d k v)"
  by (simp add: opt_set_def wires_dset)

lemma wires_opt_setE:
  assumes "opt_setE d k v f = Inr d'" "wires d" "\<And>w. v \<noteq> PNone \<Longrightarrow> f v = Inr w \<Longrightarrow> wire w"
  shows "wires d'"
  using assms by (auto simp: opt_setE_def bindE_eq_Inr wires_dset split: if_splits)

lemma wire_map_of: "wires d \<Longrightarrow> map_of d k = Some v \<Longrightarrow> wire v"
  by (auto simp: list_all_iff dest: map_of_SomeD)

lemma wire_lookup: "wires d \<Longrightarrow> wire v \<Longrightarrow> wire (dget_or d k v)" "wires d \<Longrightarrow> wire (dget d k)"
  by (auto simp: dget_def dget_or_def wire_map_of split: option.split)

lemma wire_py_or: "wire a \<Longrightarrow> wire b \<Longrightarrow> wire (py_or a b)"
  by (simp add: py_or_def)

lemma wire_convert_same_site: "wire (convert_same_site v)"
  by (cases v) auto

lemma wire_raw_expires: "wire (raw_expires v)"
  by (cases v) auto

lemma wires_cookie_result: "wire_cookie (PCookie c) \<Longrightarrow> wires (cookie_result c)"
  by (simp add: cookie_result_def Let_def wires_opt_set wires_dset wire_raw_expires wire_convert_same_site)

lemma wires_cookie_to_dict: "wire_cookie v \<Longrightarrow> cookie_to_dict v = Inr d \<Longrightarrow> wires d"
  by (cases v) (auto simp: wires_cookie_result cookie_fields_of_dict_def wire_lookup wire_py_or)

lemma mapE_all:
  assumes "mapE f xs = Inr ys" "\<And>x y. x \<in> set xs \<Longrightarrow> f x = Inr y \<Longrightarrow> P y"
  shows "list_all P ys"
  using assms
proof (induction xs arbitrary: ys)
  case (Cons x xs)
  then obtain z zs where "f x = Inr z" "mapE f xs = Inr zs" "ys = z # zs" by (auto simp: bindE_eq_Inr)
  moreover have "list_all P zs" by (rule Cons.IH [OF \<open>mapE f xs = Inr zs\<close>]) (meson Cons.prems(2) list.set_intros(2))
  moreover have "P z" by (rule Cons.prems(2) [OF _ \<open>f x = Inr z\<close>]) simp
  ultimately show ?case by simp
qed simp

lemma wire_cookie_dicts:
  assumes "cookie_dicts v = Inr w" "case iter_values v of Inr xs \<Rightarrow> list_all wire_cookie xs | Inl _ \<Rightarrow> True"
  shows "wire w"
proof -
  from assms(1) obtain xs ds where xs: "iter_values v = Inr xs" and ds: "mapE cookie_to_dict xs = Inr ds"
    and w: "w = PList (map PDict ds)" by (auto simp: cookie_dicts_def bindE_eq_Inr)
  have "list_all wires ds"
  proof (rule mapE_all [OF ds])
    fix x d assume "x \<in> set xs" "cookie_to_dict x = Inr d"
    moreover from assms(2) xs have "list_all wire_cookie xs" by simp
    ultimately show "wires d" by (auto simp only: list_all_iff [of wire_cookie] intro: wires_cookie_to_dict)
  qed
  then show ?thesis by (simp add: w list_all_iff)
qed

lemma wire_normalize: "normalize_header_values v = Inr w \<Longrightarrow> wire v \<Longrightarrow> wire w"
proof (cases v)
  case (PDict d)
  have v: "wire x \<Longrightarrow> wire (as_value_list x)" for x by (cases x) auto
  assume "normalize_header_values v = Inr w" "wire v"
  with PDict have "wires d" "w = PDict (map (\<lambda>(k, v). (k, as_value_list v)) d)" by simp_all
  then show ?thesis by (induction d arbitrary: w) (auto simp: v)
qed auto

lemma dkeys_dset_sub: "set (dkeys d) \<subseteq> S \<Longrightarrow> k \<in> S \<Longrightarrow> set (dkeys (dset d k v)) \<subseteq> S"
  by (simp add: dkeys_dset del: set_map)

lemma dkeys_opt_set_sub: "set (dkeys d) \<subseteq> S \<Longrightarrow> k \<in> S \<Longrightarrow> set (dkeys (opt_set d k v)) \<subseteq> S"
  by (simp add: opt_set_def dkeys_dset_sub del: set_map)

lemma dkeys_opt_setE_sub: "opt_setE d k v f = Inr d' \<Longrightarrow> set (dkeys d) \<subseteq> S \<Longrightarrow> k \<in> S \<Longrightarrow> set (dkeys d') \<subseteq> S"
  using dkeys_dset_sub [of d S k] by (fastforce simp: opt_setE_def bindE_eq_Inr simp del: set_map split: if_splits)

text \<open>The fields of a request built from plain options.\<close>

definition plain_fields :: "Request \<Rightarrow> pyval list" where
  "plain_fields r = [rq_body r, rq_body_bytes r, rq_headers r, rq_ja3 r, rq_ja4r r, rq_http2_fingerprint r, rq_quic_fingerprint r,
     rq_disable_grease r, rq_server_name r, rq_insecure_skip_verify r, rq_tls13_auto_retry r, rq_force_http1 r, rq_force_http3 r,
     rq_user_agent r, rq_proxy r, rq_local_address r, rq_disable_redirect r, rq_enable_connection_reuse r,
     rq_header_order r, rq_order_headers_as_provided r, rq_header_values r]"

lemma request_init_plain:
  assumes "request_init url meth kw = Inr r" "\<And>k. k \<noteq> ''cookies'' \<Longrightarrow> k \<noteq> ''protocol'' \<Longrightarrow> wire (dget kw k)"
  shows "list_all wire (plain_fields r)" "rq_cookies r = dget kw ''cookies''"
proof -
  have w: "wire (dget_or kw k v)" if "wire v" "k \<noteq> ''cookies''" "k \<noteq> ''protocol''" for k v
    using assms(2) [OF that(2,3)] that(1) by (auto simp: dget_def dget_or_def split: option.splits)
  show "rq_cookies r = dget kw ''cookies''" using assms(1) by (auto simp: request_init_def split: list.splits)
  show "list_all wire (plain_fields r)"
    using assms(1) by (auto simp: request_init_def plain_fields_def w assms(2) split: list.splits)
qed

lemma wires_plain_options: "list_all wire (plain_fields r) \<Longrightarrow> wires (plain_options r t)"
  by (simp add: plain_options_def plain_fields_def required_options_def Let_def wires_opt_set)

lemma dkeys_plain_options: "set (dkeys (plain_options r t)) \<subseteq> set go_option_names"
proof -
  have "set (dkeys (required_options r t)) \<subseteq> set go_option_names"
    by (simp add: required_options_def go_option_names_def)
  then show ?thesis
    unfolding plain_options_def Let_def by (intro dkeys_opt_set_sub) (simp_all add: go_option_names_def)
qed

lemma dkeys_opt_set: "set (dkeys (opt_set d k v)) = (if v = PNone then {} else {k}) \<union> set (dkeys d)"
  by (auto simp: opt_set_def dkeys_dset simp del: set_map)

lemma dkeys_opt_setE:
  "opt_setE d k v f = Inr d' \<Longrightarrow> set (dkeys d') = (if v = PNone then {} else {k}) \<union> set (dkeys d)"
  by (auto simp: opt_setE_def bindE_eq_Inr dkeys_dset simp del: set_map split: if_splits)

text \<open>The names of the message: the only one that may not be a field of the Go struct is that of the header order flag.\<close>

lemma request_option_names:
  assumes "request_to_dict r = Inr d"
  shows "set (dkeys d) - {''orderHeadersAsProvided''} \<subseteq> set go_option_names"
    "''orderHeadersAsProvided'' \<in> set (dkeys d) \<longleftrightarrow> rq_order_headers_as_provided r \<noteq> PNone"
proof -
  from assms obtain t d1 d2 where
    d1: "opt_setE (plain_options r t) ''protocol'' (rq_protocol r) protocol_value_attr = Inr d1"
    and d2: "opt_setE d1 ''cookies'' (rq_cookies r) cookie_dicts = Inr d2"
    and d: "opt_setE (opt_set (opt_set d2 ''headerOrder'' (rq_header_order r)) ''orderHeadersAsProvided''
        (rq_order_headers_as_provided r)) ''headerValues'' (rq_header_values r) normalize_header_values = Inr d"
    unfolding request_to_dict_def Let_def bindE_eq_Inr by (elim exE conjE)
  have sub: "set (dkeys (opt_set d2 ''headerOrder'' (rq_header_order r))) \<subseteq> set go_option_names"
    by (intro dkeys_opt_set_sub dkeys_opt_setE_sub [OF d2] dkeys_opt_setE_sub [OF d1] dkeys_plain_options)
      (simp_all add: go_option_names_def)
  have keys: "set (dkeys d) = (if rq_header_values r = PNone then {} else {''headerValues''}) \<union>
      ((if rq_order_headers_as_provided r = PNone then {} else {''orderHeadersAsProvided''}) \<union>
       set (dkeys (opt_set d2 ''headerOrder'' (rq_header_order r))))"
    using dkeys_opt_setE [OF d] dkeys_opt_set by metis
  have known: "''headerValues'' \<in> set go_option_names" "''orderHeadersAsProvided'' \<notin> set go_option_names"
    by (simp_all add: go_option_names_def)
  show "set (dkeys d) - {''orderHeadersAsProvided''} \<subseteq> set go_option_names"
    using sub known unfolding keys by (auto split: if_splits simp del: set_map)
  show "''orderHeadersAsProvided'' \<in> set (dkeys d) \<longleftrightarrow> rq_order_headers_as_provided r \<noteq> PNone"
    using sub known unfolding keys by (auto split: if_splits simp del: set_map)
qed

lemma wires_request_to_dict:
  assumes "list_all wire (plain_fields r)" "request_to_dict r = Inr d"
    and "case iter_values (rq_cookies r) of Inr xs \<Rightarrow> list_all wire_cookie xs | Inl _ \<Rightarrow> True"
  shows "wires d"
proof -
  have fields: "wire (rq_header_order r)" "wire (rq_order_headers_as_provided r)" "wire (rq_header_values r)"
    using assms(1) by (simp_all add: plain_fields_def)
  from assms(2) obtain t d1 d2 where
    d1: "opt_setE (plain_options r t) ''protocol'' (rq_protocol r) protocol_value_attr = Inr d1"
    and d2: "opt_setE d1 ''cookies'' (rq_cookies r) cookie_dicts = Inr d2"
    and d: "opt_setE (opt_set (opt_set d2 ''headerOrder'' (rq_header_order r)) ''orderHeadersAsProvided''
        (rq_order_headers_as_provided r)) ''headerValues'' (rq_header_values r) normalize_header_values = Inr d"
    unfolding request_to_dict_def Let_def bindE_eq_Inr by (elim exE conjE)
  have "wires d1"
    by (rule wires_opt_setE [OF d1 wires_plain_options [OF assms(1)]]) (erule protocol_value_attr.elims; simp)
  then have "wires d2" by (rule wires_opt_setE [OF d2]) (rule wire_cookie_dicts, use assms(3) in auto)
  then show ?thesis
    by (intro wires_opt_setE [OF d] wires_opt_set fields) (auto intro: wire_normalize [OF _ fields(3)])
qed

subsection \<open>Properties\<close>

text \<open>C12. Whatever a request is built from, the options sent for it are plain data: when the given
  options are plain data (the protocol may be a member of \<^verbatim>\<open>Protocol\<close>, the cookies \<^verbatim>\<open>Cookie\<close> objects or
  dictionaries with dates), the dictionary of \<^verbatim>\<open>Request.to_dict\<close> is plain data throughout, and every key but one is
  the name of a field of the Go struct \<^verbatim>\<open>Options\<close>. The exception is \<^verbatim>\<open>orderHeadersAsProvided\<close>, present exactly
  when the option \<^verbatim>\<open>order_headers_as_provided\<close> is given: the struct has no field of that name (its field is
  \<^verbatim>\<open>orderAsProvided\<close>), so the Go library never sees the option.\<close>

theorem request_options_are_plain:
  assumes "request_init url meth kw = Inr r" "request_to_dict r = Inr d"
    and "\<forall>k. k \<noteq> ''cookies'' \<longrightarrow> k \<noteq> ''protocol'' \<longrightarrow> wire (dget kw k)"
    and "case iter_values (dget kw ''cookies'') of Inr xs \<Rightarrow> list_all wire_cookie xs | Inl _ \<Rightarrow> True"
  shows "wire (PDict d) \<and>
    set (dkeys d) - {''orderHeadersAsProvided''} \<subseteq> set go_option_names \<and>
    (''orderHeadersAsProvided'' \<in> set (dkeys d) \<longleftrightarrow> dget kw ''order_headers_as_provided'' \<noteq> PNone) \<and>
    ''orderHeadersAsProvided'' \<notin> set go_option_names \<and> ''orderAsProvided'' \<in> set go_option_names"
proof -
  have "list_all wire (plain_fields r)" "rq_cookies r = dget kw ''cookies''"
    using request_init_plain [OF assms(1)] assms(3) by blast+
  then have "wires d" using wires_request_to_dict [OF _ assms(2)] assms(4) by simp
  moreover have "rq_order_headers_as_provided r = dget kw ''order_headers_as_provided''"
    using assms(1) by (auto simp: request_init_def split: list.splits)
  ultimately show ?thesis using request_option_names [OF assms(2)] by (simp add: go_option_names_def)
qed

theorem request_options_are_plain_witness:
  "\<exists>r d. request_init ''https://a.b'' ''get'' [(''cookies'', PList [PCookie (simple_cookie (PStr ''a'') (PStr ''b''))]), (''protocol'', PProtocol HTTP2)] = Inr r \<and>
     request_to_dict r = Inr d \<and> wire (PDict d) \<and> ''orderHeadersAsProvided'' \<notin> set (dkeys d)"
proof -
  let ?kw = "[(''cookies'', PList [PCookie (simple_cookie (PStr ''a'') (PStr ''b''))]), (''protocol'', PProtocol HTTP2)]"
  obtain r where r: "request_init ''https://a.b'' ''get'' ?kw = Inr r" by (simp add: request_init_def request_fields_def)
  have "\<not> isl (request_to_dict (projr (request_init ''https://a.b'' ''get'' ?kw)))" by code_simp
  then obtain d where d: "request_to_dict r = Inr d" using r by (cases "request_to_dict r") auto
  have "\<forall>k. k \<noteq> ''cookies'' \<longrightarrow> k \<noteq> ''protocol'' \<longrightarrow> wire (dget ?kw k)" by (simp add: dget_map_of)
  moreover have "case iter_values (dget ?kw ''cookies'') of Inr xs \<Rightarrow> list_all wire_cookie xs | Inl _ \<Rightarrow> True" by code_simp
  moreover have "dget ?kw ''order_headers_as_provided'' = PNone" by code_simp
  ultimately have "wire (PDict d) \<and> ''orderHeadersAsProvided'' \<notin> set (dkeys d)"
    using request_options_are_plain [OF r d] by blast
  with r d show ?thesis by blast
qed

end
