(* ===== verification/Sessions.thy ===== *)
theory Sessions
  imports Api
begin

section \<open>Sessions (\<^verbatim>\<open>cycletls/sessions.py\<close>)\<close>

text \<open>
  \<open>session\<close> extends the record of a client as the class \<^verbatim>\<open>Session\<close> extends \<^verbatim>\<open>CycleTLS\<close>; the methods a session
  inherits work on its \<open>client.truncate\<close>. An operation works on the session object and on the state of the client's
  operations. \<^verbatim>\<open>_merge_session_state\<close> puts a new dictionary of headers into the options, so that the dictionary
  \<^verbatim>\<open>_prepare_request\<close> changes is not the caller's: \<open>fresh_headers\<close> runs an operation of the client with that new
  object and gives the caller's back. The verbs call \<^verbatim>\<open>self.request\<close>, which for a session is \<open>session_request\<close>.
\<close>

record session = client +
  se_cookies :: CookieJar
  se_headers :: "pyval CaseInsensitiveDict"
  se_base_url :: "string option"
  se_auth :: "(pyval \<times> pyval) option"

type_synonym 'a se = "(session \<times> (api_state \<times> ffi_state), 'a) eff"

definition is_slash :: "char \<Rightarrow> bool" where
  "is_slash c = (c = CHR 0x2F)"

definition session_init :: "string option \<Rightarrow> (pyval \<times> pyval) option \<Rightarrow> bool \<Rightarrow> pyval \<Rightarrow> pyval \<Rightarrow> batcher_module \<Rightarrow>
    session \<times> batcher_module" where
  "session_init base_url auth use_batching batch_size flush_interval m =
    (case client_init use_batching batch_size flush_interval m of (c, m') \<Rightarrow>
      (client.extend c (session.fields (jar_init (Some [])) (cid_init [])
         (case base_url of None \<Rightarrow> None | Some [] \<Rightarrow> None | Some u \<Rightarrow> Some (rstrip_with is_slash u)) auth), m'))"

definition prepare_url :: "session \<Rightarrow> string \<Rightarrow> string" where
  "prepare_url s url = (case se_base_url s of
     None \<Rightarrow> url
   | Some base \<Rightarrow> if base \<noteq> [] \<and> \<not> (startswith url ''http://'' \<or> startswith url ''https://'')
       then base @ ''/'' @ lstrip_with is_slash url else url)"

subsection \<open>Merging the session's state into a request\<close>

text \<open>\<^verbatim>\<open>existing.name\<close>; a \<^verbatim>\<open>dict\<close> has no such attribute.\<close>

fun attr_name :: "pyval \<Rightarrow> pyval res" where
  "attr_name (PCookie c) = Inr (ck_name c)"
| "attr_name (PProtocol p) = Inr (PStr (protocol_member p))"
| "attr_name _ = Inl (no_attribute ''name'')"

fun merge_cookie :: "pyval list \<Rightarrow> pyval \<Rightarrow> pyval list res" where
  "merge_cookie [] new = Inr [new]"
| "merge_cookie (existing # rest) new = bindE (attr_name existing) (\<lambda>n. bindE (attr_name new) (\<lambda>m.
     if n = m then Inr (new # rest) else bindE (merge_cookie rest new) (\<lambda>rest'. Inr (existing # rest'))))"

fun merge_cookies :: "pyval list \<Rightarrow> pyval list \<Rightarrow> pyval list res" where
  "merge_cookies merged [] = Inr merged"
| "merge_cookies merged (c # cs) = bindE (merge_cookie merged c) (\<lambda>merged'. merge_cookies merged' cs)"

text \<open>The cookies of the request that are merged; other types are passed over.\<close>

fun request_cookie_list :: "pyval \<Rightarrow> pyval list" where
  "request_cookie_list (PDict d) = map (\<lambda>(k, v). PCookie (simple_cookie (PStr k) v)) d"
| "request_cookie_list (PJar j) = map PCookie (dvals j)"
| "request_cookie_list (PList cs) = cs"
| "request_cookie_list _ = []"

text \<open>\<^verbatim>\<open>MutableMapping.update\<close>: a mapping or an iterable of pairs.\<close>

fun header_item :: "pyval \<times> pyval \<Rightarrow> (string \<times> pyval) res" where
  "header_item (PStr k, v) = Inr (k, v)"
| "header_item _ = Inl (no_attribute ''lower'')"

definition update_pairs :: "pyval \<Rightarrow> (string \<times> pyval) list res" where
  "update_pairs v = bindE (param_source v) (mapE header_item)"

definition merged_headers :: "session \<Rightarrow> kwargs \<Rightarrow> pyval CaseInsensitiveDict res" where
  "merged_headers s kw = (let merged = cid_init (cid_items (se_headers s)) in
     if py_truth (dget kw ''headers'')
     then bindE (update_pairs (dget kw ''headers'')) (\<lambda>ps. Inr (cid_update merged ps))
     else Inr merged)"

definition merge_session_state :: "session \<Rightarrow> kwargs \<Rightarrow> (pyval \<times> pyval) option \<Rightarrow> (kwargs \<times> (pyval \<times> pyval) option) res" where
  "merge_session_state s kw auth =
     bindE (merged_headers s kw) (\<lambda>headers.
     bindE (merge_cookies (map PCookie (jar_get_cookies (se_cookies s)))
       (if py_truth (dget kw ''cookies'') then request_cookie_list (dget kw ''cookies'') else [])) (\<lambda>merged.
       Inr (dset (dset kw ''headers'' (PDict (cid_items headers))) ''cookies'' (if merged = [] then PNone else PList merged),
         case auth of Some a \<Rightarrow> Some a | None \<Rightarrow> se_auth s)))"

fun set_cookies :: "CookieJar \<Rightarrow> (pyval \<times> pyval) list \<Rightarrow> CookieJar res" where
  "set_cookies j [] = Inr j"
| "set_cookies j ((name, v) # cs) = bindE (jar_set j name v []) (\<lambda>j'. set_cookies j' cs)"

text \<open>The loop over \<^verbatim>\<open>response.cookies\<close> reads each value by its name.\<close>

definition response_values :: "CookieJar \<Rightarrow> (pyval \<times> pyval) list res" where
  "response_values j = mapE (\<lambda>n. bindE (jar_getitem j n) (\<lambda>v. Inr (n, v))) (jar_iter j)"

definition update_cookies_from_response :: "CookieJar \<Rightarrow> CookieJar \<Rightarrow> CookieJar res" where
  "update_cookies_from_response cookies response =
     (if jar_len response > 0 then bindE (response_values response) (set_cookies cookies) else Inr cookies)"

subsection \<open>Requests\<close>

definition fresh_headers :: "pyval \<Rightarrow> api_state \<Rightarrow> api_state" where
  "fresh_headers h st = st\<lparr>caller_headers := h\<rparr>"

definition finish_session_request :: "Response \<Rightarrow> session \<Rightarrow> session \<times> Response res" where
  "finish_session_request resp s = (case response_cookies resp of (j, resp') \<Rightarrow>
     (case update_cookies_from_response (se_cookies s) j of
        Inl e \<Rightarrow> (s, Inl e)
      | Inr cookies \<Rightarrow> (s\<lparr>se_cookies := cookies\<rparr>, Inr resp')))"

definition session_request :: "api_env \<Rightarrow> string \<Rightarrow> string \<Rightarrow> request_args \<Rightarrow> kwargs \<Rightarrow> Response se" where
  "session_request env meth url a kw = (\<lambda>(s, (st, f)).
     case merge_session_state s kw (ra_auth a) of
       Inl e \<Rightarrow> ((s, (st, f)), Inl e)
     | Inr (kw', auth) \<Rightarrow>
         (case request env (client.truncate s) meth (prepare_url s url) (a\<lparr>ra_auth := auth\<rparr>) kw'
             (fresh_headers (dget kw' ''headers'') st, f) of
            ((st', f'), Inl e) \<Rightarrow> ((s, (fresh_headers (caller_headers st) st', f')), Inl e)
          | ((st', f'), Inr resp) \<Rightarrow> (case finish_session_request resp s of
              (s', r) \<Rightarrow> ((s', (fresh_headers (caller_headers st) st', f')), r))))"

definition session_arequest :: "nat \<Rightarrow> api_env \<Rightarrow> string \<Rightarrow> string \<Rightarrow> request_args \<Rightarrow> int \<Rightarrow> int \<Rightarrow> bool \<Rightarrow> kwargs \<Rightarrow>
    session \<times> (api_state \<times> ffi_state) \<Rightarrow> ((session \<times> (api_state \<times> ffi_state)) \<times> Response res) option" where
  "session_arequest fuel env meth url a poll_interval timeout use_cb kw = (\<lambda>(s, (st, f)).
     case merge_session_state s kw (ra_auth a) of
       Inl e \<Rightarrow> Some ((s, (st, f)), Inl e)
     | Inr (kw', auth) \<Rightarrow>
         (case arequest fuel env (client.truncate s) meth (prepare_url s url) (a\<lparr>ra_auth := auth\<rparr>) poll_interval timeout use_cb kw'
             (fresh_headers (dget kw' ''headers'') st, f) of
            None \<Rightarrow> None
          | Some ((st', f'), Inl e) \<Rightarrow> Some ((s, (fresh_headers (caller_headers st) st', f')), Inl e)
          | Some ((st', f'), Inr resp) \<Rightarrow> (case finish_session_request resp s of
              (s', r) \<Rightarrow> Some ((s', (fresh_headers (caller_headers st) st', f')), r))))"

definition session_close :: "session \<Rightarrow> batcher_module \<Rightarrow> session \<times> batcher_module" where
  "session_close s m = (case client_close (client.truncate s) m of (c, m') \<Rightarrow>
     (client.extend c (session.fields (jar_init (Some [])) (cid_init []) (se_base_url s) (se_auth s)), m'))"

subsection \<open>Lemmas\<close>

lemma cid_lookup_update:
  "cid_ok d \<Longrightarrow> cid_lookup (cid_update d kvs) k = (case cid_lookup (cid_init kvs) k of None \<Rightarrow> cid_lookup d k | Some v \<Rightarrow> Some v)"
  unfolding cid_init_def cid_update_put_all by (rule cid.lookup_put_all)

text \<open>Merging cookies by name is overwriting in a dictionary of cookies by name.\<close>

definition keyed :: "cookie list \<Rightarrow> (pyval, cookie) dict" where
  "keyed cs = map (\<lambda>c. (ck_name c, c)) cs"

lemma dvals_keyed [simp]: "dvals (keyed cs) = cs"
  by (simp add: keyed_def comp_def)

lemma keyed_jar: "jar_ok j \<Longrightarrow> keyed (jar_get_cookies j) = jar_cookies j"
  unfolding keyed_def jar_get_cookies_def map_map by (rule map_idI) (auto simp: jar_ok_def list_all_iff)

lemma keyed_dset: "keyed (dvals (dset (keyed cs) (ck_name c) c)) = dset (keyed cs) (ck_name c) c"
  by (induction cs) (auto simp: keyed_def comp_def)

lemma merge_cookie_dset:
  "merge_cookie (map PCookie cs) (PCookie c) = Inr (map PCookie (dvals (dset (keyed cs) (ck_name c) c)))"
  by (induction cs) (auto simp: keyed_def comp_def)

lemma merge_cookies_dupdate:
  "merge_cookies (map PCookie cs) (map PCookie ds) = Inr (map PCookie (dvals (dupdate (keyed cs) (keyed ds))))"
proof (induction ds arbitrary: cs)
  case (Cons d ds)
  let ?cs = "dvals (dset (keyed cs) (ck_name d) d)"
  have "keyed (d # ds) = (ck_name d, d) # keyed ds" by (simp add: keyed_def)
  moreover have "merge_cookies (map PCookie ?cs) (map PCookie ds) = Inr (map PCookie (dvals (dupdate (keyed ?cs) (keyed ds))))"
    by (rule Cons.IH)
  ultimately show ?case unfolding keyed_dset by (simp add: merge_cookie_dset)
qed (simp add: keyed_def comp_def)

text \<open>The cookies of a request, when all of them are \<^verbatim>\<open>Cookie\<close> objects.\<close>

definition is_cookie_arg :: "pyval \<Rightarrow> cookie list \<Rightarrow> bool" where
  "is_cookie_arg v ds = ((if py_truth v then request_cookie_list v else []) = map PCookie ds)"

lemma update_pairs_PDict [simp]: "update_pairs (PDict d) = Inr d"
proof -
  have "mapE header_item (map (\<lambda>(k, v). (PStr k, v)) d) = Inr d" by (induction d) auto
  then show ?thesis by (simp add: update_pairs_def)
qed

lemma merged_headers_lookup:
  assumes "cid_ok (se_headers s)" "dget kw ''headers'' = PDict h"
  shows "\<exists>m. merged_headers s kw = Inr m \<and> cid_ok m \<and>
    (\<forall>k. cid_lookup m k = (case cid_lookup (cid_init h) k of None \<Rightarrow> cid_lookup (se_headers s) k | Some v \<Rightarrow> Some v))"
proof (cases "h = []")
  case True
  with assms show ?thesis
    by (simp add: merged_headers_def cid_init_items) (simp add: cid_init_def cid_lookup_def)
next
  case False
  with assms show ?thesis by (simp add: merged_headers_def cid_init_items cid_lookup_update)
qed

text \<open>What a response leaves in the jar.\<close>

lemma set_cookies_simple:
  "\<exists>j'. set_cookies j kvs = Inr j' \<and> jar_cookies j' = dupdate (jar_cookies j) (map (\<lambda>(n, v). (n, simple_cookie n v)) kvs)"
proof (induction kvs arbitrary: j)
  case (Cons kv kvs)
  obtain n v where kv: "kv = (n, v)" by (cases kv)
  have "jar_set j n v [] = Inr (j\<lparr>jar_cookies := dset (jar_cookies j) n (simple_cookie n v)\<rparr>)"
    by (simp add: jar_set_def cookie_of_kwargs_def simple_cookie_def dget_def)
  with Cons.IH [of "j\<lparr>jar_cookies := dset (jar_cookies j) n (simple_cookie n v)\<rparr>"] kv show ?case by simp
qed simp

lemma response_values_items: "jar_ok j \<Longrightarrow> response_values j = Inr (map (\<lambda>(n, c). (n, ck_value c)) (jar_cookies j))"
proof -
  assume ok: "jar_ok j"
  have "response_values j = Inr (map (\<lambda>n. (n, ck_value (the (map_of (jar_cookies j) n)))) (jar_iter j))"
    unfolding response_values_def
    by (rule mapE_all_Inr) (auto simp: jar_getitem_def jar_iter_def split: option.splits dest: weak_map_of_SomeI)
  also have "\<dots> = Inr (map (\<lambda>(n, c). (n, ck_value c)) (jar_cookies j))"
    using ok by (auto simp: jar_ok_def jar_iter_def)
  finally show ?thesis .
qed

lemma update_cookies_from_response_eq:
  assumes "jar_ok r"
  shows "\<exists>j'. update_cookies_from_response j r = Inr j' \<and>
    jar_cookies j' = dupdate (jar_cookies j) (map (\<lambda>(n, c). (n, simple_cookie n (ck_value c))) (jar_cookies r))"
proof (cases "jar_cookies r = []")
  case False
  then show ?thesis
    using set_cookies_simple [of j "map (\<lambda>(n, c). (n, ck_value c)) (jar_cookies r)"]
    by (simp add: update_cookies_from_response_def jar_len_def response_values_items [OF assms] comp_def split_def)
qed (simp add: update_cookies_from_response_def jar_len_def)

lemma request_response:
  assumes "request env c meth url a kw s = (s', Inr resp)"
  shows "jar_ok (fst (response_cookies resp))"
proof -
  from assms obtain v where "parse_response (e_fromiso env) v = Inr resp"
    unfolding request_def by (auto simp: liftX_def elim!: bindX_InrE split: option.splits)
  then obtain d where "dict_to_response (e_fromiso env) d True = Inr resp" using parse_response_Inr by blast
  then have "cookie_jar resp = None" by (auto simp: dict_to_response_def bindE_eq_Inr)
  then show ?thesis by (simp add: response_cookies_def Let_def)
qed

subsection \<open>Properties\<close>

text \<open>C10. \<^verbatim>\<open>_merge_session_state\<close> implements "the request wins over the session": every header name, whatever its case, has
  the value of the request or else of the session; the cookies are those of the session's jar overwritten by name
  with those of the request, in the jar's order with new ones at the end (given as a dictionary, a jar or a list of
  \<^verbatim>\<open>Cookie\<close> objects); the credentials of the request replace those of the session; no other option changes.\<close>

theorem session_merge_refines:
  assumes "cid_ok (se_headers s)" "jar_ok (se_cookies s)"
    and "dget kw ''headers'' = PDict h" "is_cookie_arg (dget kw ''cookies'') ds"
  shows "\<exists>kw' hd. merge_session_state s kw auth = Inr (kw', case auth of Some a \<Rightarrow> Some a | None \<Rightarrow> se_auth s) \<and>
    dget kw' ''headers'' = PDict hd \<and>
    (\<forall>k. cid_lookup (cid_init hd) k =
       (case cid_lookup (cid_init h) k of None \<Rightarrow> cid_lookup (se_headers s) k | Some v \<Rightarrow> Some v)) \<and>
    dget kw' ''cookies'' = (let cs = dvals (dupdate (jar_cookies (se_cookies s)) (keyed ds))
       in if cs = [] then PNone else PList (map PCookie cs)) \<and>
    (\<forall>x. x \<notin> {''headers'', ''cookies''} \<longrightarrow> map_of kw' x = map_of kw x)"
proof -
  obtain m where m: "merged_headers s kw = Inr m" "cid_ok m"
    "\<forall>k. cid_lookup m k = (case cid_lookup (cid_init h) k of None \<Rightarrow> cid_lookup (se_headers s) k | Some v \<Rightarrow> Some v)"
    using merged_headers_lookup [OF assms(1,3)] by blast
  let ?cs = "dvals (dupdate (jar_cookies (se_cookies s)) (keyed ds))"
  have "merge_cookies (map PCookie (jar_get_cookies (se_cookies s)))
      (if py_truth (dget kw ''cookies'') then request_cookie_list (dget kw ''cookies'') else []) = Inr (map PCookie ?cs)"
    using assms(4) merge_cookies_dupdate [of "jar_get_cookies (se_cookies s)" ds]
    by (simp add: is_cookie_arg_def keyed_jar [OF assms(2)])
  with m show ?thesis
    by (simp add: merge_session_state_def Let_def cid_init_items dget_map_of)
qed

theorem session_merge_refines_witness:
  "\<exists>kw' auth hd. merge_session_state \<lparr>cl_closed = False, cl_use_batching = False, cl_batcher = None,
       se_cookies = jar_init (Some [simple_cookie (PStr ''sid'') (PStr ''1'')]),
       se_headers = cid_init [(''Accept'', PStr ''*/*'')], se_base_url = None, se_auth = None\<rparr>
       [(''headers'', PDict [(''ACCEPT'', PStr ''text/html'')]), (''cookies'', PDict [(''sid'', PStr ''2'')])] None = Inr (kw', auth) \<and>
     dget kw' ''headers'' = PDict hd \<and> cid_lookup (cid_init hd) ''accept'' = Some (PStr ''text/html'') \<and>
     dget kw' ''cookies'' = PList [PCookie (simple_cookie (PStr ''sid'') (PStr ''2''))]"
proof -
  let ?s = "\<lparr>cl_closed = False, cl_use_batching = False, cl_batcher = None,
       se_cookies = jar_init (Some [simple_cookie (PStr ''sid'') (PStr ''1'')]),
       se_headers = cid_init [(''Accept'', PStr ''*/*'')], se_base_url = None, se_auth = None\<rparr>"
  let ?h = "[(''ACCEPT'', PStr ''text/html'')]"
  let ?kw = "[(''headers'', PDict ?h), (''cookies'', PDict [(''sid'', PStr ''2'')])]"
  let ?ds = "[simple_cookie (PStr ''sid'') (PStr ''2'')]"
  have "cid_ok (se_headers ?s)" "jar_ok (se_cookies ?s)" by simp_all
  moreover have "dget ?kw ''headers'' = PDict ?h" "is_cookie_arg (dget ?kw ''cookies'') ?ds"
    by (simp_all add: dget_map_of is_cookie_arg_def)
  ultimately obtain kw' hd where kw': "merge_session_state ?s ?kw None = Inr (kw', None)" "dget kw' ''headers'' = PDict hd"
    "cid_lookup (cid_init hd) ''accept'' = (case cid_lookup (cid_init ?h) ''accept'' of None \<Rightarrow> cid_lookup (se_headers ?s) ''accept''
       | Some v \<Rightarrow> Some v)"
    "dget kw' ''cookies'' = (let cs = dvals (dupdate (jar_cookies (se_cookies ?s)) (keyed ?ds))
       in if cs = [] then PNone else PList (map PCookie cs))"
    using session_merge_refines [of ?s ?kw ?h ?ds None] by auto
  moreover have "cid_lookup (cid_init ?h) ''accept'' = Some (PStr ''text/html'')" by code_simp
  moreover have "dvals (dupdate (jar_cookies (se_cookies ?s)) (keyed ?ds)) = ?ds" by (simp add: jar_init_def keyed_def)
  ultimately show ?thesis by auto
qed

text \<open>C33. After a session's request the jar holds every cookie of the response, but only its name and value: domain, path,
  expiry and the Secure flag are dropped, so that the next request of the session sends the cookie to whatever host
  it goes to. A failed request leaves the session as it was, and in no case is the caller's dictionary of headers
  changed.\<close>

theorem session_cookies_lose_scope:
  assumes "session_request env meth url a kw (s, (st, f)) = ((s', (st', f')), r)"
  shows "caller_headers st' = caller_headers st \<and>
    (case r of Inl e \<Rightarrow> s' = s
     | Inr resp \<Rightarrow> (\<exists>j. s' = s\<lparr>se_cookies := j\<rparr> \<and>
         jar_cookies j = dupdate (jar_cookies (se_cookies s))
           (map (\<lambda>(n, c). (n, Cookie n (ck_value c) PNone PNone PNone PNone (PBool False) (PBool False) PNone))
             (jar_cookies (fst (response_cookies resp))))))"
proof (cases "merge_session_state s kw (ra_auth a)")
  case (Inl e)
  with assms show ?thesis by (auto simp: session_request_def)
next
  case (Inr ka)
  obtain kw' auth where ka: "ka = (kw', auth)" by (cases ka)
  obtain st1 f1 r1 where q: "request env (client.truncate s) meth (prepare_url s url) (a\<lparr>ra_auth := auth\<rparr>) kw'
      (fresh_headers (dget kw' ''headers'') st, f) = ((st1, f1), r1)" by (metis prod.exhaust)
  show ?thesis
  proof (cases r1)
    case (Inl e)
    with assms q Inr ka show ?thesis by (auto simp: session_request_def fresh_headers_def)
  next
    case r1: (Inr resp)
    obtain j resp' where j: "response_cookies resp = (j, resp')" by (cases "response_cookies resp")
    obtain s2 r2 where fin: "finish_session_request resp s = (s2, r2)" by (cases "finish_session_request resp s")
    from assms q Inr ka r1 fin have res: "s' = s2" "r = r2" "caller_headers st' = caller_headers st"
      by (auto simp: session_request_def fresh_headers_def)
    show ?thesis
    proof (cases "update_cookies_from_response (se_cookies s) j")
      case (Inl e)
      with fin j res show ?thesis by (auto simp: finish_session_request_def)
    next
      case (Inr j')
      with fin j res have eq: "s' = s\<lparr>se_cookies := j'\<rparr>" "r = Inr resp'" by (auto simp: finish_session_request_def)
      have "fst (response_cookies resp') = j" using response_cookies_cached [OF j] by simp
      moreover have "jar_ok j" using request_response [OF q [unfolded r1]] j by simp
      ultimately show ?thesis
        using eq res(3) Inr update_cookies_from_response_eq [of j "se_cookies s"]
        by (auto simp: simple_cookie_def)
    qed
  qed
qed

text \<open>A session of the example client whose jar has one cookie.\<close>

definition example_session :: session where
  "example_session = \<lparr>cl_closed = False, cl_use_batching = False, cl_batcher = None,
     se_cookies = jar_init (Some [simple_cookie (PStr ''sid'') (PStr ''1'')]),
     se_headers = cid_init [], se_base_url = Some ''https://a.b'', se_auth = None\<rparr>"

text \<open>A library that answers every request with one cookie that is restricted to a domain.\<close>

definition cookie_reply :: pyval where
  "cookie_reply = PDict [(''Status'', PInt 200), (''Body'', PStr ''ok''), (''Headers'', PDict []),
     (''Cookies'', PList [PDict [(''name'', PStr ''t''), (''value'', PStr ''x''), (''domain'', PStr ''bank.example''), (''secure'', PBool True)]])]"

definition cookie_env :: api_env where
  "cookie_env = example_env\<lparr>e_world := example_world\<lparr>w_unpackb := (\<lambda>_. Inr cookie_reply)\<rparr>\<rparr>"

theorem session_cookies_lose_scope_witness:
  "\<exists>s' x' resp. session_request cookie_env ''get'' ''/login'' no_args [] (example_session, example_state) = ((s', x'), Inr resp) \<and>
     jar_cookies (se_cookies s') = [(PStr ''sid'', simple_cookie (PStr ''sid'') (PStr ''1'')),
       (PStr ''t'', Cookie (PStr ''t'') (PStr ''x'') PNone PNone PNone PNone (PBool False) (PBool False) PNone)]"
proof -
  let ?q = "session_request cookie_env ''get'' ''/login'' no_args [] (example_session, example_state)"
  obtain s' st' f' r where q: "?q = ((s', (st', f')), r)" by (metis prod.exhaust)
  have j: "(case snd ?q of Inr resp \<Rightarrow> map (\<lambda>(n, c). (n, ck_value c)) (jar_cookies (fst (response_cookies resp))) =
      [(PStr ''t'', PStr ''x'')] | Inl _ \<Rightarrow> False)"
    by code_simp
  then obtain resp where r: "r = Inr resp" using q by (cases r) auto
  with j q have "map (\<lambda>(n, c). (n, ck_value c)) (jar_cookies (fst (response_cookies resp))) = [(PStr ''t'', PStr ''x'')]" by simp
  then obtain c where c: "jar_cookies (fst (response_cookies resp)) = [(PStr ''t'', c)]" "ck_value c = PStr ''x''"
    by auto
  from session_cookies_lose_scope [OF q [unfolded example_state_def]] r c
  have "jar_cookies (se_cookies s') = dupdate (jar_cookies (se_cookies example_session))
      [(PStr ''t'', Cookie (PStr ''t'') (PStr ''x'') PNone PNone PNone PNone (PBool False) (PBool False) PNone)]"
    by auto
  with q r show ?thesis by (simp add: example_session_def jar_init_def)
qed

text \<open>A session cannot be given cookies as a list of dictionaries, the form a plain client accepts: once the jar has a
  cookie (or the list a second dictionary) the merge raises \<^verbatim>\<open>AttributeError\<close>, and no request is made.\<close>

theorem session_rejects_cookie_dicts:
  assumes "dget kw ''cookies'' = PList (PDict c # rest)" "merged_headers s kw = Inr h"
    and "jar_cookies (se_cookies s) \<noteq> [] \<or> (\<exists>c' rest'. rest = PDict c' # rest')"
  shows "session_request env meth url a kw (s, x) = ((s, x), Inl (no_attribute ''name'')) \<and>
    convert_cookies (dget kw ''cookies'') = PList (PCookie (cookie_of_dict c) # map convert_cookie rest)"
proof -
  have "merge_cookies (map PCookie (jar_get_cookies (se_cookies s))) (PDict c # rest) = Inl (no_attribute ''name'')"
  proof (cases "jar_get_cookies (se_cookies s)")
    case Nil
    with assms(3) show ?thesis by (auto simp: jar_get_cookies_def)
  qed simp
  then have "merge_session_state s kw (ra_auth a) = Inl (no_attribute ''name'')"
    using assms(1,2) by (simp add: merge_session_state_def)
  then show ?thesis using assms(1) by (cases x) (simp add: session_request_def)
qed

theorem session_rejects_cookie_dicts_witness:
  "session_request example_env ''get'' ''/'' no_args [(''cookies'', PList [PDict [(''name'', PStr ''a'')]])] (example_session, example_state) =
     ((example_session, example_state), Inl (no_attribute ''name''))"
  using session_rejects_cookie_dicts [of "[(''cookies'', PList [PDict [(''name'', PStr ''a'')]])]" "[(''name'', PStr ''a'')]" "[]" example_session
    "cid_init (cid_items (se_headers example_session))" example_env "''get''" "''/''" no_args example_state]
  by (simp add: dget_map_of merged_headers_def example_session_def jar_init_def)

text \<open>A closed session has forgotten its cookies and headers and makes no request.\<close>

lemma session_close_forgets:
  assumes "session_close s m = (s', m')"
  shows "cl_closed s' \<and> cl_batcher s' = None \<and> jar_cookies (se_cookies s') = [] \<and> cid_store (se_headers s') = [] \<and>
    se_base_url s' = se_base_url s \<and> se_auth s' = se_auth s"
  using assms by (auto simp: session_close_def client_close_def client.defs session.defs jar_init_def cid_init_def
    split: option.splits)

text \<open>Leaving \<^verbatim>\<open>with Session()\<close> closes the session; leaving \<^verbatim>\<open>async with Session()\<close> only marks it as closed, so that it keeps its
  cookies and headers and its batcher is not shut down.\<close>

lemma leaving_session_blocks:
  assumes "client_exit session_close (client_enter s) m = ((s', m'), b)" "client_aexit (client_aenter s) = (s'', b')"
  shows "(s', m') = session_close s m \<and> \<not> b \<and> \<not> b' \<and> cl_closed s' \<and> cl_closed s'' \<and>
    jar_cookies (se_cookies s') = [] \<and> cid_store (se_headers s') = [] \<and> cl_batcher s' = None \<and>
    se_cookies s'' = se_cookies s \<and> se_headers s'' = se_headers s \<and> cl_batcher s'' = cl_batcher s"
proof -
  have "session_close s m = (s', m')" using assms(1) by (simp add: client_exit_def client_enter_def)
  from session_close_forgets [OF this] this show ?thesis
    using assms by (auto simp: client_exit_def client_aexit_def client_aenter_def client_aclose_def)
qed

end
