(* ===== verification/AsyncApi.thy ===== *)
theory AsyncApi
  imports Api
begin

section \<open>Asynchronous verbs and the asynchronous client (\<^verbatim>\<open>cycletls/api.py\<close>, \<^verbatim>\<open>cycletls/async_api.py\<close>)\<close>

text \<open>
  The asynchronous verbs pass their arguments to \<^verbatim>\<open>arequest\<close>. Its timing parameters \<^verbatim>\<open>poll_interval\<close>, \<^verbatim>\<open>timeout\<close> and
  \<^verbatim>\<open>use_callback\<close> are taken out of the options by name; \<open>arequest_kw\<close> is \<^verbatim>\<open>arequest\<close> called with a dictionary of
  options that may have them. Times of the model are whole microseconds: the result is \<open>None\<close> for an interval or
  a timeout that is no such number, as when the fuel of the polling loop is used up.

  \<^verbatim>\<open>AsyncCycleTLS\<close> is a client whose verbs are the asynchronous ones (\<open>acl_\<close>...); the functions \<^verbatim>\<open>async_get\<close>,
  \<^verbatim>\<open>async_post\<close>, \<^verbatim>\<open>async_put\<close> and \<^verbatim>\<open>async_delete\<close> make a client for one request.
\<close>

fun micros :: "pyval \<Rightarrow> int option" where
  "micros (PInt n) = Some (n * 1000000)"
| "micros (PFloat (Fin m e)) = (if e \<ge> - 6 then Some (m * 10 ^ nat (e + 6))
     else if m mod 10 ^ nat (- 6 - e) = 0 then Some (m div 10 ^ nat (- 6 - e)) else None)"
| "micros _ = None"

definition split_timing :: "kwargs \<Rightarrow> ((int \<times> int \<times> bool) \<times> kwargs) option" where
  "split_timing kw =
    (case (micros (dget_or kw ''poll_interval'' (PInt 0)), micros (dget_or kw ''timeout'' (PInt 30))) of
       (Some poll_interval, Some timeout) \<Rightarrow>
         Some ((poll_interval, timeout, py_truth (dget_or kw ''use_callback'' (PBool False))),
           filter (\<lambda>(k, _). k \<notin> {''poll_interval'', ''timeout'', ''use_callback''}) kw)
     | _ \<Rightarrow> None)"

type_synonym 'a async = "api_state \<times> ffi_state \<Rightarrow> ((api_state \<times> ffi_state) \<times> 'a res) option"

definition arequest_kw :: "nat \<Rightarrow> api_env \<Rightarrow> client \<Rightarrow> string \<Rightarrow> string \<Rightarrow> request_args \<Rightarrow> kwargs \<Rightarrow> Response async" where
  "arequest_kw fuel env c meth url a kw s = (case split_timing kw of
     None \<Rightarrow> None
   | Some ((poll_interval, timeout, use_cb), options) \<Rightarrow> arequest fuel env c meth url a poll_interval timeout use_cb options s)"

definition aget :: "nat \<Rightarrow> api_env \<Rightarrow> client \<Rightarrow> string \<Rightarrow> request_args \<Rightarrow> kwargs \<Rightarrow> Response async" where
  "aget fuel env c url a kw = arequest_kw fuel env c ''get'' url a kw"

definition aoptions :: "nat \<Rightarrow> api_env \<Rightarrow> client \<Rightarrow> string \<Rightarrow> request_args \<Rightarrow> kwargs \<Rightarrow> Response async" where
  "aoptions fuel env c url a kw = arequest_kw fuel env c ''options'' url a kw"

definition ahead :: "nat \<Rightarrow> api_env \<Rightarrow> client \<Rightarrow> string \<Rightarrow> request_args \<Rightarrow> kwargs \<Rightarrow> Response async" where
  "ahead fuel env c url a kw = arequest_kw fuel env c ''head'' url a kw"

definition apost :: "nat \<Rightarrow> api_env \<Rightarrow> client \<Rightarrow> string \<Rightarrow> request_args \<Rightarrow> kwargs \<Rightarrow> Response async" where
  "apost fuel env c url a kw = arequest_kw fuel env c ''post'' url a kw"

definition aput :: "nat \<Rightarrow> api_env \<Rightarrow> client \<Rightarrow> string \<Rightarrow> request_args \<Rightarrow> kwargs \<Rightarrow> Response async" where
  "aput fuel env c url a kw = arequest_kw fuel env c ''put'' url a kw"

definition apatch :: "nat \<Rightarrow> api_env \<Rightarrow> client \<Rightarrow> string \<Rightarrow> request_args \<Rightarrow> kwargs \<Rightarrow> Response async" where
  "apatch fuel env c url a kw = arequest_kw fuel env c ''patch'' url a kw"

definition adelete :: "nat \<Rightarrow> api_env \<Rightarrow> client \<Rightarrow> string \<Rightarrow> request_args \<Rightarrow> kwargs \<Rightarrow> Response async" where
  "adelete fuel env c url a kw = arequest_kw fuel env c ''delete'' url a kw"

subsection \<open>AsyncCycleTLS\<close>

text \<open>Every verb has the named parameter \<^verbatim>\<open>auth\<close> and does not pass it on; those with a body also have \<^verbatim>\<open>json\<close>.\<close>

definition drop_auth :: "request_args \<Rightarrow> request_args" where
  "drop_auth a = a\<lparr>ra_auth := None\<rparr>"

definition drop_json_auth :: "request_args \<Rightarrow> request_args" where
  "drop_json_auth a = a\<lparr>ra_json := PNone, ra_auth := None\<rparr>"

definition acl_request :: "nat \<Rightarrow> api_env \<Rightarrow> client \<Rightarrow> string \<Rightarrow> string \<Rightarrow> request_args \<Rightarrow> kwargs \<Rightarrow> Response async" where
  "acl_request fuel env c meth url a kw = arequest_kw fuel env c meth url (drop_json_auth a) kw"

definition acl_get :: "nat \<Rightarrow> api_env \<Rightarrow> client \<Rightarrow> string \<Rightarrow> request_args \<Rightarrow> kwargs \<Rightarrow> Response async" where
  "acl_get fuel env c url a kw = aget fuel env c url (drop_auth a) kw"

definition acl_options :: "nat \<Rightarrow> api_env \<Rightarrow> client \<Rightarrow> string \<Rightarrow> request_args \<Rightarrow> kwargs \<Rightarrow> Response async" where
  "acl_options fuel env c url a kw = aoptions fuel env c url (drop_auth a) kw"

definition acl_head :: "nat \<Rightarrow> api_env \<Rightarrow> client \<Rightarrow> string \<Rightarrow> request_args \<Rightarrow> kwargs \<Rightarrow> Response async" where
  "acl_head fuel env c url a kw = ahead fuel env c url (drop_auth a) kw"

definition acl_post :: "nat \<Rightarrow> api_env \<Rightarrow> client \<Rightarrow> string \<Rightarrow> request_args \<Rightarrow> kwargs \<Rightarrow> Response async" where
  "acl_post fuel env c url a kw = apost fuel env c url (drop_json_auth a) kw"

definition acl_put :: "nat \<Rightarrow> api_env \<Rightarrow> client \<Rightarrow> string \<Rightarrow> request_args \<Rightarrow> kwargs \<Rightarrow> Response async" where
  "acl_put fuel env c url a kw = aput fuel env c url (drop_json_auth a) kw"

definition acl_patch :: "nat \<Rightarrow> api_env \<Rightarrow> client \<Rightarrow> string \<Rightarrow> request_args \<Rightarrow> kwargs \<Rightarrow> Response async" where
  "acl_patch fuel env c url a kw = apatch fuel env c url (drop_json_auth a) kw"

definition acl_delete :: "nat \<Rightarrow> api_env \<Rightarrow> client \<Rightarrow> string \<Rightarrow> request_args \<Rightarrow> kwargs \<Rightarrow> Response async" where
  "acl_delete fuel env c url a kw = adelete fuel env c url (drop_auth a) kw"

definition acl_close :: "client \<Rightarrow> batcher_module \<Rightarrow> client \<times> batcher_module" where
  "acl_close c m = client_close c m"

subsection \<open>Functions that make a client for one request\<close>

text \<open>\<^verbatim>\<open>CycleTLS()\<close>: without batching, so that neither making it nor \<^verbatim>\<open>aclose\<close> touches the batcher.\<close>

definition new_client :: client where
  "new_client = \<lparr>cl_closed = False, cl_use_batching = False, cl_batcher = None\<rparr>"

definition async_get :: "nat \<Rightarrow> api_env \<Rightarrow> string \<Rightarrow> request_args \<Rightarrow> kwargs \<Rightarrow> Response async" where
  "async_get fuel env url a kw = aget fuel env new_client url a kw"

definition async_post :: "nat \<Rightarrow> api_env \<Rightarrow> string \<Rightarrow> request_args \<Rightarrow> kwargs \<Rightarrow> Response async" where
  "async_post fuel env url a kw = apost fuel env new_client url a kw"

definition async_put :: "nat \<Rightarrow> api_env \<Rightarrow> string \<Rightarrow> request_args \<Rightarrow> kwargs \<Rightarrow> Response async" where
  "async_put fuel env url a kw = aput fuel env new_client url a kw"

definition async_delete :: "nat \<Rightarrow> api_env \<Rightarrow> string \<Rightarrow> request_args \<Rightarrow> kwargs \<Rightarrow> Response async" where
  "async_delete fuel env url a kw = adelete fuel env new_client url a kw"

subsection \<open>Lemmas\<close>

lemma new_client_init: "client_init False bs fi m = (new_client, m)"
  by (simp add: client_init_def new_client_def)

lemma split_timing_options:
  assumes "split_timing kw = Some (t, options)"
  shows "map_of options ''timeout'' = None"
    "k \<notin> {''poll_interval'', ''timeout'', ''use_callback''} \<Longrightarrow> map_of options k = map_of kw k"
proof -
  from assms have o: "options = filter (\<lambda>(k, _). k \<notin> {''poll_interval'', ''timeout'', ''use_callback''}) kw"
    by (auto simp: split_timing_def split: option.splits)
  show "map_of options ''timeout'' = None" unfolding o map_of_filter_key by simp
  show "k \<notin> {''poll_interval'', ''timeout'', ''use_callback''} \<Longrightarrow> map_of options k = map_of kw k"
    unfolding o map_of_filter_key by (simp only: simp_thms if_True)
qed

lemmas acl_defs = acl_request_def acl_get_def acl_options_def acl_head_def acl_post_def acl_put_def acl_patch_def
  acl_delete_def drop_auth_def drop_json_auth_def

text \<open>Preparing a request without any option: an empty body and no headers.\<close>

lemma prepare_empty:
  assumes "\<not> cl_closed c"
  shows "sent_option (snd (prepare_request env c meth url no_args [] (st, f))) ''body'' = Some (PStr []) \<and>
    sent_option (snd (prepare_request env c meth url no_args [] (st, f))) ''headers'' = Some (PDict [])"
proof -
  have p: "prepare_request env c meth url no_args [] (st, f) = finish_request env meth url [] (st, f)"
    using assms by (simp add: prepare_request_def no_args_def step_json_def step_auth_def step_fingerprint_def pop_body_def
      step_user_agent_def merge_url_params_def step_body_def step_files_def store_body_def set_opt_def headers_of_def
      eff_simps Let_def py_or_def dget_map_of)
  obtain m where m: "request_init url meth (step_cookies []) = Inr m" "rq_body m = PStr []" "rq_headers m = PDict []"
    by (simp add: request_init_def step_cookies_none)
  obtain options where o: "request_to_dict m = Inr options" using to_dict_default [OF m(1)] by (auto simp: step_cookies_none)
  have "map_of options ''body'' = Some (rq_body m)" "map_of options ''headers'' = Some (rq_headers m)"
    by (subst request_to_dict_plain [OF o]; simp add: plain_options_def Let_def required_options_def)+
  with m o show ?thesis
    unfolding p by (simp add: finish_request_def next_request_id_def eff_simps)
qed

subsection \<open>Properties\<close>

text \<open>The asynchronous client accepts \<^verbatim>\<open>json\<close> and \<^verbatim>\<open>auth\<close> and ignores both: whatever they are, its requests are the
  same, and a request with only \<^verbatim>\<open>json\<close> is sent with an empty body and without a Content-Type.\<close>

theorem async_client_ignores_json_and_auth:
  assumes "\<not> cl_closed c"
  shows "acl_request fuel env c meth url (a\<lparr>ra_json := j, ra_auth := au\<rparr>) kw = acl_request fuel env c meth url a kw \<and>
    acl_post fuel env c url (a\<lparr>ra_json := j, ra_auth := au\<rparr>) kw = acl_post fuel env c url a kw \<and>
    acl_put fuel env c url (a\<lparr>ra_json := j, ra_auth := au\<rparr>) kw = acl_put fuel env c url a kw \<and>
    acl_patch fuel env c url (a\<lparr>ra_json := j, ra_auth := au\<rparr>) kw = acl_patch fuel env c url a kw \<and>
    acl_get fuel env c url (a\<lparr>ra_auth := au\<rparr>) kw = acl_get fuel env c url a kw \<and>
    acl_delete fuel env c url (a\<lparr>ra_auth := au\<rparr>) kw = acl_delete fuel env c url a kw \<and>
    acl_post fuel env c url (no_args\<lparr>ra_json := j, ra_auth := au\<rparr>) [] = arequest fuel env c ''post'' url no_args 0 30000000 False [] \<and>
    sent_option (snd (prepare_request env c ''post'' url no_args [] (st, f))) ''body'' = Some (PStr []) \<and>
    sent_option (snd (prepare_request env c ''post'' url no_args [] (st, f))) ''headers'' = Some (PDict [])"
proof -
  have "split_timing [] = Some ((0, 30000000, False), [])" by (simp add: split_timing_def)
  then have "arequest_kw fuel env c ''post'' url no_args [] = arequest fuel env c ''post'' url no_args 0 30000000 False []"
    by (simp add: arequest_kw_def fun_eq_iff)
  with prepare_empty [OF assms] show ?thesis by (simp add: acl_defs apost_def no_args_def)
qed

theorem async_client_ignores_json_and_auth_witness:
  "acl_post 9 example_env plain_client ''https://a.b'' (no_args\<lparr>ra_json := PDict [(''k'', PInt 1)], ra_auth := None\<rparr>) [] =
     arequest 9 example_env plain_client ''post'' ''https://a.b'' no_args 0 30000000 False []"
proof -
  have "\<not> cl_closed plain_client" by (simp add: plain_client_def)
  from async_client_ignores_json_and_auth [OF this] show ?thesis by blast
qed

end
