(* ===== verification/ModuleApi.thy ===== *)
theory ModuleApi
  imports AsyncApi Config Global
begin

section \<open>The functions of the package (\<^verbatim>\<open>cycletls/__init__.py\<close>)\<close>

text \<open>
  \<^verbatim>\<open>cycletls.get\<close> and the other functions take the global session, merge the configured defaults into the options and
  call the session; the asynchronous ones make a client for one request. \<open>module_state\<close> has the configuration and
  the globals of \<^verbatim>\<open>_global.py\<close>; the session object of number \<open>i\<close> is a client without batching that is closed when
  its \<^verbatim>\<open>close\<close> ran.

  Python has one dictionary for all keyword arguments. Here those that are parameters of \<^verbatim>\<open>request\<close> are in the record
  \<open>a\<close> and the others in \<open>kw\<close>; \<open>named_args\<close> puts the former back for the merge, which tests whether there are any
  keyword arguments, and \<open>without_named\<close> takes them out again. \<open>named\<close> is the part of \<open>a\<close> that came as keyword
  arguments of the package's function.

  Without headers of the call, the dictionary of headers that is prepared is the object in the configuration, which
  the cached defaults share; \<open>end_call\<close> writes what the preparation made of it back there.
\<close>

record module_state =
  ms_config :: config_state
  ms_globals :: global_vars

type_synonym 'a pkg = "(module_state \<times> (api_state \<times> ffi_state), 'a) eff"

definition global_client :: "global_vars \<Rightarrow> nat \<Rightarrow> client" where
  "global_client g i = \<lparr>cl_closed = (i \<in> set (closed_sessions g)), cl_use_batching = False, cl_batcher = None\<rparr>"

definition named_keys :: "string list" where
  "named_keys = [''params'', ''data'', ''json_data'', ''json'', ''files'', ''fingerprint'', ''auth'']"

definition named_items :: "request_args \<Rightarrow> kwargs" where
  "named_items a =
     [(''params'', ra_params a), (''data'', ra_data a), (''json_data'', ra_json_data a), (''json'', ra_json a),
      (''files'', if ra_files a = None then PNone else PBool True),
      (''fingerprint'', if ra_fingerprint a = None then PNone else PBool True),
      (''auth'', if ra_auth a = None then PNone else PBool True)]"

definition named_args :: "request_args \<Rightarrow> kwargs" where
  "named_args a = filter (\<lambda>(_, v). v \<noteq> PNone) (named_items a)"

definition without_named :: "kwargs \<Rightarrow> kwargs" where
  "without_named kw = filter (\<lambda>(k, _). k \<notin> set named_keys) kw"

definition merge_call :: "config_state \<Rightarrow> request_args \<Rightarrow> kwargs \<Rightarrow> kwargs \<times> config_state" where
  "merge_call c named kw = (case merge_defaults c (kw @ named_args named) of (merged, c') \<Rightarrow> (without_named merged, c'))"

text \<open>A change of the headers object: \<open>used\<close> was its content.\<close>

definition store_headers :: "pyval \<Rightarrow> pyval \<Rightarrow> config_state \<Rightarrow> config_state" where
  "store_headers used new c = c\<lparr>
     cfg := (if map_of (cfg c) ''default_headers'' = Some used then dset (cfg c) ''default_headers'' new else cfg c),
     merged_cache := map_option (\<lambda>d. if map_of d ''headers'' = Some used then dset d ''headers'' new else d) (merged_cache c)\<rparr>"

definition end_call :: "kwargs \<Rightarrow> kwargs \<Rightarrow> module_state \<Rightarrow> api_state \<Rightarrow> api_state \<Rightarrow> module_state \<times> api_state" where
  "end_call kw options ms st st' = (if dhas kw ''headers'' then (ms, st')
     else (ms\<lparr>ms_config := store_headers (dget options ''headers'') (caller_headers st') (ms_config ms)\<rparr>,
       st'\<lparr>caller_headers := caller_headers st\<rparr>))"

definition begin_call :: "kwargs \<Rightarrow> api_state \<Rightarrow> api_state" where
  "begin_call options st = st\<lparr>caller_headers := dget options ''headers''\<rparr>"

definition mod_send :: "int \<Rightarrow> api_env \<Rightarrow> string \<Rightarrow> string \<Rightarrow> request_args \<Rightarrow> request_args \<Rightarrow> kwargs \<Rightarrow> Response pkg" where
  "mod_send pid env meth url a named kw = (\<lambda>(ms, (st, f)).
    case get_global_session pid (ms_globals ms) of (session, g) \<Rightarrow>
    case merge_call (ms_config ms) named kw of (options, c) \<Rightarrow>
    let ms1 = \<lparr>ms_config = c, ms_globals = g\<rparr> in
    case session of
      None \<Rightarrow> ((ms1, (st, f)), Inl (no_attribute ''request''))
    | Some i \<Rightarrow> (case request env (global_client g i) meth url a options (begin_call options st, f) of
        ((st', f'), r) \<Rightarrow> (case end_call kw options ms1 st st' of (ms2, st2) \<Rightarrow> ((ms2, (st2, f')), r))))"

definition mod_request :: "int \<Rightarrow> api_env \<Rightarrow> string \<Rightarrow> string \<Rightarrow> request_args \<Rightarrow> kwargs \<Rightarrow> Response pkg" where
  "mod_request pid env meth url a kw = mod_send pid env meth url a a kw"

definition mod_get :: "int \<Rightarrow> api_env \<Rightarrow> string \<Rightarrow> request_args \<Rightarrow> kwargs \<Rightarrow> Response pkg" where
  "mod_get pid env url a kw = mod_send pid env ''get'' url a a kw"

text \<open>\<^verbatim>\<open>data\<close> and \<^verbatim>\<open>json_data\<close> are parameters of their own in \<^verbatim>\<open>post\<close>, \<^verbatim>\<open>put\<close> and \<^verbatim>\<open>patch\<close>.\<close>

definition without_body :: "request_args \<Rightarrow> request_args" where
  "without_body a = a\<lparr>ra_data := PNone, ra_json_data := PNone\<rparr>"

definition mod_post :: "int \<Rightarrow> api_env \<Rightarrow> string \<Rightarrow> request_args \<Rightarrow> kwargs \<Rightarrow> Response pkg" where
  "mod_post pid env url a kw = mod_send pid env ''post'' url a (without_body a) kw"

definition mod_put :: "int \<Rightarrow> api_env \<Rightarrow> string \<Rightarrow> request_args \<Rightarrow> kwargs \<Rightarrow> Response pkg" where
  "mod_put pid env url a kw = mod_send pid env ''put'' url a (without_body a) kw"

definition mod_patch :: "int \<Rightarrow> api_env \<Rightarrow> string \<Rightarrow> request_args \<Rightarrow> kwargs \<Rightarrow> Response pkg" where
  "mod_patch pid env url a kw = mod_send pid env ''patch'' url a (without_body a) kw"

definition mod_delete :: "int \<Rightarrow> api_env \<Rightarrow> string \<Rightarrow> request_args \<Rightarrow> kwargs \<Rightarrow> Response pkg" where
  "mod_delete pid env url a kw = mod_send pid env ''delete'' url a a kw"

definition mod_head :: "int \<Rightarrow> api_env \<Rightarrow> string \<Rightarrow> request_args \<Rightarrow> kwargs \<Rightarrow> Response pkg" where
  "mod_head pid env url a kw = mod_send pid env ''head'' url a a kw"

definition mod_options :: "int \<Rightarrow> api_env \<Rightarrow> string \<Rightarrow> request_args \<Rightarrow> kwargs \<Rightarrow> Response pkg" where
  "mod_options pid env url a kw = mod_send pid env ''options'' url a a kw"

subsection \<open>Asynchronous functions\<close>

type_synonym 'a apkg = "module_state \<times> (api_state \<times> ffi_state) \<Rightarrow> ((module_state \<times> (api_state \<times> ffi_state)) \<times> 'a res) option"

definition mod_asend :: "nat \<Rightarrow> api_env \<Rightarrow> string \<Rightarrow> string \<Rightarrow> request_args \<Rightarrow> request_args \<Rightarrow> kwargs \<Rightarrow> Response apkg" where
  "mod_asend fuel env meth url a named kw = (\<lambda>(ms, (st, f)).
    case merge_call (ms_config ms) named kw of (options, c) \<Rightarrow>
    (case arequest_kw fuel env new_client meth url a options (begin_call options st, f) of
       None \<Rightarrow> None
     | Some ((st', f'), r) \<Rightarrow> (case end_call kw options (ms\<lparr>ms_config := c\<rparr>) st st' of
         (ms2, st2) \<Rightarrow> Some ((ms2, (st2, f')), r))))"

definition mod_async_request :: "nat \<Rightarrow> api_env \<Rightarrow> string \<Rightarrow> string \<Rightarrow> request_args \<Rightarrow> kwargs \<Rightarrow> Response apkg" where
  "mod_async_request fuel env meth url a kw = mod_asend fuel env meth url a a kw"

definition mod_aget :: "nat \<Rightarrow> api_env \<Rightarrow> string \<Rightarrow> request_args \<Rightarrow> kwargs \<Rightarrow> Response apkg" where
  "mod_aget fuel env url a kw = mod_asend fuel env ''get'' url a a kw"

definition mod_apost :: "nat \<Rightarrow> api_env \<Rightarrow> string \<Rightarrow> request_args \<Rightarrow> kwargs \<Rightarrow> Response apkg" where
  "mod_apost fuel env url a kw = mod_asend fuel env ''post'' url a (without_body a) kw"

definition mod_aput :: "nat \<Rightarrow> api_env \<Rightarrow> string \<Rightarrow> request_args \<Rightarrow> kwargs \<Rightarrow> Response apkg" where
  "mod_aput fuel env url a kw = mod_asend fuel env ''put'' url a (without_body a) kw"

definition mod_apatch :: "nat \<Rightarrow> api_env \<Rightarrow> string \<Rightarrow> request_args \<Rightarrow> kwargs \<Rightarrow> Response apkg" where
  "mod_apatch fuel env url a kw = mod_asend fuel env ''patch'' url a (without_body a) kw"

definition mod_adelete :: "nat \<Rightarrow> api_env \<Rightarrow> string \<Rightarrow> request_args \<Rightarrow> kwargs \<Rightarrow> Response apkg" where
  "mod_adelete fuel env url a kw = mod_asend fuel env ''delete'' url a a kw"

definition mod_ahead :: "nat \<Rightarrow> api_env \<Rightarrow> string \<Rightarrow> request_args \<Rightarrow> kwargs \<Rightarrow> Response apkg" where
  "mod_ahead fuel env url a kw = mod_asend fuel env ''head'' url a a kw"

definition mod_aoptions :: "nat \<Rightarrow> api_env \<Rightarrow> string \<Rightarrow> request_args \<Rightarrow> kwargs \<Rightarrow> Response apkg" where
  "mod_aoptions fuel env url a kw = mod_asend fuel env ''options'' url a a kw"

subsection \<open>Lemmas\<close>

text \<open>The current session is not closed, and no number was used that was not given out.\<close>

definition globals_ok :: "global_vars \<Rightarrow> bool" where
  "globals_ok g = (list_all (\<lambda>i. i < next_session g) (closed_sessions g) \<and>
     (case global_session g of None \<Rightarrow> True | Some i \<Rightarrow> i < next_session g \<and> i \<notin> set (closed_sessions g)))"

lemma globals_ok_initial: "globals_ok (initial_globals pid)"
  by (simp add: globals_ok_def initial_globals_def)

lemma globals_ok_get:
  assumes "globals_ok g" "get_global_session pid g = (sess, g')"
  shows "globals_ok g' \<and> (\<exists>i. sess = Some i \<and> global_session g' = Some i \<and> \<not> cl_closed (global_client g' i))"
  using assms
  by (auto simp: globals_ok_def get_global_session_def fork_check_def create_session_def register_cleanup_def
      global_client_def Let_def list_all_iff less_Suc_eq split: if_splits option.splits)

lemma globals_ok_close: "globals_ok g \<Longrightarrow> globals_ok (close_global_session g)"
  and globals_ok_cleanup: "globals_ok g \<Longrightarrow> globals_ok (cleanup_global_session g)"
  by (auto simp: globals_ok_def close_global_session_def cleanup_global_session_def close_session_def split: option.splits)

lemma dkeys_named_items: "dkeys (named_items a) = named_keys"
  by (simp add: named_items_def named_keys_def)

lemma named_args_keys: "set (dkeys (named_args a)) \<subseteq> set named_keys"
  unfolding named_args_def dkeys_named_items [of a, symmetric] by (auto simp del: map_map)

lemma distinct_named_args: "distinct (dkeys (named_args a))"
proof -
  have "distinct named_keys" by code_simp
  then show ?thesis unfolding named_args_def dkeys_named_items [of a, symmetric] by (rule distinct_map_filter)
qed

lemma merge_call_effective:
  assumes "coherent c" "distinct (dkeys kw)" "set (dkeys kw) \<inter> set named_keys = {}" "merge_call c named kw = (options, c')"
  shows "map_of options p = (if p \<in> set named_keys then None else effective c kw p)" "coherent c'"
proof -
  let ?kw = "kw @ named_args named"
  have d: "distinct (dkeys ?kw)"
    unfolding map_append distinct_append using assms(2,3) named_args_keys [of named] distinct_named_args [of named] by blast
  have o: "options = without_named (fst (merge_defaults c ?kw))" "c' = snd (merge_defaults c ?kw)"
    using assms(4) by (auto simp: merge_call_def split: prod.splits)
  have "map_of options p = (if p \<in> set named_keys then None else effective c ?kw p)"
    using merge_defaults_effective(1) [OF assms(1) d, of p] by (simp only: o without_named_def map_of_filter_key if_not_P if_cancel split: if_split) simp
  moreover have "effective c ?kw p = effective c kw p" if "p \<notin> set named_keys"
  proof -
    have "p \<notin> set (dkeys (named_args named))" using that named_args_keys [of named] by blast
    then have "map_of (named_args named) p = None" by (simp only: map_of_eq_None_iff list.set_map not_False_eq_True)
    then show ?thesis by (simp add: effective_def map_add_def split: option.split)
  qed
  ultimately show "map_of options p = (if p \<in> set named_keys then None else effective c kw p)" by presburger
  show "coherent c'" unfolding o by (rule merge_defaults_effective(2) [OF assms(1) d])
qed

text \<open>Writing the headers object through keeps the cache coherent.\<close>

lemma dset_swap: "dhas r p \<Longrightarrow> p \<noteq> q \<Longrightarrow> dset (dset r q x) p v = dset (dset r p v) q x"
  by (induction r) auto

lemma collect_defaults_dset:
  "dhas r p \<Longrightarrow> p \<notin> snd ` set m \<Longrightarrow> collect_defaults c skip m (dset r p v) = dset (collect_defaults c skip m r) p v"
proof (induction c skip m r rule: collect_defaults.induct)
  case (2 c skip ck pk rest r)
  then show ?case by (auto simp: dset_swap split: option.splits)
qed simp

lemma collect_defaults_other:
  "k \<notin> fst ` set m \<Longrightarrow> collect_defaults (dset c k v) skip m r = collect_defaults c skip m r"
  by (induction c skip m r rule: collect_defaults.induct) (auto split: option.splits)

lemma collect_defaults_overwrite:
  assumes "distinct (map snd m)" "distinct (map fst m)" "(k, p) \<in> set m" "map_of c k = Some old" "\<not> skip p"
  shows "collect_defaults (dset c k v) skip m r = dset (collect_defaults c skip m r) p v"
  using assms
proof (induction c skip m r rule: collect_defaults.induct)
  case (2 c skip ck pk rest r)
  show ?case
  proof (cases "(ck, pk) = (k, p)")
    case True
    with 2 have "p \<notin> snd ` set rest" "k \<notin> fst ` set rest" by auto
    with True 2 show ?thesis
      using collect_defaults_dset [of "dset r p old" p rest c skip v] by (simp add: collect_defaults_other)
  next
    case False
    with 2 have "ck \<noteq> k" by (auto simp: image_iff)
    with False 2 show ?thesis by (auto split: option.splits)
  qed
qed simp

lemma headers_config: "config_key_of ''headers'' = ''default_headers''" "(''default_headers'', ''headers'') \<in> set config_to_param"
  "''default_headers'' \<in> set configurable_attrs" "distinct (map snd config_to_param)" "distinct (map fst config_to_param)"
proof -
  show "config_key_of ''headers'' = ''default_headers''" by code_simp
  have "list_ex (\<lambda>x. x = (''default_headers'', ''headers'')) config_to_param" by code_simp
  then show "(''default_headers'', ''headers'') \<in> set config_to_param" unfolding list_ex_iff by blast
  then show "''default_headers'' \<in> set configurable_attrs" unfolding configurable_attrs_def by (metis fst_conv in_set_zipE zip_map_fst_snd)
  show "distinct (map snd config_to_param)" "distinct (map fst config_to_param)" by code_simp+
qed

lemma coherent_store_headers: "coherent c \<Longrightarrow> coherent (store_headers used new c)"
proof (cases "merged_cache c")
  case (Some d)
  assume "coherent c"
  with Some have d: "d = collect_defaults (cfg c) (\<lambda>_. False) config_to_param []" by (simp add: coherent_def)
  have h: "map_of d ''headers'' = map_of (cfg c) ''default_headers''"
    unfolding d collect_defaults_config using headers_config(1,3) by simp
  show ?thesis
  proof (cases "map_of (cfg c) ''default_headers'' = Some used")
    case True
    with Some h d show ?thesis
      using collect_defaults_overwrite [OF headers_config(4,5,2) True, of "\<lambda>_. False" new "[]"]
      by (simp add: coherent_def store_headers_def)
  next
    case False
    with Some h d show ?thesis by (simp add: coherent_def store_headers_def)
  qed
qed (simp add: coherent_def store_headers_def)

lemma request_client_state:
  assumes "cl_batcher c = None"
  shows "fst (fst (request env c meth url a kw s)) = fst (fst (prepare_request env c meth url a kw s))"
proof -
  obtain st1 f1 r1 where p: "prepare_request env c meth url a kw s = ((st1, f1), r1)" by (metis prod.exhaust)
  show ?thesis
  proof (cases r1)
    case (Inl e)
    with p show ?thesis by (simp add: request_raised)
  next
    case (Inr pl)
    obtain f2 r2 where "send_request (e_world env) pl f1 = (f2, r2)" by (metis prod.exhaust)
    then show ?thesis
      using request_unbatched [OF assms p [unfolded Inr]] p by (cases r2) (auto simp: eff_defs onSnd_def)
  qed
qed

text \<open>A request with credentials puts them into the headers object it was given.\<close>

lemma finish_request_headers: "caller_headers (fst (fst (finish_request env meth url kw (st, f)))) = caller_headers st"
  by (auto simp: finish_request_def next_request_id_def eff_defs onFst_def readFst_def split: sum.splits prod.splits)

lemma prepare_request_auth_state:
  assumes "\<not> cl_closed c" "dget kw ''headers'' = PDict h" "h \<noteq> []" "map_of kw ''body'' = None" "map_of kw ''body_bytes'' = None"
  shows "\<exists>d. caller_headers (fst (fst (prepare_request env c meth url (no_args\<lparr>ra_auth := Some (u, p)\<rparr>) kw (st, f)))) = PDict d \<and>
    map_of d ''Authorization'' = Some (PStr (''Basic '' @ b64encode (utf8_encode (py_str u @ '':'' @ py_str p))))"
proof -
  define cred where "cred = PStr (''Basic '' @ b64encode (utf8_encode (py_str u @ '':'' @ py_str p)))"
  define h1 where "h1 = dset h ''Authorization'' cred"
  define kw1 where "kw1 = dset kw ''headers'' (PDict h1)"
  have h1: "map_of h1 ''Authorization'' = Some cred" "h1 \<noteq> []" by (simp_all add: h1_def)
  have k: "map_of kw1 ''body'' = None" "map_of kw1 ''body_bytes'' = None" "dget kw1 ''headers'' = PDict h1"
    using assms(4,5) by (simp_all add: kw1_def dget_map_of)
  have auth: "step_auth True (Some (u, p)) kw (st, f) = ((st\<lparr>caller_headers := PDict h1\<rparr>, f), Inr kw1)"
    using assms(2,3) by (simp add: step_auth_def Let_def headers_of_def py_or_def set_header_def mutate_def eff_simps
      h1_def kw1_def cred_def)
  define ua where "ua = find (\<lambda>(k, v). lower k = ''user-agent'') h1"
  define d where "d = (case ua of None \<Rightarrow> h1 | Some (k, _) \<Rightarrow> ddel h1 k)"
  have no_ua: "lower ''Authorization'' \<noteq> ''user-agent''" by code_simp
  have d: "map_of d ''Authorization'' = Some cred"
  proof (cases ua)
    case (Some kv)
    then obtain k v where kv: "ua = Some (k, v)" by (cases kv) simp
    then have "lower k = ''user-agent''" using find_SomeD [OF kv [unfolded ua_def]] by simp
    with no_ua have "k \<noteq> ''Authorization''" by auto
    with kv h1(1) show ?thesis by (simp add: d_def)
  qed (simp add: d_def h1(1))
  define kw4 where "kw4 = (case ua of None \<Rightarrow> kw1
    | Some (k, v) \<Rightarrow> dset (dset kw1 ''headers'' (PDict (ddel h1 k))) ''user_agent'' v)"
  have ua: "step_user_agent True (PDict h1) kw1 (st\<lparr>caller_headers := PDict h1\<rparr>, f) =
      ((st\<lparr>caller_headers := PDict d\<rparr>, f), Inr (PDict d, kw4))"
    by (cases ua) (auto simp: step_user_agent_def ua_def [symmetric] d_def kw4_def mutate_def eff_simps)
  have pop: "pop_body ''body_bytes'' (pop_body ''body'' (PNone, kw1)) = (PNone, kw1)" using k by (simp add: pop_body_def)
  have h: "headers_of kw1 = PDict h1" "py_truth (dget kw ''headers'')"
    using k(3) h1(2) assms(2,3) by (simp_all add: headers_of_def py_or_def)
  have "prepare_request env c meth url (no_args\<lparr>ra_auth := Some (u, p)\<rparr>) kw (st, f) =
      finish_request env meth url (store_body (PDict d) None None kw4) (st\<lparr>caller_headers := PDict d\<rparr>, f)"
    using assms(1) by (simp add: prepare_request_def no_args_def step_json_def step_fingerprint_def h pop auth ua
      merge_url_params_def step_body_def step_files_def eff_simps)
  then show ?thesis using d by (simp add: finish_request_headers cred_def)
qed

text \<open>
  A dictionary that has the credentials keeps them through a preparation without credentials of its own: \<open>yields\<close>
  says that a step keeps them in the caller's object and gives a result with \<open>Q\<close>.
\<close>

definition has_auth :: "pyval \<Rightarrow> pyval \<Rightarrow> bool" where
  "has_auth cred v \<longleftrightarrow> (\<exists>d. v = PDict d \<and> map_of d ''Authorization'' = Some cred)"

definition yields :: "pyval \<Rightarrow> 'a api \<Rightarrow> ('a \<Rightarrow> bool) \<Rightarrow> bool" where
  "yields cred m Q \<longleftrightarrow> (\<forall>s. has_auth cred (caller_headers (fst s)) \<longrightarrow>
     has_auth cred (caller_headers (fst (fst (m s)))) \<and> (\<forall>x. snd (m s) = Inr x \<longrightarrow> Q x))"

lemma has_auth_truth: "has_auth cred v \<Longrightarrow> py_truth v \<and> py_or v w = v"
  by (auto simp: has_auth_def py_or_def)

lemma has_auth_dset: "has_auth cred (PDict d) \<Longrightarrow> k \<noteq> ''Authorization'' \<Longrightarrow> has_auth cred (PDict (dset d k v))"
  by (simp add: has_auth_def)

lemma has_auth_ddel: "has_auth cred (PDict d) \<Longrightarrow> k \<noteq> ''Authorization'' \<Longrightarrow> has_auth cred (PDict (ddel d k))"
  by (simp add: has_auth_def)

lemma yields_pure: "Q x \<Longrightarrow> yields cred (retX x) Q" "yields cred (raiseX e) Q"
  "(\<And>x. res = Inr x \<Longrightarrow> Q x) \<Longrightarrow> yields cred (liftX res) Q"
  by (simp_all add: yields_def eff_simps)

lemma yields_bind:
  assumes "yields cred m Q" "\<And>x. Q x \<Longrightarrow> yields cred (f x) R"
  shows "yields cred (bindX m f) R"
  unfolding yields_def
proof (intro allI impI)
  fix s :: "api_state \<times> ffi_state" assume s: "has_auth cred (caller_headers (fst s))"
  obtain s1 r where m: "m s = (s1, r)" by (metis prod.exhaust)
  have 1: "has_auth cred (caller_headers (fst s1))" "\<And>x. r = Inr x \<Longrightarrow> Q x"
    using assms(1) s m unfolding yields_def by (metis fst_conv snd_conv)+
  show "has_auth cred (caller_headers (fst (fst (bindX m f s)))) \<and> (\<forall>x. snd (bindX m f s) = Inr x \<longrightarrow> R x)"
  proof (cases r)
    case (Inl e)
    then show ?thesis using m 1(1) by (simp add: bindX_def)
  next
    case (Inr x)
    have "bindX m f s = f x s1" using m Inr by (simp add: bindX_def)
    moreover have "yields cred (f x) R" using assms(2) 1(2) Inr by blast
    then have "has_auth cred (caller_headers (fst s1)) \<longrightarrow> has_auth cred (caller_headers (fst (fst (f x s1)))) \<and>
        (\<forall>y. snd (f x s1) = Inr y \<longrightarrow> R y)" unfolding yields_def by (rule spec)
    ultimately show ?thesis using 1(1) by simp
  qed
qed

lemma yields_then: "yields cred m (\<lambda>_. True) \<Longrightarrow> yields cred n R \<Longrightarrow> yields cred (thenX m n) R"
  unfolding thenX_def by (rule yields_bind)

lemma yields_mutate: "(al \<Longrightarrow> has_auth cred h) \<Longrightarrow> yields cred (mutate al h) (\<lambda>_. True)"
  by (cases al) (auto simp: mutate_def yields_def onFst_def eff_defs)

lemma yields_set_header:
  assumes "al \<Longrightarrow> has_auth cred h" "k \<noteq> ''Authorization''"
  shows "yields cred (set_header al h k v) (\<lambda>h'. al \<longrightarrow> has_auth cred h')"
proof (cases h)
  case (PDict d)
  have "al \<Longrightarrow> has_auth cred (PDict (dset d k (PStr v)))" using assms PDict has_auth_dset by simp
  then show ?thesis unfolding set_header_def PDict pyval.case by (intro yields_then yields_mutate yields_pure) blast+
qed (simp_all add: set_header_def yields_pure)

lemma apply_to_kwargs_auth:
  assumes "apply_to_kwargs fp kw = Inr kw'" "fp_headers fp = PNone" "has_auth cred (dget kw ''headers'')"
  shows "has_auth cred (dget kw' ''headers'')"
proof -
  from assms(1) obtain kw1 kw2 where
    1: "kw1 = filled fp kw \<and> fp_headers fp = PNone \<or>
       (\<exists>m. merge_mappings (fp_headers fp) (py_or (dget (filled fp kw) ''headers'') (PDict [])) = Inr m \<and>
            kw1 = dset (filled fp kw) ''headers'' m)"
    and 2: "kw2 = kw1 \<or> (\<exists>d h. add_missing (py_or (dget kw1 ''headers'') (PDict [])) d = Inr h \<and> kw2 = dset kw1 ''headers'' h)"
    and 3: "kw' = flagged fp kw2" by (rule apply_to_kwargs_cases)
  have "kw1 = filled fp kw" using 1 assms(2) by auto
  then have h1: "dget kw1 ''headers'' = dget kw ''headers''" by (simp add: dget_map_of)
  obtain d0 where d0: "dget kw ''headers'' = PDict d0" "map_of d0 ''Authorization'' = Some cred"
    using assms(3) unfolding has_auth_def by blast
  from 2 have "has_auth cred (dget kw2 ''headers'')"
  proof (elim disjE exE conjE)
    fix d h assume add: "add_missing (py_or (dget kw1 ''headers'') (PDict [])) d = Inr h" and kw2: "kw2 = dset kw1 ''headers'' h"
    have "add_missing (PDict d0) d = Inr h" using add has_auth_truth [OF assms(3)] h1 d0(1) by simp
    from add_missing_keeps [OF this d0(2)] show ?thesis by (auto simp: kw2 has_auth_def dget_map_of)
  qed (use assms(3) h1 in simp)
  then show ?thesis by (simp add: 3 dget_map_of)
qed

lemma yields_fingerprint:
  assumes "al \<Longrightarrow> has_auth cred (dget kw ''headers'')"
  shows "yields cred (step_fingerprint env al f kw) (\<lambda>(al', kw'). al' \<longrightarrow> has_auth cred (dget kw' ''headers''))"
proof (cases f)
  case None
  then show ?thesis using assms by (simp add: step_fingerprint_def yields_pure)
next
  case (Some farg)
  have kept: "has_auth cred (dget kw' ''headers'')" if "apply_to_kwargs fp kw = Inr kw'" "al \<and> fp_headers fp = PNone" for fp kw'
    using apply_to_kwargs_auth [OF that(1)] that(2) assms by blast
  show ?thesis unfolding step_fingerprint_def Some option.case Let_def
    by (rule yields_bind [where Q = "\<lambda>_. True"], simp add: yields_pure)
      (rule yields_bind [where Q = "\<lambda>kw'. apply_to_kwargs fp kw = Inr kw'" for fp],
        auto intro!: yields_pure yields_then yields_mutate dest: kept)
qed

lemma pop_body_headers: "k \<noteq> ''headers'' \<Longrightarrow> dget (snd (pop_body k dk)) ''headers'' = dget (snd dk) ''headers''"
  by (auto simp: pop_body_def dget_map_of split: prod.split)

lemma pop_bodies_headers:
  "dget (snd (pop_body ''body_bytes'' (pop_body ''body'' dk))) ''headers'' = dget (snd dk) ''headers''"
  by (simp add: pop_body_headers)

lemma yields_user_agent:
  assumes "al \<Longrightarrow> has_auth cred h"
  shows "yields cred (step_user_agent al h kw) (\<lambda>(h', kw'). al \<longrightarrow> has_auth cred h')"
proof (cases h)
  case (PDict d)
  show ?thesis
  proof (cases "find (\<lambda>(k, v). lower k = ''user-agent'') d")
    case None
    then show ?thesis using assms PDict by (simp add: step_user_agent_def yields_pure)
  next
    case (Some kv)
    obtain k v where kv: "kv = (k, v)" by (cases kv)
    have "lower k = ''user-agent''" using find_SomeD [OF Some] kv by simp
    moreover have "lower ''Authorization'' \<noteq> ''user-agent''" by code_simp
    ultimately have "k \<noteq> ''Authorization''" by blast
    then have "al \<Longrightarrow> has_auth cred (PDict (ddel d k))" using assms PDict has_auth_ddel by simp
    then show ?thesis unfolding step_user_agent_def PDict pyval.case Some [unfolded kv] option.case prod.case
      by (intro yields_then yields_mutate yields_pure) simp_all
  qed
qed (simp_all add: step_user_agent_def yields_pure)

lemma yields_body:
  assumes "al \<Longrightarrow> has_auth cred h"
  shows "yields cred (step_body env al h json_data data) (\<lambda>(h', b). al \<longrightarrow> has_auth cred h')"
proof -
  have ct: "''Content-Type'' \<noteq> ''Authorization''" by simp
  have set: "yields cred (bindX (set_header al h ''Content-Type'' v) (\<lambda>h. retX (h, b))) (\<lambda>(h', b). al \<longrightarrow> has_auth cred h')"
    for v and b :: "string option \<times> bytes option"
    by (rule yields_bind [OF yields_set_header [OF _ ct]]) (simp_all add: assms yields_pure)
  show ?thesis
  proof (cases "json_data = PNone")
    case False
    then show ?thesis
      by (auto simp: step_body_def yields_pure intro!: yields_bind [where Q = "\<lambda>_. True"] set)
  next
    case True
    then show ?thesis using assms
      by (cases data) (auto simp: step_body_def yields_pure intro!: yields_bind [where Q = "\<lambda>_. True"] set)
  qed
qed

lemma yields_files:
  assumes "al \<Longrightarrow> has_auth cred h"
  shows "yields cred (step_files env al h files data b) (\<lambda>_. True)"
proof (cases files)
  case (Some fs)
  have ct: "''Content-Type'' \<noteq> ''Authorization''" by simp
  have "yields cred (bindX (set_header al h ''Content-Type'' v) (\<lambda>h. retX (h, Some c))) (\<lambda>_. True)" for v c
    by (rule yields_bind [OF yields_set_header [OF _ ct]]) (simp_all add: assms yields_pure)
  then show ?thesis unfolding step_files_def Some option.case
    by (intro yields_bind [where Q = "\<lambda>_. True"]) (auto simp: yields_pure split: prod.split)
qed (simp add: step_files_def yields_pure)

lemma yields_finish: "yields cred (finish_request env meth url kw) (\<lambda>_. True)"
  unfolding yields_def
proof (intro allI impI conjI TrueI)
  fix s :: "api_state \<times> ffi_state" assume "has_auth cred (caller_headers (fst s))"
  then show "has_auth cred (caller_headers (fst (fst (finish_request env meth url kw s))))"
    using finish_request_headers [of env meth url kw "fst s" "snd s"] by simp
qed

lemma yields_prepare:
  assumes "ra_auth a = None" "has_auth cred (dget kw ''headers'')"
  shows "yields cred (prepare_request env c meth url a kw) (\<lambda>_. True)"
proof (cases "cl_closed c")
  case False
  let ?al = "py_truth (dget kw ''headers'')"
  have 2: "yields cred (step_fingerprint env ?al (ra_fingerprint a) kw) (\<lambda>(al', kw'). al' \<longrightarrow> has_auth cred (dget kw' ''headers''))"
    by (rule yields_fingerprint) (rule assms(2))
  have auth: "yields cred (step_auth ?al (ra_auth a) kw) (\<lambda>kw1. kw1 = kw)"
    by (simp add: assms(1) step_auth_def yields_pure)
  have rest: "yields cred (case pop_body ''body_bytes'' (pop_body ''body'' (ra_data a, kw2)) of (data, kw3) \<Rightarrow>
       bindX (step_user_agent al (headers_of kw3) kw3) (\<lambda>(h, kw4).
       bindX (liftX (merge_url_params url (ra_params a))) (\<lambda>url'.
       bindX (step_body env al h json_data data) (\<lambda>(h, body, body_bytes).
       bindX (step_files env al h (ra_files a) data body_bytes) (\<lambda>(h, body_bytes).
         finish_request env meth url' (store_body h body body_bytes kw4)))))) (\<lambda>_. True)"
    if kw2: "al \<Longrightarrow> has_auth cred (dget kw2 ''headers'')" for al kw2 json_data
  proof -
    obtain data kw3 where pop: "pop_body ''body_bytes'' (pop_body ''body'' (ra_data a, kw2)) = (data, kw3)" by (metis prod.exhaust)
    have "dget kw3 ''headers'' = dget kw2 ''headers''"
      using pop pop_bodies_headers [of "(ra_data a, kw2)"] by simp
    then have h: "al \<Longrightarrow> has_auth cred (headers_of kw3)" using kw2 has_auth_truth by (simp add: headers_of_def)
    show ?thesis unfolding pop prod.case
    proof (rule yields_bind [OF yields_user_agent [OF h]], assumption)
      fix x :: "pyval \<times> kwargs" assume x: "case x of (h', kw') \<Rightarrow> al \<longrightarrow> has_auth cred h'"
      obtain h' kw4 where p: "x = (h', kw4)" by (metis prod.exhaust)
      have h': "al \<Longrightarrow> has_auth cred h'" using x p by simp
      have body: "yields cred (case y of (h, body, body_bytes) \<Rightarrow>
         bindX (step_files env al h (ra_files a) data body_bytes) (\<lambda>(h, body_bytes).
           finish_request env meth url' (store_body h body body_bytes kw4))) (\<lambda>_. True)"
        if y: "case y of (h', b :: string option \<times> bytes option) \<Rightarrow> al \<longrightarrow> has_auth cred h'" for y url'
      proof -
        obtain h2 b where hb: "y = (h2, b)" by (metis prod.exhaust)
        have "al \<Longrightarrow> has_auth cred h2" using y hb by simp
        then show ?thesis unfolding hb prod.case
          by (cases b) (auto intro!: yields_bind [OF yields_files] yields_finish split: prod.split)
      qed
      show "yields cred (case x of (h, kw4) \<Rightarrow> bindX (liftX (merge_url_params url (ra_params a))) (\<lambda>url'.
         bindX (step_body env al h json_data data) (\<lambda>(h, body, body_bytes).
         bindX (step_files env al h (ra_files a) data body_bytes) (\<lambda>(h, body_bytes).
           finish_request env meth url' (store_body h body body_bytes kw4))))) (\<lambda>_. True)"
        unfolding p prod.case
      proof (rule yields_bind [where Q = "\<lambda>_. True"])
        show "yields cred (liftX (merge_url_params url (ra_params a))) (\<lambda>_. True)" by (rule yields_pure(3)) simp
        fix url'
        show "yields cred (bindX (step_body env al h' json_data data) (\<lambda>(h, body, body_bytes).
           bindX (step_files env al h (ra_files a) data body_bytes) (\<lambda>(h, body_bytes).
             finish_request env meth url' (store_body h body body_bytes kw4)))) (\<lambda>_. True)"
          by (rule yields_bind [OF yields_body [OF h'] body])
      qed
    qed
  qed
  have json: "yields cred (step_json a) (\<lambda>_. True)" by (simp add: step_json_def yields_pure)
  show ?thesis unfolding prepare_request_def if_not_P [OF False]
  proof (rule yields_bind [OF json], rule yields_bind [OF auth], erule ssubst, rule yields_bind [OF 2])
    fix json_data and x :: "bool \<times> kwargs" assume x: "case x of (al', kw') \<Rightarrow> al' \<longrightarrow> has_auth cred (dget kw' ''headers'')"
    obtain al kw2 where p: "x = (al, kw2)" by (metis prod.exhaust)
    have "al \<Longrightarrow> has_auth cred (dget kw2 ''headers'')" using x p by simp
    from rest [OF this]
    show "yields cred (case x of (aliased, kw2) \<Rightarrow>
       case pop_body ''body_bytes'' (pop_body ''body'' (ra_data a, kw2)) of (data, kw3) \<Rightarrow>
       bindX (step_user_agent aliased (headers_of kw3) kw3) (\<lambda>(h, kw4).
       bindX (liftX (merge_url_params url (ra_params a))) (\<lambda>url'.
       bindX (step_body env aliased h json_data data) (\<lambda>(h, body, body_bytes).
       bindX (step_files env aliased h (ra_files a) data body_bytes) (\<lambda>(h, body_bytes).
         finish_request env meth url' (store_body h body body_bytes kw4)))))) (\<lambda>_. True)"
      unfolding p prod.case .
  qed
qed (simp add: prepare_request_def yields_pure)

lemma mod_send_eq:
  assumes "globals_ok (ms_globals ms)" "merge_call (ms_config ms) named kw = (options, c)"
    and "get_global_session pid (ms_globals ms) = (sess, g)"
  shows "\<exists>i. \<not> cl_closed (global_client g i) \<and> globals_ok g \<and>
    mod_send pid env meth url a named kw (ms, (st, f)) =
      (case request env (global_client g i) meth url a options (begin_call options st, f) of ((st', f'), r) \<Rightarrow>
         (case end_call kw options \<lparr>ms_config = c, ms_globals = g\<rparr> st st' of (ms2, st2) \<Rightarrow> ((ms2, (st2, f')), r)))"
proof -
  obtain i where "sess = Some i" "\<not> cl_closed (global_client g i)" "globals_ok g"
    using globals_ok_get [OF assms(1,3)] by blast
  with assms(2,3) show ?thesis by (auto simp: mod_send_def Let_def)
qed

lemma end_call_invariants:
  assumes "coherent (ms_config ms)" "globals_ok (ms_globals ms)" "end_call kw options ms st st' = (ms2, st2)"
  shows "coherent (ms_config ms2) \<and> globals_ok (ms_globals ms2)"
  using assms by (auto simp: end_call_def coherent_store_headers split: if_splits)

subsection \<open>Properties\<close>

text \<open>C9. \<^verbatim>\<open>cycletls.request\<close> is \<^verbatim>\<open>request\<close> of an open client whose options are those of the
  call completed by the configured defaults: every option has the value of the call if it is given there and the
  default otherwise, whatever path the cached merge takes; the result is that of \<^verbatim>\<open>request\<close>, the client is never
  closed, and the configuration and the global session stay consistent, so that the statement applies again to the
  next call.\<close>

theorem module_request_uses_defaults:
  assumes "coherent (ms_config ms)" "globals_ok (ms_globals ms)" "distinct (dkeys kw)" "set (dkeys kw) \<inter> set named_keys = {}"
  shows "\<exists>options cl st' f' r ms2 st2. \<not> cl_closed cl \<and>
    (\<forall>p. map_of options p = (if p \<in> set named_keys then None else effective (ms_config ms) kw p)) \<and>
    request env cl meth url a options (begin_call options st, f) = ((st', f'), r) \<and>
    mod_request pid env meth url a kw (ms, (st, f)) = ((ms2, (st2, f')), r) \<and>
    coherent (ms_config ms2) \<and> globals_ok (ms_globals ms2)"
proof -
  obtain options c where m: "merge_call (ms_config ms) a kw = (options, c)" by (cases "merge_call (ms_config ms) a kw")
  obtain sess g where g: "get_global_session pid (ms_globals ms) = (sess, g)" by (cases "get_global_session pid (ms_globals ms)")
  have eff: "map_of options p = (if p \<in> set named_keys then None else effective (ms_config ms) kw p)" "coherent c" for p
    by (rule merge_call_effective [OF assms(1,3,4) m])+
  obtain i where i: "\<not> cl_closed (global_client g i)" "globals_ok g"
    "mod_send pid env meth url a a kw (ms, (st, f)) =
      (case request env (global_client g i) meth url a options (begin_call options st, f) of ((st', f'), r) \<Rightarrow>
         (case end_call kw options \<lparr>ms_config = c, ms_globals = g\<rparr> st st' of (ms2, st2) \<Rightarrow> ((ms2, (st2, f')), r)))"
    using mod_send_eq [OF assms(2) m g] by blast
  obtain st' f' r where q: "request env (global_client g i) meth url a options (begin_call options st, f) = ((st', f'), r)"
    by (metis prod.exhaust)
  obtain ms2 st2 where e: "end_call kw options \<lparr>ms_config = c, ms_globals = g\<rparr> st st' = (ms2, st2)"
    by (metis prod.exhaust)
  have "coherent (ms_config ms2) \<and> globals_ok (ms_globals ms2)"
    by (rule end_call_invariants [OF _ _ e]) (simp_all add: eff i)
  moreover have "mod_request pid env meth url a kw (ms, (st, f)) = ((ms2, (st2, f')), r)"
    using i(3) q e by (simp add: mod_request_def)
  ultimately show ?thesis using i(1) eff(1) q by blast
qed

definition initial_module :: module_state where
  "initial_module = \<lparr>ms_config = import_config, ms_globals = initial_globals 1\<rparr>"

lemma initial_module_ok: "coherent (ms_config initial_module)" "globals_ok (ms_globals initial_module)"
proof -
  show "coherent (ms_config initial_module)" by code_simp
  show "globals_ok (ms_globals initial_module)" by (simp add: initial_module_def globals_ok_initial)
qed

theorem module_request_uses_defaults_witness:
  "\<exists>options cl st' f' r ms2 st2. map_of options ''enable_connection_reuse'' = Some (PBool True) \<and>
     map_of options ''timeout'' = Some (PInt 5) \<and>
     request example_env cl ''get'' ''https://a.b'' no_args options (begin_call options (fst example_state), initial_ffi) = ((st', f'), r) \<and>
     mod_request 1 example_env ''get'' ''https://a.b'' no_args [(''timeout'', PInt 5)] (initial_module, (fst example_state, initial_ffi)) =
       ((ms2, (st2, f')), r)"
proof -
  have d: "distinct (dkeys [(''timeout'', PInt 5)])" by simp
  have n: "set (dkeys [(''timeout'', PInt 5)]) \<inter> set named_keys = {}" by (simp add: named_keys_def)
  have e: "effective (ms_config initial_module) [(''timeout'', PInt 5)] ''enable_connection_reuse'' = Some (PBool True)"
    "effective (ms_config initial_module) [(''timeout'', PInt 5)] ''timeout'' = Some (PInt 5)"
    "''enable_connection_reuse'' \<notin> set named_keys" "''timeout'' \<notin> set named_keys" by code_simp+
  from module_request_uses_defaults [OF initial_module_ok d n, of example_env "''get''" "''https://a.b''" no_args
    "fst example_state" initial_ffi 1] e
  show ?thesis by metis
qed

text \<open>
  The configured default headers have the credentials. \<open>later_calls\<close> relates the state before and after any number of
  calls of \<^verbatim>\<open>cycletls.request\<close> without \<^verbatim>\<open>auth\<close>, with any other arguments, options and surroundings.
\<close>

definition leaked :: "pyval \<Rightarrow> module_state \<Rightarrow> bool" where
  "leaked cred ms \<longleftrightarrow> coherent (ms_config ms) \<and> globals_ok (ms_globals ms) \<and>
     (\<exists>v. map_of (cfg (ms_config ms)) ''default_headers'' = Some v \<and> has_auth cred v)"

inductive later_calls :: "module_state \<times> (api_state \<times> ffi_state) \<Rightarrow> module_state \<times> (api_state \<times> ffi_state) \<Rightarrow> bool" where
  no_call: "later_calls s s"
| next_call: "later_calls s s1 \<Longrightarrow> ra_auth a = None \<Longrightarrow> distinct (dkeys kw) \<Longrightarrow> set (dkeys kw) \<inter> set named_keys = {} \<Longrightarrow>
    mod_request pid env meth url a kw s1 = (s2, r) \<Longrightarrow> later_calls s s2"

lemma merge_call_cfg: "merge_call c named kw = (options, c') \<Longrightarrow> cfg c' = cfg c"
  by (auto simp: merge_call_def merge_defaults_def Let_def split: prod.splits if_splits option.splits)

lemma merge_call_headers:
  assumes "coherent c" "distinct (dkeys kw)" "set (dkeys kw) \<inter> set named_keys = {}" "merge_call c named kw = (options, c')"
  shows "map_of options ''headers'' = (case map_of kw ''headers'' of Some v \<Rightarrow> Some v | None \<Rightarrow> map_of (cfg c) ''default_headers'')"
proof -
  have "''headers'' \<notin> set named_keys" by code_simp
  with merge_call_effective(1) [OF assms, of "''headers''"] headers_config(1,3) show ?thesis
    by (simp add: effective_def split: option.split)
qed

text \<open>One call of the package, by the request it makes.\<close>

lemma mod_request_run:
  assumes "coherent (ms_config ms)" "globals_ok (ms_globals ms)" "distinct (dkeys kw)" "set (dkeys kw) \<inter> set named_keys = {}"
  shows "\<exists>options c g cl st' f' r ms2 st2. merge_call (ms_config ms) a kw = (options, c) \<and> coherent c \<and> globals_ok g \<and>
    \<not> cl_closed cl \<and> request env cl meth url a options (begin_call options st, f) = ((st', f'), r) \<and>
    st' = fst (fst (prepare_request env cl meth url a options (begin_call options st, f))) \<and>
    end_call kw options \<lparr>ms_config = c, ms_globals = g\<rparr> st st' = (ms2, st2) \<and>
    mod_request pid env meth url a kw (ms, (st, f)) = ((ms2, (st2, f')), r)"
proof -
  obtain options c where m: "merge_call (ms_config ms) a kw = (options, c)" by (cases "merge_call (ms_config ms) a kw")
  obtain sess g where g: "get_global_session pid (ms_globals ms) = (sess, g)" by (cases "get_global_session pid (ms_globals ms)")
  obtain i where i: "\<not> cl_closed (global_client g i)" "globals_ok g"
    "mod_request pid env meth url a kw (ms, (st, f)) =
      (case request env (global_client g i) meth url a options (begin_call options st, f) of ((st', f'), r) \<Rightarrow>
         (case end_call kw options \<lparr>ms_config = c, ms_globals = g\<rparr> st st' of (ms2, st2) \<Rightarrow> ((ms2, (st2, f')), r)))"
    using mod_send_eq [OF assms(2) m g] unfolding mod_request_def by blast
  obtain st' f' r where q: "request env (global_client g i) meth url a options (begin_call options st, f) = ((st', f'), r)"
    by (metis prod.exhaust)
  obtain ms2 st2 where e: "end_call kw options \<lparr>ms_config = c, ms_globals = g\<rparr> st st' = (ms2, st2)" by (metis prod.exhaust)
  have "cl_batcher (global_client g i) = None" by (simp add: global_client_def)
  from request_client_state [OF this, of env meth url a options "(begin_call options st, f)"] q
  have "st' = fst (fst (prepare_request env (global_client g i) meth url a options (begin_call options st, f)))" by simp
  moreover have "mod_request pid env meth url a kw (ms, (st, f)) = ((ms2, (st2, f')), r)" using i(3) q e by simp
  moreover have "coherent c" by (rule merge_call_effective(2) [OF assms(1,3,4) m])
  ultimately show ?thesis using m i(1,2) q e by blast
qed

text \<open>A call whose preparation leaves the credentials in the headers object it was given leaves them in the configuration.\<close>

lemma end_call_leaks:
  assumes "coherent c" "globals_ok g" "map_of (cfg c) ''default_headers'' = Some v" "dget options ''headers'' = v"
    "has_auth cred (caller_headers st')" "\<not> dhas kw ''headers''"
    "end_call kw options \<lparr>ms_config = c, ms_globals = g\<rparr> st st' = (ms2, st2)"
  shows "leaked cred ms2"
proof -
  have ms2: "ms2 = \<lparr>ms_config = store_headers v (caller_headers st') c, ms_globals = g\<rparr>"
    using assms(4,6,7) by (simp add: end_call_def)
  have "map_of (cfg (store_headers v (caller_headers st') c)) ''default_headers'' = Some (caller_headers st')"
    using assms(3) by (simp add: store_headers_def)
  then show ?thesis using assms(1,2,5) coherent_store_headers by (simp add: leaked_def ms2)
qed

lemma leaked_call:
  assumes "leaked cred ms" "ra_auth a = None" "distinct (dkeys kw)" "set (dkeys kw) \<inter> set named_keys = {}"
    "mod_request pid env meth url a kw (ms, (st, f)) = ((ms2, y), r)"
  shows "leaked cred ms2"
proof -
  have ok: "coherent (ms_config ms)" "globals_ok (ms_globals ms)" using assms(1) by (simp_all add: leaked_def)
  obtain v where v: "map_of (cfg (ms_config ms)) ''default_headers'' = Some v" "has_auth cred v"
    using assms(1) by (auto simp: leaked_def)
  from mod_request_run [OF ok assms(3,4)] assms(5) obtain options c g cl st' st2 where
    m: "merge_call (ms_config ms) a kw = (options, c)" and inv: "coherent c" "globals_ok g"
    and st': "st' = fst (fst (prepare_request env cl meth url a options (begin_call options st, f)))"
    and e: "end_call kw options \<lparr>ms_config = c, ms_globals = g\<rparr> st st' = (ms2, st2)" by (metis fst_conv)
  have cfg: "map_of (cfg c) ''default_headers'' = Some v" using v(1) merge_call_cfg [OF m] by simp
  show ?thesis
  proof (cases "map_of kw ''headers''")
    case (Some w)
    then have "ms2 = \<lparr>ms_config = c, ms_globals = g\<rparr>" using e by (auto simp: end_call_def map_of_eq_None_iff)
    then show ?thesis using inv cfg v(2) by (auto simp: leaked_def)
  next
    case None
    then have h: "dget options ''headers'' = v"
      using merge_call_headers [OF ok(1) assms(3,4) m] v(1) by (simp add: dget_map_of)
    then have "yields cred (prepare_request env cl meth url a options) (\<lambda>_. True)"
      using yields_prepare [OF assms(2)] v(2) by blast
    moreover have "has_auth cred (caller_headers (fst (begin_call options st, f)))" using h v(2) by (simp add: begin_call_def)
    ultimately have "has_auth cred (caller_headers st')" unfolding st' yields_def by blast
    moreover have "\<not> dhas kw ''headers''" using None by (simp add: map_of_eq_None_iff)
    ultimately show ?thesis using end_call_leaks [OF inv cfg h _ _ e] by blast
  qed
qed

lemma leaked_later:
  assumes "later_calls s s'" "leaked cred (fst s)"
  shows "leaked cred (fst s')"
  using assms
proof (induction rule: later_calls.induct)
  case (next_call s s1 a kw pid env meth url s2 r)
  obtain ms1 st1 f1 ms2 y where p: "s1 = (ms1, (st1, f1))" "s2 = (ms2, y)" by (metis prod.exhaust)
  from leaked_call [OF next_call.IH [OF next_call.prems, unfolded p(1) fst_conv] next_call.hyps(2-4)
    next_call.hyps(5) [unfolded p]] show ?case by (simp add: p)
qed simp

lemma auth_call_leaks:
  assumes "coherent (ms_config ms)" "globals_ok (ms_globals ms)"
    and "map_of (cfg (ms_config ms)) ''default_headers'' = Some (PDict h)" "h \<noteq> []"
    and "mod_request pid env meth url (no_args\<lparr>ra_auth := Some (u, p)\<rparr>) [] (ms, (st, f)) = ((ms2, y), r)"
  shows "leaked (PStr (''Basic '' @ b64encode (utf8_encode (py_str u @ '':'' @ py_str p)))) ms2"
proof -
  let ?a = "no_args\<lparr>ra_auth := Some (u, p)\<rparr>"
  have d: "distinct (dkeys ([] :: kwargs))" "set (dkeys ([] :: kwargs)) \<inter> set named_keys = {}" by simp_all
  from mod_request_run [OF assms(1,2) d] assms(5) obtain options c g cl st' st2 where
    m: "merge_call (ms_config ms) ?a [] = (options, c)" and inv: "coherent c" "globals_ok g" "\<not> cl_closed cl"
    and st': "st' = fst (fst (prepare_request env cl meth url ?a options (begin_call options st, f)))"
    and e: "end_call [] options \<lparr>ms_config = c, ms_globals = g\<rparr> st st' = (ms2, st2)" by (metis fst_conv)
  have keys: "config_key_of ''body'' \<notin> set configurable_attrs" "config_key_of ''body_bytes'' \<notin> set configurable_attrs" by code_simp+
  have o: "dget options ''headers'' = PDict h" "map_of options ''body'' = None" "map_of options ''body_bytes'' = None"
    using merge_call_headers [OF assms(1) d m] merge_call_effective(1) [OF assms(1) d m] keys assms(3)
    by (simp_all add: dget_map_of effective_def)
  have "has_auth (PStr (''Basic '' @ b64encode (utf8_encode (py_str u @ '':'' @ py_str p)))) (caller_headers st')"
    using prepare_request_auth_state [OF inv(3) o(1) assms(4) o(2,3)] unfolding st' has_auth_def by blast
  with end_call_leaks [OF inv(1,2) _ o(1) _ _ e] assms(3) merge_call_cfg [OF m] show ?thesis by simp
qed

text \<open>C32. Credentials leak through the configured headers. When default headers are set and a call is made with \<^verbatim>\<open>auth\<close> and no
  other option, the Authorization header is written into the configured dictionary itself, whether the request succeeds
  or not. After it, and after any number of further calls without \<^verbatim>\<open>auth\<close>, whatever their options and results, a call of
  \<^verbatim>\<open>cycletls.request\<close> to any address that passes no headers is a \<^verbatim>\<open>request\<close> of an open client with that
  Authorization among its headers; a call that passes headers of its own has only those.\<close>

theorem module_auth_leaks_into_defaults:
  assumes "coherent (ms_config ms)" "globals_ok (ms_globals ms)"
    and "map_of (cfg (ms_config ms)) ''default_headers'' = Some (PDict h)" "h \<noteq> []"
    and "mod_request pid env meth url (no_args\<lparr>ra_auth := Some (u, p)\<rparr>) [] (ms, (st, f)) = (s2, r)"
    and "later_calls s2 (ms3, (st3, f3))" "distinct (dkeys kw)" "set (dkeys kw) \<inter> set named_keys = {}"
  shows "\<exists>options cl. \<not> cl_closed cl \<and>
    snd (mod_request pid3 env3 meth3 url3 a kw (ms3, (st3, f3))) =
      snd (request env3 cl meth3 url3 a options (begin_call options st3, f3)) \<and>
    (case map_of kw ''headers'' of
       Some own \<Rightarrow> map_of options ''headers'' = Some own
     | None \<Rightarrow> \<exists>d. map_of options ''headers'' = Some (PDict d) \<and>
         map_of d ''Authorization'' = Some (PStr (''Basic '' @ b64encode (utf8_encode (py_str u @ '':'' @ py_str p)))))"
proof -
  let ?cred = "PStr (''Basic '' @ b64encode (utf8_encode (py_str u @ '':'' @ py_str p)))"
  obtain ms2 y where s2: "s2 = (ms2, y)" by (cases s2)
  from auth_call_leaks [OF assms(1-4) assms(5) [unfolded s2]] have "leaked ?cred (fst s2)" by (simp add: s2)
  from leaked_later [OF assms(6) this] have leak: "leaked ?cred ms3" by simp
  then have ok: "coherent (ms_config ms3)" "globals_ok (ms_globals ms3)" by (simp_all add: leaked_def)
  obtain v where v: "map_of (cfg (ms_config ms3)) ''default_headers'' = Some v" "has_auth ?cred v"
    using leak unfolding leaked_def by blast
  from mod_request_run [OF ok assms(7,8), of a env3 meth3 url3 st3 f3 pid3] obtain options c cl where
    m: "merge_call (ms_config ms3) a kw = (options, c)" and cl: "\<not> cl_closed cl"
    and same: "snd (mod_request pid3 env3 meth3 url3 a kw (ms3, (st3, f3))) =
      snd (request env3 cl meth3 url3 a options (begin_call options st3, f3))" by (metis snd_conv)
  have "case map_of kw ''headers'' of Some own \<Rightarrow> map_of options ''headers'' = Some own
     | None \<Rightarrow> \<exists>d. map_of options ''headers'' = Some (PDict d) \<and> map_of d ''Authorization'' = Some ?cred"
    using merge_call_headers [OF ok(1) assms(7,8) m] v unfolding has_auth_def by (auto split: option.split)
  with cl same show ?thesis by blast
qed

theorem module_auth_leaks_into_defaults_witness:
  "\<exists>s2 r options cl d. mod_request 1 example_env ''get'' ''https://a.b'' (no_args\<lparr>ra_auth := Some (PStr ''u'', PStr ''p'')\<rparr>) []
       (\<lparr>ms_config = \<lparr>cfg = [(''default_headers'', PDict [(''Accept'', PStr ''*/*'')])], merged_cache = None\<rparr>,
         ms_globals = initial_globals 1\<rparr>, (fst example_state, initial_ffi)) = (s2, r) \<and>
     snd (mod_request 1 example_env ''get'' ''https://c.d'' no_args [] s2) =
       snd (request example_env cl ''get'' ''https://c.d'' no_args options (begin_call options (fst (snd s2)), snd (snd s2))) \<and>
     map_of options ''headers'' = Some (PDict d) \<and> map_of d ''Authorization'' = Some (PStr ''Basic dTpw'')"
proof -
  let ?ms = "\<lparr>ms_config = \<lparr>cfg = [(''default_headers'', PDict [(''Accept'', PStr ''*/*'')])], merged_cache = None\<rparr>,
    ms_globals = initial_globals 1\<rparr>"
  let ?q = "mod_request 1 example_env ''get'' ''https://a.b'' (no_args\<lparr>ra_auth := Some (PStr ''u'', PStr ''p'')\<rparr>) []
    (?ms, (fst example_state, initial_ffi))"
  obtain ms2 st2 f2 r where q: "?q = ((ms2, (st2, f2)), r)" by (metis prod.exhaust)
  have ms: "coherent (ms_config ?ms)" "globals_ok (ms_globals ?ms)"
    "map_of (cfg (ms_config ?ms)) ''default_headers'' = Some (PDict [(''Accept'', PStr ''*/*'')])"
    "[(''Accept'', PStr ''*/*'')] \<noteq> []" by (simp_all add: coherent_def globals_ok_initial)
  have kw: "distinct (dkeys ([] :: kwargs))" "set (dkeys ([] :: kwargs)) \<inter> set named_keys = {}" by simp_all
  have cred: "''Basic '' @ b64encode (utf8_encode (py_str (PStr ''u'') @ '':'' @ py_str (PStr ''p''))) = ''Basic dTpw''" by code_simp
  from module_auth_leaks_into_defaults [OF ms q no_call kw, of 1 example_env "''get''" "''https://c.d''" no_args, unfolded cred]
  obtain options cl d where "snd (mod_request 1 example_env ''get'' ''https://c.d'' no_args [] (ms2, (st2, f2))) =
      snd (request example_env cl ''get'' ''https://c.d'' no_args options (begin_call options st2, f2))"
    "map_of options ''headers'' = Some (PDict d)" "map_of d ''Authorization'' = Some (PStr ''Basic dTpw'')"
    by (simp only: map_of.simps option.case) blast
  with q show ?thesis by (metis fst_conv snd_conv)
qed

end
