(* ===== verification/Plugins.thy ===== *)
theory Plugins
  imports Fingerprints
begin

section \<open>Loading profiles from files (\<^verbatim>\<open>cycletls/plugins.py\<close>)\<close>

text \<open>
  The file system is \<open>fs\<close>, the JSON value a file holds or the exception that opening or parsing it raises, and
  \<open>listing\<close>, what a path is and, for a directory, its \<^verbatim>\<open>*.json\<close> files in the order of \<^verbatim>\<open>glob\<close>. The registry of
  profiles is passed along and returned. Messages of the logger are left out.
\<close>

type_synonym fs = "string \<Rightarrow> pyval res"

datatype path_kind = NoSuchPath | NotDirectory | Directory "string list"

fun from_json :: "pyval res \<Rightarrow> TLSFingerprint res" where
  "from_json (Inl e) = Inl e"
| "from_json (Inr (PDict data)) = from_dict data"
| "from_json (Inr _) = Inl (Exc TypeError ''object is not subscriptable by a string'')"

definition to_json :: "TLSFingerprint \<Rightarrow> pyval" where
  "to_json fp = PDict (to_dict fp)"

fun load_files :: "fs \<Rightarrow> string list \<Rightarrow> registry \<Rightarrow> nat \<Rightarrow> registry \<times> nat" where
  "load_files fs [] r loaded = (r, loaded)"
| "load_files fs (json_file # rest) r loaded = (case from_json (fs json_file) of
     Inl _ \<Rightarrow> load_files fs rest r loaded
   | Inr profile \<Rightarrow> (case register r profile of
       (r', Inl _) \<Rightarrow> load_files fs rest r' loaded
     | (r', Inr _) \<Rightarrow> load_files fs rest r' (Suc loaded)))"

definition load_fingerprints_from_dir :: "fs \<Rightarrow> (string \<Rightarrow> path_kind) \<Rightarrow> string \<Rightarrow> registry \<Rightarrow> registry \<times> nat" where
  "load_fingerprints_from_dir fs listing directory r = (case listing directory of
     NoSuchPath \<Rightarrow> (r, 0)
   | NotDirectory \<Rightarrow> (r, 0)
   | Directory files \<Rightarrow> load_files fs files r 0)"

definition load_fingerprints_from_env :: "fs \<Rightarrow> (string \<Rightarrow> path_kind) \<Rightarrow> string option \<Rightarrow> registry \<Rightarrow> registry \<times> nat" where
  "load_fingerprints_from_env fs listing dir_path r = (case dir_path of
     None \<Rightarrow> (r, 0)
   | Some d \<Rightarrow> if d \<noteq> [] then load_fingerprints_from_dir fs listing d r else (r, 0))"

definition load_fingerprint_from_file :: "fs \<Rightarrow> string \<Rightarrow> registry \<Rightarrow> registry \<times> TLSFingerprint res" where
  "load_fingerprint_from_file fs path r = (case from_json (fs path) of
     Inl e \<Rightarrow> (r, Inl e)
   | Inr profile \<Rightarrow> (case register r profile of
       (r', Inl e) \<Rightarrow> (r', Inl e)
     | (r', Inr _) \<Rightarrow> (r', Inr profile)))"

definition fingerprint_template :: "string \<Rightarrow> TLSFingerprint" where
  "fingerprint_template name = \<lparr>fp_name = PStr name,
     fp_ja3 = PStr (''771,4865-4866-4867-49195-49199-49196-49200-52393-52392-49171-49172-156-157-'' @
       ''47-53,0-23-65281-10-11-35-16-5-13-18-51-45-43-27-17513,29-23-24,0''),
     fp_ja4r = PNone,
     fp_http2_fingerprint = PStr ''1:65536,2:0,3:1000,4:6291456,6:262144|15663105|0|m,a,s,p'',
     fp_quic_fingerprint = PNone,
     fp_user_agent = PStr (''Mozilla/5.0 (Windows NT 10.0; Win64; x64) AppleWebKit/537.36 '' @
       ''(KHTML, like Gecko) Chrome/120.0.0.0 Safari/537.36''),
     fp_header_order = PList (map PStr [''host'', ''connection'', ''user-agent'', ''accept'', ''accept-encoding'',
       ''accept-language'', ''cookie'']),
     fp_headers = PNone, fp_disable_grease = PBool False, fp_force_http1 = PBool False, fp_force_http3 = PBool False\<rparr>"

definition create_fingerprint_template :: "string \<Rightarrow> string \<Rightarrow> fs \<Rightarrow> fs" where
  "create_fingerprint_template path name fs = fs(path := Inr (to_json (fingerprint_template name)))"

subsection \<open>Lemmas\<close>

text \<open>The profiles of the valid files, in their order.\<close>

definition valid_profiles :: "fs \<Rightarrow> string list \<Rightarrow> TLSFingerprint list" where
  "valid_profiles fs files = filter (\<lambda>p. hashable (fp_name p)) (concat (map (\<lambda>f. case from_json (fs f) of Inl _ \<Rightarrow> [] | Inr p \<Rightarrow> [p]) files))"

lemma load_files_eq:
  "load_files fs files r n =
    (dupdate r (map (\<lambda>p. (fp_name p, p)) (valid_profiles fs files)), n + length (valid_profiles fs files))"
  by (induction fs files r n rule: load_files.induct) (auto simp: valid_profiles_def register_def split: sum.splits)

lemma map_of_rev_names: "map_of (rev (map (\<lambda>p. (f p, p)) ps)) n = find (\<lambda>p. f p = n) (rev ps)"
proof (induction ps rule: rev_induct)
  case (snoc p ps)
  then show ?case by (simp add: find_append)
qed simp

lemma to_json_from_json: "canonical fp \<Longrightarrow> from_json (Inr (to_json fp)) = Inr fp"
  by (simp add: to_json_def from_dict_to_dict)

subsection \<open>Properties\<close>

text \<open>C40. Loading a directory never fails: files that cannot be read, parsed or registered are passed over, the result
  counts the others, and afterwards each name stands for the last valid file that has it, or for what it stood for
  before. A path that is not a directory changes nothing.\<close>

theorem load_dir_registers_valid_files:
  assumes "load_fingerprints_from_dir fs listing directory r = (r', n)"
  shows "case listing directory of
      Directory files \<Rightarrow> n = length (valid_profiles fs files) \<and>
        (\<forall>name. map_of r' name = (case find (\<lambda>p. fp_name p = name) (rev (valid_profiles fs files)) of
           None \<Rightarrow> map_of r name | Some p \<Rightarrow> Some p))
    | _ \<Rightarrow> r' = r \<and> n = 0"
proof (cases "listing directory")
  case (Directory files)
  with assms have "r' = dupdate r (map (\<lambda>p. (fp_name p, p)) (valid_profiles fs files))" "n = length (valid_profiles fs files)"
    by (simp_all add: load_fingerprints_from_dir_def load_files_eq)
  with Directory show ?thesis
    by (simp add: map_of_dupdate map_add_def map_of_rev_names split: option.split)
qed (use assms in \<open>simp_all add: load_fingerprints_from_dir_def\<close>)

definition example_fs :: fs where
  "example_fs path = (if path = ''a.json'' then Inr (to_json (fingerprint_template ''x''))
     else if path = ''b.json'' then Inr (PDict [(''name'', PStr ''y'')])
     else if path = ''c.json'' then Inr (to_json ((fingerprint_template ''x'')\<lparr>fp_ja4r := PStr ''t13d''\<rparr>))
     else Inl (Exc OSError ''No such file''))"

theorem load_dir_registers_valid_files_witness:
  "\<exists>r' p. load_fingerprints_from_dir example_fs (\<lambda>_. Directory [''a.json'', ''b.json'', ''c.json'']) ''d'' [] = (r', 2) \<and>
     map_of r' (PStr ''x'') = Some p \<and> fp_ja4r p = PStr ''t13d''"
proof -
  let ?listing = "\<lambda>_ :: string. Directory [''a.json'', ''b.json'', ''c.json'']"
  obtain r' n where l: "load_fingerprints_from_dir example_fs ?listing ''d'' [] = (r', n)" by force
  have v: "valid_profiles example_fs [''a.json'', ''b.json'', ''c.json''] =
      [fingerprint_template ''x'', (fingerprint_template ''x'')\<lparr>fp_ja4r := PStr ''t13d''\<rparr>]" by code_simp
  from load_dir_registers_valid_files [OF l] have "n = 2" "map_of r' (PStr ''x'') = Some ((fingerprint_template ''x'')\<lparr>fp_ja4r := PStr ''t13d''\<rparr>)"
    by (simp_all add: v fingerprint_template_def)
  with l show ?thesis by simp
qed

text \<open>A template that was created can be loaded back: the file registers exactly the template profile under the given
  name, and every other name keeps its profile.\<close>

theorem template_roundtrip:
  "\<exists>r'. load_fingerprint_from_file (create_fingerprint_template path name fs) path r = (r', Inr (fingerprint_template name)) \<and>
     registry_get r' name = Inr (fingerprint_template name) \<and> map_of r' = (map_of r)(PStr name \<mapsto> fingerprint_template name)"
proof -
  have c: "canonical (fingerprint_template name)" and n: "fp_name (fingerprint_template name) = PStr name"
    by (auto simp: canonical_def fingerprint_template_def)
  show ?thesis
    by (simp add: load_fingerprint_from_file_def create_fingerprint_template_def to_json_from_json [OF c] register_def n registry_get_def)
qed

end
