(* ===== verification/Packaging.thy ===== *)
theory Packaging
  imports FFI
begin

section \<open>The build hook (\<^verbatim>\<open>hatch_build.py\<close>)\<close>

text \<open>
  The hook runs when a wheel is built. \<open>build_state\<close> has the files that exist, the dictionary \<^verbatim>\<open>build_data\<close> the hook
  changes in place, and the number of runs of the build script. The build script is a shell script: what it does to
  the files and how it ends is a field of \<open>build_env\<close>, with the machine and the root of the project, an absolute
  path without a slash at its end. A path is its text, as \<^verbatim>\<open>str\<close> of a \<^verbatim>\<open>Path\<close> gives it.

  The installed package has what \<^verbatim>\<open>force_include\<close> maps into it: \<open>installed_files\<close> are their paths in a directory of
  packages. \<open>wheel_library_loads\<close> connects the hook with the search for the library in \<^verbatim>\<open>_ffi.py\<close>.
\<close>

datatype script_end = Exited int | NotStarted pyexc

record build_env =
  be_system :: string
  be_machine :: string
  be_root :: string
  be_script :: "(string \<Rightarrow> bool) \<Rightarrow> (string \<Rightarrow> bool) \<times> script_end"

record build_state =
  present :: "string \<Rightarrow> bool"
  script_runs :: nat
  build_data :: kwargs

type_synonym 'a build = "(build_state, 'a) eff"

definition get_platform_tag :: "build_env \<Rightarrow> string" where
  "get_platform_tag env = (let machine = lower (be_machine env) in
     if be_system env = ''Darwin'' then
       (if machine \<in> set [''arm64'', ''aarch64''] then ''macosx_11_0_arm64'' else ''macosx_10_15_x86_64'')
     else if be_system env = ''Linux'' then
       (if machine \<in> set [''x86_64'', ''amd64''] then ''manylinux2014_x86_64''
        else if machine \<in> set [''aarch64'', ''arm64''] then ''manylinux2014_aarch64'' else ''linux_'' @ machine)
     else if be_system env = ''Windows'' then
       (if machine \<in> set [''amd64'', ''x86_64''] then ''win_amd64''
        else if machine \<in> set [''arm64'', ''aarch64''] then ''win_arm64'' else ''win32'')
     else ''any'')"

definition platform_arch :: "string \<Rightarrow> string" where
  "platform_arch machine = (if machine \<in> set [''x86_64'', ''amd64''] then ''x64''
     else if machine \<in> set [''aarch64'', ''arm64''] then ''arm64'' else machine)"

definition get_platform_binary :: "build_env \<Rightarrow> string option" where
  "get_platform_binary env = (let arch = platform_arch (lower (be_machine env))
     in if be_system env = ''Darwin'' then Some (''libcycletls-darwin-'' @ arch @ ''.dylib'')
        else if be_system env = ''Linux'' then Some (''libcycletls-linux-'' @ arch @ ''.so'')
        else if be_system env = ''Windows'' then Some (''cycletls-win-'' @ arch @ ''.dll'')
        else None)"

text \<open>The name without the architecture, which both the fallback and the last step of the hook compute.\<close>

definition generic_name :: "build_env \<Rightarrow> string option" where
  "generic_name env = (if be_system env = ''Windows'' then Some ''cycletls.dll''
     else if be_system env = ''Darwin'' then Some ''libcycletls.dylib''
     else if be_system env = ''Linux'' then Some ''libcycletls.so'' else None)"

definition runtime_error :: "string \<Rightarrow> pyexc" where
  "runtime_error msg = Exc RuntimeError msg"

definition script_missing :: "string \<Rightarrow> string \<Rightarrow> pyexc" where
  "script_missing binary_name build_script = runtime_error (''Required shared library '' @ single_quoted binary_name @
     '' is missing and build script was not found at '' @ single_quoted build_script @ ''.'')"

definition build_failed :: pyexc where
  "build_failed = runtime_error (''Failed to build CycleTLS Go shared library during wheel build. '' @
     ''Ensure Go is installed and CGO can compile on this platform.'')"

definition nothing_built :: "string \<Rightarrow> string \<Rightarrow> pyexc" where
  "nothing_built binary_name dist_dir = runtime_error (''Go build completed but expected shared library '' @
     single_quoted binary_name @ '' was not generated in '' @ single_quoted dist_dir @ ''.'')"

definition run_script :: "build_env \<Rightarrow> unit build" where
  "run_script env = (\<lambda>s. case be_script env (present s) of (files, outcome) \<Rightarrow>
     (s\<lparr>present := files, script_runs := Suc (script_runs s)\<rparr>,
      case outcome of Exited n \<Rightarrow> if n = 0 then Inr () else Inl build_failed | NotStarted e \<Rightarrow> Inl e))"

definition build_library :: "build_env \<Rightarrow> string \<Rightarrow> string \<Rightarrow> string build" where
  "build_library env binary_name dist_dir =
    (let build_script = path_join (path_join (be_root env) ''scripts'') ''build_shared_lib.sh'';
         binary_path = path_join dist_dir binary_name in
     bindX (readX (\<lambda>s. present s build_script)) (\<lambda>b.
       if \<not> b then raiseX (script_missing binary_name build_script)
       else thenX (run_script env) (bindX (readX (\<lambda>s. present s binary_path)) (\<lambda>built.
         if built then retX binary_path else raiseX (nothing_built binary_name dist_dir)))))"

definition ensure_platform_binary :: "build_env \<Rightarrow> string \<Rightarrow> string \<Rightarrow> string build" where
  "ensure_platform_binary env binary_name dist_dir =
     bindX (readX present) (\<lambda>exists.
       if exists (path_join dist_dir binary_name) then retX (path_join dist_dir binary_name)
       else case generic_name env of
         Some g \<Rightarrow> if exists (path_join dist_dir g) then retX (path_join dist_dir g)
           else build_library env binary_name dist_dir
       | None \<Rightarrow> build_library env binary_name dist_dir)"

text \<open>\<^verbatim>\<open>name.rsplit(".", 1)[0]\<close>: all before the last dot.\<close>

definition before_last_dot :: "string \<Rightarrow> string" where
  "before_last_dot s = (if CHR ''.'' \<in> set s then rev (drop 1 (dropWhile (\<lambda>c. c \<noteq> CHR ''.'') (rev s))) else s)"

definition set_data :: "string \<Rightarrow> pyval \<Rightarrow> unit build" where
  "set_data k v = updX (\<lambda>s. s\<lparr>build_data := dset (build_data s) k v\<rparr>)"

definition in_package :: "string \<Rightarrow> string" where
  "in_package name = ''cycletls/dist/'' @ name"

text \<open>\<^verbatim>\<open>build_data["force_include"][path] = target\<close>, on the dictionary the hook has just stored.\<close>

definition force_include :: "string \<Rightarrow> string \<Rightarrow> unit build" where
  "force_include path name = updX (\<lambda>s. s\<lparr>build_data :=
     (case map_of (build_data s) ''force_include'' of
        Some (PDict d) \<Rightarrow> dset (build_data s) ''force_include'' (PDict (dset d path (PStr (in_package name))))
      | _ \<Rightarrow> build_data s)\<rparr>)"

definition include_if_present :: "string \<Rightarrow> string \<Rightarrow> unit build" where
  "include_if_present dist_dir name = bindX (readX (\<lambda>s. present s (path_join dist_dir name))) (\<lambda>b.
     if b then force_include (path_join dist_dir name) name else retX ())"

definition initialize :: "build_env \<Rightarrow> unit build" where
  "initialize env =
    (let plat_tag = get_platform_tag env; dist_dir = path_join (path_join (be_root env) ''cycletls'') ''dist'' in
     thenX (if plat_tag \<noteq> ''any'' then set_data ''tag'' (PStr (''py3-none-'' @ plat_tag)) else retX ())
     (case get_platform_binary env of
       None \<Rightarrow> retX ()
     | Some binary_name \<Rightarrow> bindX (ensure_platform_binary env binary_name dist_dir) (\<lambda>binary_path.
         thenX (set_data ''force_include'' (PDict [(binary_path, PStr (in_package binary_name))]))
         (thenX (include_if_present dist_dir (before_last_dot binary_name @ ''.h''))
         (case generic_name env of
           None \<Rightarrow> retX ()
         | Some g \<Rightarrow> include_if_present dist_dir g)))))"

subsection \<open>What a wheel has\<close>

definition included :: "kwargs \<Rightarrow> kwargs" where
  "included data = (case map_of data ''force_include'' of Some (PDict d) \<Rightarrow> d | _ \<Rightarrow> [])"

definition installed_files :: "string \<Rightarrow> kwargs \<Rightarrow> string list" where
  "installed_files site data = map (\<lambda>(_, target). path_join site (py_str target)) (included data)"

lemma path_join_inject [simp]: "path_join a b = path_join a c \<longleftrightarrow> b = c"
  by (simp add: path_join_def)

text \<open>\<open>stores_map s d\<close>: the hook has stored \<open>d\<close>.\<close>

definition stores_map :: "build_state \<Rightarrow> kwargs \<Rightarrow> bool" where
  "stores_map s d \<longleftrightarrow> map_of (build_data s) ''force_include'' = Some (PDict d)"

lemma include_if_present_stores:
  assumes "stores_map s d"
  shows "\<exists>s1. include_if_present dist_dir name s = (s1, Inr ()) \<and> present s1 = present s \<and>
    map_of (build_data s1) ''tag'' = map_of (build_data s) ''tag'' \<and>
    stores_map s1 (if present s (path_join dist_dir name)
      then dset d (path_join dist_dir name) (PStr (in_package name)) else d)"
  using assms by (simp add: include_if_present_def stores_map_def force_include_def eff_defs)

lemma ensure_platform_binary_present:
  assumes "ensure_platform_binary env name dist_dir s = (s', Inr path)"
  shows "present s' path \<and> build_data s' = build_data s \<and>
    (path = path_join dist_dir name \<or> (\<exists>g. generic_name env = Some g \<and> path = path_join dist_dir g))"
  using assms unfolding ensure_platform_binary_def build_library_def run_script_def Let_def
  by (auto simp: eff_defs split: if_splits option.splits prod.splits script_end.splits)

lemma library_name_ends:
  "get_platform_binary env = Some name \<Longrightarrow> last name \<noteq> CHR ''h''"
  "generic_name env = Some g \<Longrightarrow> last g \<noteq> CHR ''h''"
  unfolding get_platform_binary_def generic_name_def Let_def by (auto split: if_split_asm)

lemma header_differs: "last name \<noteq> CHR ''h'' \<Longrightarrow> s @ ''.h'' \<noteq> name"
  by (metis (no_types, lifting) last.simps last_appendR list.discI)

lemma library_filenames_arch:
  "get_library_filenames w = (let arch = platform_arch (lower (w_machine w)) in
     if w_system w = ''Windows'' then [''cycletls-win-'' @ arch @ ''.dll'', ''cycletls.dll'']
     else if w_system w = ''Darwin'' then [''libcycletls-darwin-'' @ arch @ ''.dylib'', ''libcycletls.dylib'']
     else [''libcycletls-linux-'' @ arch @ ''.so'', ''libcycletls.so''])"
  by (simp only: get_library_filenames_def platform_arch_def Let_def)

lemma candidate_names:
  assumes "get_platform_binary env = Some name" "w_system w = be_system env" "w_machine w = be_machine env"
  shows "name \<in> set (get_library_filenames w)" and "generic_name env = Some g \<Longrightarrow> g \<in> set (get_library_filenames w)"
  using assms unfolding get_platform_binary_def library_filenames_arch generic_name_def Let_def
  by (auto split: if_split_asm)

lemma dist_candidate:
  "name \<in> set (get_library_filenames w) \<Longrightarrow> path_join (path_join (w_package_dir w) ''dist'') name \<in> set (iter_library_candidates w)"
  by (auto simp: iter_library_candidates_def)

lemma endswith_slash: "s \<noteq> [] \<Longrightarrow> endswith s ''/'' \<longleftrightarrow> last s = CHR ''/''"
  by (metis append_butlast_last_id endswith_def snoc_suffix_snoc suffix_order.refl suffix_bot.extremum append_Nil
      suffix_to_prefix prefix_order.refl last_snoc)

lemma package_path:
  "path_join (path_join (path_join site ''cycletls'') ''dist'') name = path_join site (in_package name)"
proof -
  have "\<not> endswith (path_join site ''cycletls'') ''/''" "path_join site ''cycletls'' \<noteq> []"
    by (simp_all add: path_join_def endswith_slash)
  then have 1: "path_join (path_join site ''cycletls'') ''dist'' = path_join site ''cycletls'' @ ''/dist''"
    by (simp add: path_join_def [of "path_join site ''cycletls''"])
  have 2: "path_join (u @ ''/dist'') name = u @ ''/dist/'' @ name" for u
    by (simp add: path_join_def endswith_slash)
  show ?thesis
    unfolding 1 2 by (auto simp: path_join_def in_package_def)
qed

lemma set_dset_imp: "p \<in> set (dset d k v) \<Longrightarrow> p = (k, v) \<or> p \<in> set d"
  by (induction d k v rule: dset.induct) (auto split: if_splits)

text \<open>A successful run has stored what it includes: files that exist, and among them the library under a name the
  package searches for.\<close>

lemma initialize_stores:
  assumes "initialize env s = (s', Inr ())" "get_platform_binary env = Some name"
  obtains d path n where "stores_map s' d" "map_of d path = Some (PStr (in_package n))"
    "n = name \<or> generic_name env = Some n" "\<forall>(src, _)\<in>set d. present s' src"
    "get_platform_tag env \<noteq> ''any'' \<Longrightarrow> map_of (build_data s') ''tag'' = Some (PStr (''py3-none-'' @ get_platform_tag env))"
proof -
  let ?dist = "path_join (path_join (be_root env) ''cycletls'') ''dist''"
  define s0 where "s0 = (if get_platform_tag env \<noteq> ''any''
    then s\<lparr>build_data := dset (build_data s) ''tag'' (PStr (''py3-none-'' @ get_platform_tag env))\<rparr> else s)"
  have tag: "(if get_platform_tag env \<noteq> ''any'' then set_data ''tag'' (PStr (''py3-none-'' @ get_platform_tag env)) else retX ()) s
      = (s0, Inr ())"
    by (simp add: s0_def set_data_def eff_apply)
  obtain s1 r where e: "ensure_platform_binary env name ?dist s0 = (s1, r)" by (cases "ensure_platform_binary env name ?dist s0")
  note run = assms(1) [unfolded initialize_def Let_def thenX_def bindX_def tag prod.case sum.case assms(2) option.case e]
  obtain path where r: "r = Inr path"
    using run by (cases r) simp_all
  note found = ensure_platform_binary_present [OF e [unfolded r]]
  define s2 where "s2 = s1\<lparr>build_data := dset (build_data s1) ''force_include'' (PDict [(path, PStr (in_package name))])\<rparr>"
  let ?d2 = "[(path, PStr (in_package name))]"
  have d2: "stores_map s2 ?d2" by (simp add: s2_def stores_map_def)
  from include_if_present_stores [OF d2, of ?dist "before_last_dot name @ ''.h''"] obtain s3 d3 where
    i3: "include_if_present ?dist (before_last_dot name @ ''.h'') s2 = (s3, Inr ())" and p3: "present s3 = present s2"
    and t3: "map_of (build_data s3) ''tag'' = map_of (build_data s2) ''tag''" and d3: "stores_map s3 d3"
    and e3: "d3 = (if present s2 (path_join ?dist (before_last_dot name @ ''.h''))
      then dset ?d2 (path_join ?dist (before_last_dot name @ ''.h'')) (PStr (in_package (before_last_dot name @ ''.h''))) else ?d2)"
    by blast
  have "\<exists>g. generic_name env = Some g" using assms(2)
    unfolding get_platform_binary_def generic_name_def Let_def by (auto split: if_split_asm)
  then obtain g where g: "generic_name env = Some g" by blast
  from include_if_present_stores [OF d3, of ?dist g] obtain s4 d4 where
    i4: "include_if_present ?dist g s3 = (s4, Inr ())" and p4: "present s4 = present s3"
    and t4: "map_of (build_data s4) ''tag'' = map_of (build_data s3) ''tag''" and d4: "stores_map s4 d4"
    and e4: "d4 = (if present s3 (path_join ?dist g) then dset d3 (path_join ?dist g) (PStr (in_package g)) else d3)"
    by blast
  have "set_data ''force_include'' (PDict ?d2) s1 = (s2, Inr ())" by (simp add: set_data_def s2_def eff_apply)
  with run i3 i4 g r have "s' = s4" by simp
  have "path \<noteq> path_join ?dist (before_last_dot name @ ''.h'')"
    using found header_differs [OF library_name_ends(1) [OF assms(2)]] header_differs [OF library_name_ends(2)]
    by (metis path_join_inject)
  then have m3: "map_of d3 path = Some (PStr (in_package name))" by (simp add: e3)
  have "\<exists>n. map_of d4 path = Some (PStr (in_package n)) \<and> (n = name \<or> generic_name env = Some n)"
    using m3 g by (auto simp: e4)
  moreover have "\<forall>(src, _)\<in>set d4. present s4 src"
    using found by (auto simp: e4 e3 p4 p3 s2_def dest!: set_dset_imp split: if_splits)
  moreover have "map_of (build_data s4) ''tag'' = map_of (build_data s1) ''tag''"
    by (simp add: t4 t3 s2_def)
  moreover have "build_data s1 = build_data s0" using found by simp
  moreover have "get_platform_tag env \<noteq> ''any'' \<Longrightarrow>
      map_of (build_data s0) ''tag'' = Some (PStr (''py3-none-'' @ get_platform_tag env))"
    by (simp add: s0_def)
  ultimately show ?thesis
    using that [OF d4 [folded \<open>s' = s4\<close>]] \<open>s' = s4\<close> by auto
qed

lemma find_exists: "x \<in> set xs \<Longrightarrow> P x \<Longrightarrow> \<exists>y. find P xs = Some y \<and> P y"
  by (induction xs) auto

lemma load_first_candidate:
  assumes "lib f = None" "c \<in> set (iter_library_candidates w)" "c \<noteq> []" "w_exists w c"
  shows "\<exists>p. w_exists w p \<and> load_library w f =
    (case w_dlopen w p of Inl e \<Rightarrow> (f, Inl e) | Inr _ \<Rightarrow> (f\<lparr>lib := Some p\<rparr>, Inr p))"
proof -
  from find_exists [OF assms(2), of "\<lambda>c. c \<noteq> [] \<and> w_exists w c"] assms(3,4) obtain p where
    "find (\<lambda>c. c \<noteq> [] \<and> w_exists w c) (iter_library_candidates w) = Some p" "w_exists w p" by blast
  with assms(1) show ?thesis
    by (intro exI [of _ p]) (simp add: load_library_def eff_defs split: sum.split)
qed

text \<open>C15. The wheel the build hook makes can load its native library: when the hook succeeds on a platform it knows,
  every file it includes exists, the wheel has the tag of the platform, and in a directory of packages that has exactly
  the files of the wheel, on a machine of the same kind and without \<^verbatim>\<open>CYCLETLS_LIB_PATH\<close>, \<^verbatim>\<open>_load_library\<close> opens
  one of them; this holds whether the library came from an earlier build, from the name without the architecture or
  from the build script.\<close>

theorem wheel_library_loads:
  assumes "initialize env s = (s', Inr ())" "be_system env \<in> {''Darwin'', ''Linux'', ''Windows''}"
    and "w_system w = be_system env" "w_machine w = be_machine env" "w_lib_path w = None"
    and "w_package_dir w = path_join site ''cycletls''" "lib f = None"
    and "\<forall>p. w_exists w p \<longleftrightarrow> p \<in> set (installed_files site (build_data s'))"
  shows "(\<forall>(src, _)\<in>set (included (build_data s')). present s' src) \<and>
    map_of (build_data s') ''tag'' = Some (PStr (''py3-none-'' @ get_platform_tag env)) \<and>
    (\<exists>p\<in>set (installed_files site (build_data s')).
       load_library w f = (case w_dlopen w p of Inl e \<Rightarrow> (f, Inl e) | Inr _ \<Rightarrow> (f\<lparr>lib := Some p\<rparr>, Inr p)))"
proof -
  obtain name where b: "get_platform_binary env = Some name"
    using assms(2) unfolding get_platform_binary_def Let_def by auto
  have "get_platform_tag env \<noteq> ''any''"
    using assms(2) unfolding get_platform_tag_def Let_def by auto
  with initialize_stores [OF assms(1) b] obtain d path n where d: "stores_map s' d"
    "map_of d path = Some (PStr (in_package n))" "n = name \<or> generic_name env = Some n"
    "\<forall>(src, _)\<in>set d. present s' src"
    "map_of (build_data s') ''tag'' = Some (PStr (''py3-none-'' @ get_platform_tag env))" by metis
  have inc: "included (build_data s') = d" using d(1) by (simp add: stores_map_def included_def)
  let ?c = "path_join (path_join (w_package_dir w) ''dist'') n"
  have "?c \<in> set (iter_library_candidates w)"
    using d(3) candidate_names [OF b assms(3,4)] dist_candidate by metis
  moreover have "?c = path_join site (in_package n)" using package_path by (simp add: assms(6))
  moreover have "path_join site (in_package n) \<in> set (installed_files site (build_data s'))"
    using map_of_SomeD [OF d(2)] by (force simp: installed_files_def inc)
  moreover have "path_join site (in_package n) \<noteq> []" by (simp add: path_join_def in_package_def)
  ultimately have "\<exists>p. w_exists w p \<and> load_library w f =
      (case w_dlopen w p of Inl e \<Rightarrow> (f, Inl e) | Inr _ \<Rightarrow> (f\<lparr>lib := Some p\<rparr>, Inr p))"
    using load_first_candidate [OF assms(7), of ?c w] assms(8) by simp
  with assms(8) d(4,5) inc show ?thesis by auto
qed

definition linux_build :: build_env where
  "linux_build = \<lparr>be_system = ''Linux'', be_machine = ''x86_64'', be_root = ''/r'', be_script = (\<lambda>files. (files, Exited 1))\<rparr>"

definition files_only :: "string list \<Rightarrow> build_state" where
  "files_only ps = \<lparr>present = (\<lambda>p. p \<in> set ps), script_runs = 0, build_data = []\<rparr>"

definition linux_install :: ffi_world where
  "linux_install = \<lparr>w_lib_path = None, w_system = ''Linux'', w_machine = ''x86_64'', w_package_dir = ''/s/cycletls'',
     w_exists = (\<lambda>p. p = ''/s/cycletls/dist/libcycletls-linux-x64.so''), w_dlopen = (\<lambda>_. Inr ()), w_symbols = (\<lambda>_. []),
     w_packb = (\<lambda>_. Inr []), w_unpackb = (\<lambda>_. Inr PNone), w_ptr = (\<lambda>_ _. None), w_num = (\<lambda>_ _. 0)\<rparr>"

lemma linux_build_runs:
  "initialize linux_build (files_only [''/r/cycletls/dist/libcycletls-linux-x64.so'']) =
    (fst (initialize linux_build (files_only [''/r/cycletls/dist/libcycletls-linux-x64.so''])), Inr ())"
  "installed_files ''/s'' (build_data (fst (initialize linux_build (files_only [''/r/cycletls/dist/libcycletls-linux-x64.so''])))) =
    [''/s/cycletls/dist/libcycletls-linux-x64.so'']"
proof -
  have "snd (initialize linux_build (files_only [''/r/cycletls/dist/libcycletls-linux-x64.so''])) = Inr ()" by code_simp
  then show "initialize linux_build (files_only [''/r/cycletls/dist/libcycletls-linux-x64.so'']) =
    (fst (initialize linux_build (files_only [''/r/cycletls/dist/libcycletls-linux-x64.so''])), Inr ())"
    by (metis prod.collapse)
qed code_simp

theorem wheel_library_loads_witness:
  "\<exists>p. load_library linux_install initial_ffi = (initial_ffi\<lparr>lib := Some p\<rparr>, Inr p)"
proof -
  have "be_system linux_build \<in> {''Darwin'', ''Linux'', ''Windows''}" by (simp add: linux_build_def)
  moreover have "w_system linux_install = be_system linux_build" "w_machine linux_install = be_machine linux_build"
    "w_lib_path linux_install = None" "lib initial_ffi = None"
    by (simp_all add: linux_build_def linux_install_def initial_ffi_def)
  moreover have "w_package_dir linux_install = path_join ''/s'' ''cycletls''" by code_simp
  moreover have "\<forall>p. w_exists linux_install p \<longleftrightarrow> p \<in> set (installed_files ''/s''
      (build_data (fst (initialize linux_build (files_only [''/r/cycletls/dist/libcycletls-linux-x64.so''])))))"
    unfolding linux_build_runs(2) by (simp add: linux_install_def)
  ultimately have "\<exists>p. load_library linux_install initial_ffi = (case w_dlopen linux_install p of
      Inl e \<Rightarrow> (initial_ffi, Inl e) | Inr _ \<Rightarrow> (initial_ffi\<lparr>lib := Some p\<rparr>, Inr p))"
    using wheel_library_loads [OF linux_build_runs(1), of linux_install "''/s''" initial_ffi] by blast
  moreover have "w_dlopen linux_install p = Inr ()" for p by (simp add: linux_install_def)
  ultimately show ?thesis by (simp only: sum.case)
qed

text \<open>When only the library without the architecture in its name is there, the wheel has it under that name alone:
  the entry for the name with the architecture has the same path as its key and is overwritten.\<close>

theorem generic_library_keeps_its_name:
  "included (build_data (fst (initialize linux_build (files_only [''/r/cycletls/dist/libcycletls.so''])))) =
    [(''/r/cycletls/dist/libcycletls.so'', PStr ''cycletls/dist/libcycletls.so'')]"
  by code_simp

end
