(* ===== verification/Capture.thy ===== *)
theory Capture
  imports Fingerprints Effects Urls
begin

section \<open>Capturing fingerprints of browsers (\<^verbatim>\<open>scripts/capture_browser_fingerprints.py\<close>)\<close>

text \<open>
  The script drives browsers to a page that answers with what it saw of the TLS and HTTP/2 handshake, and writes the
  answers to a file that \<^verbatim>\<open>load_trackme_fingerprints\<close> reads. Playwright, Selenium, the clock, the environment and the
  file system are the fields of \<open>cap_world\<close>; the state of a computation is the list of the external actions so far,
  and what an action answers may depend on their number. The JSON parser is a field too. Messages on the terminal and the
  parsing of the command line are left out; the options of the command line are \<open>cap_args\<close>. A target of the script never
  has the key \<^verbatim>\<open>executable_path\<close>, so that branch is left out. This theory has the desktop part of the script; the
  part for Android devices is the theory \<open>Android\<close>.
\<close>

datatype action =
    StartPlaywright | StopPlaywright
  | Launch string "string option" bool | ConnectCdp string
  | NewContext bool "string option" | NewPage | CloseBrowser
  | Goto string nat | InnerText
  | OpenDriver string string "string list" | DriverGet string | AwaitBody nat | BodyText | QuitDriver
  | SleepSeconds nat | UtcNow | MakeParent | WriteOutput pyval
  | OpenContexts | OpenPages | IgnoreCertificates string | Probe string | Run "string list"

text \<open>\<open>cw_do\<close>: whether an action raises; \<open>cw_goto\<close>: the status of a page's answer, \<^verbatim>\<open>None\<close> if there is no
  response; \<open>cw_text\<close>: a text the action answers; \<open>cw_count\<close>: a number;
  \<open>cw_run\<close>: the exit code, the output and the error output of a command; \<open>cw_xml_nodes\<close>: the attributes of the nodes of
  an XML document, \<open>None\<close> if it is not well-formed; \<open>cw_elapsed\<close>: the milliseconds an action takes besides sleeping.\<close>

record cap_world =
  cw_sys_platform :: string
  cw_env :: "string \<Rightarrow> string option"
  cw_browser_type :: "string \<Rightarrow> bool"
  cw_selenium :: bool
  cw_do :: "nat \<Rightarrow> action \<Rightarrow> unit res"
  cw_goto :: "nat \<Rightarrow> action \<Rightarrow> int option res"
  cw_text :: "nat \<Rightarrow> action \<Rightarrow> string res"
  cw_count :: "nat \<Rightarrow> action \<Rightarrow> nat res"
  cw_run :: "nat \<Rightarrow> action \<Rightarrow> (int \<times> string \<times> string) res"
  cw_loads :: "string \<Rightarrow> pyval res"
  cw_xml_nodes :: "string \<Rightarrow> (string, string) dict list option"
  cw_elapsed :: "nat \<Rightarrow> nat"

type_synonym 'a cap = "(action list, 'a) eff"

definition answering :: "(nat \<Rightarrow> action \<Rightarrow> 'a res) \<Rightarrow> action \<Rightarrow> 'a cap" where
  "answering f a = (\<lambda>h. (h @ [a], f (length h) a))"

abbreviation act :: "cap_world \<Rightarrow> action \<Rightarrow> unit cap" where
  "act w \<equiv> answering (cw_do w)"

text \<open>A \<^verbatim>\<open>finally\<close> clause or the end of a \<^verbatim>\<open>with\<close> block that is an action itself.\<close>

definition ensuring :: "'a cap \<Rightarrow> unit cap \<Rightarrow> 'a cap" where
  "ensuring m q = (\<lambda>h. case m h of (h', r) \<Rightarrow> (case q h' of (h'', Inl e) \<Rightarrow> (h'', Inl e) | (h'', Inr _) \<Rightarrow> (h'', r)))"

subsection \<open>Header frames\<close>

definition after_colon :: "string \<Rightarrow> string" where
  "after_colon s = drop 1 (dropWhile (\<lambda>c. c \<noteq> CHR '':'') s)"

fun sent_pairs :: "pyval list \<Rightarrow> (string \<times> string) list" where
  "sent_pairs [] = []"
| "sent_pairs (PStr raw_header # hs) =
     (if startswith raw_header '':'' \<or> \<not> contains raw_header '':'' then sent_pairs hs
      else let name = lower (strip (before_colon raw_header)); v = strip (after_colon raw_header) in
        if name = [] then sent_pairs hs else (name, v) # sent_pairs hs)"
| "sent_pairs (_ # hs) = sent_pairs hs"

fun parse_frames :: "pyval list \<Rightarrow> string list \<times> (string, string) dict" where
  "parse_frames [] = ([], [])"
| "parse_frames (PDict frame # fs) =
     (if dget frame ''frame_type'' \<noteq> PStr ''HEADERS'' then parse_frames fs
      else case dget frame ''headers'' of
        PList hs \<Rightarrow> (let ps = sent_pairs hs in
          if ps \<noteq> [] then (map fst ps, dupdate [] ps) else parse_frames fs)
      | _ \<Rightarrow> parse_frames fs)"
| "parse_frames (_ # fs) = parse_frames fs"

text \<open>The \<^verbatim>\<open>for\<close> loop over a value of a JSON document.\<close>

fun iterate :: "pyval \<Rightarrow> pyval list res" where
  "iterate (PList xs) = Inr xs"
| "iterate (PDict d) = Inr (map (PStr \<circ> fst) d)"
| "iterate (PStr s) = Inr (map (\<lambda>c. PStr [c]) s)"
| "iterate _ = Inl (Exc TypeError ''object is not iterable'')"

text \<open>\<^verbatim>\<open>v.get(key, default)\<close> of a JSON value.\<close>

fun get_attr :: "pyval \<Rightarrow> string \<Rightarrow> pyval \<Rightarrow> pyval res" where
  "get_attr (PDict d) k dflt = Inr (dget_or d k dflt)"
| "get_attr _ _ _ = Inl (no_attribute ''get'')"

definition parse_sent_headers :: "pyval \<Rightarrow> (string list \<times> (string, string) dict) res" where
  "parse_sent_headers data = bindE (get_attr data ''http2'' (PDict [])) (\<lambda>http2.
     bindE (get_attr http2 ''sent_frames'' (PList [])) (\<lambda>sent_frames.
     bindE (iterate sent_frames) (\<lambda>frames. Inr (parse_frames frames))))"

definition captured_header_order :: "pyval \<Rightarrow> string list res" where
  "captured_header_order data = bindE (parse_sent_headers data) (\<lambda>r. Inr (fst r))"

definition captured_headers :: "pyval \<Rightarrow> (string, string) dict res" where
  "captured_headers data = bindE (parse_sent_headers data) (\<lambda>r. Inr (snd r))"

definition sanitize_header_values :: "(string, string) dict \<Rightarrow> (string, string) dict" where
  "sanitize_header_values headers = filter (\<lambda>(k, v).
     k \<notin> set [''sec-ch-ua'', ''sec-ch-ua-mobile'', ''sec-ch-ua-platform'', ''user-agent'']) headers"

subsection \<open>Names of profiles\<close>

definition version_tokens :: "(string, string list) dict" where
  "version_tokens = [(''chromium'', [''HeadlessChrome'', ''Chrome'']), (''chrome'', [''HeadlessChrome'', ''Chrome'']),
     (''chrome-beta'', [''HeadlessChrome'', ''Chrome'']), (''msedge'', [''Edg'']), (''msedge-beta'', [''Edg'']),
     (''msedge-dev'', [''Edg'']), (''firefox'', [''Firefox'']), (''safari'', [''Version'']), (''webkit'', [''Version''])]"

definition extract_browser_version :: "string \<Rightarrow> pyval \<Rightarrow> string res" where
  "extract_browser_version browser_name user_agent = (case map_of version_tokens browser_name of
     None \<Rightarrow> Inr ''unknown''
   | Some words \<Rightarrow> bindE (regex_subject user_agent) (\<lambda>ua.
       Inr (case search_token is_version_char words ua of None \<Rightarrow> ''unknown'' | Some v \<Rightarrow> v)))"

definition platform_suffix :: "string \<Rightarrow> string" where
  "platform_suffix sys_platform = (if sys_platform = ''win32'' then ''_win''
     else if sys_platform = ''darwin'' then ''_mac'' else ''_linux'')"

definition detect_platform_from_ua :: "string \<Rightarrow> pyval \<Rightarrow> string res" where
  "detect_platform_from_ua sys_platform user_agent = bindE (as_text user_agent) (\<lambda>text. let ua = lower text in
     Inr (if contains ua ''windows nt'' then ''_win''
       else if contains ua ''macintosh'' \<or> contains ua ''mac os x'' then ''_mac''
       else if contains ua ''android'' then ''_android''
       else if contains ua ''linux'' \<or> contains ua ''x11'' then ''_linux''
       else platform_suffix sys_platform))"

definition detect_browser_from_ua :: "pyval \<Rightarrow> string res" where
  "detect_browser_from_ua user_agent = bindE (as_text user_agent) (\<lambda>text. let ua = lower text in
     Inr (if contains ua ''edg/'' \<or> contains ua ''edge/'' then ''msedge''
       else if contains ua ''opr/'' \<or> contains ua ''opera/'' then ''opera''
       else if contains ua ''firefox/'' then ''firefox''
       else if contains ua ''chrome/'' \<or> contains ua ''chromium/'' \<or> contains ua ''headlesschrome/'' then ''chrome''
       else if contains ua ''version/'' \<and> contains ua ''safari/'' then ''safari''
       else ''chromium''))"

definition safe_version :: "string \<Rightarrow> string" where
  "safe_version version = (let v = strip_with (\<lambda>c. c = CHR ''_'') (collapse False version)
     in if v \<noteq> [] then v else ''unknown'')"

definition profile_name :: "string \<Rightarrow> string \<Rightarrow> string \<Rightarrow> string" where
  "profile_name browser_name version platform = lower (browser_name @ ''_'' @ safe_version version @ platform)"

definition apply_profile_overrides :: "string \<Rightarrow> kwargs \<Rightarrow> string \<Rightarrow> string \<Rightarrow> kwargs res" where
  "apply_profile_overrides sys_platform fp browser_override version_override =
     (if browser_override = [] \<and> version_override = [] then Inr fp
      else bindE (if browser_override \<noteq> [] then Inr (PStr browser_override) else getitem fp ''browser'') (\<lambda>browser.
        let fp = dset fp ''browser'' browser in
        bindE (if version_override \<noteq> [] then Inr (PStr version_override) else getitem fp ''version'') (\<lambda>version.
        let fp = dset fp ''version'' version in
        bindE (detect_platform_from_ua sys_platform (dget_or fp ''ua'' (PStr []))) (\<lambda>ua_platform.
        bindE (regex_subject version) (\<lambda>v.
          Inr (dset fp ''name'' (PStr (profile_name (py_str browser) v ua_platform))))))))"

subsection \<open>Targets\<close>

record target =
  tg_type :: string
  tg_channel :: "string option"
  tg_profile_browser :: string
  tg_label :: string

definition candidate_targets :: "string \<Rightarrow> bool \<Rightarrow> target list" where
  "candidate_targets sys_platform headless_chrome =
    (let chromium = (\<lambda>channel. \<lparr>tg_type = ''chromium'', tg_channel = Some channel, tg_profile_browser = channel,
           tg_label = ''chromium:'' @ channel\<rparr>);
         targets =
           [\<lparr>tg_type = ''chromium'', tg_channel = None, tg_profile_browser = ''chromium'', tg_label = ''chromium''\<rparr>,
            chromium ''chrome'', chromium ''chrome-beta'', chromium ''msedge'', chromium ''msedge-beta'', chromium ''msedge-dev'',
            \<lparr>tg_type = ''firefox'', tg_channel = None, tg_profile_browser = ''firefox'', tg_label = ''firefox''\<rparr>,
            \<lparr>tg_type = ''webkit'', tg_channel = None, tg_profile_browser = ''safari'', tg_label = ''webkit:safari''\<rparr>]
     in if startswith sys_platform ''linux'' \<and> \<not> headless_chrome
        then filter (\<lambda>t. tg_label t \<noteq> ''chromium'') targets else targets)"

definition is_headless_target :: "target \<Rightarrow> bool \<Rightarrow> bool" where
  "is_headless_target t headless_chrome = (if tg_type t = ''chromium'' then headless_chrome else True)"

definition launch :: "target \<Rightarrow> bool \<Rightarrow> action" where
  "launch t headless_chrome = Launch (tg_type t) (tg_channel t) (is_headless_target t headless_chrome)"

text \<open>The targets that can be started, and the reason for each of the others.\<close>

fun discover_targets :: "cap_world \<Rightarrow> bool \<Rightarrow> target list \<Rightarrow> (target list \<times> (string, string) dict) cap" where
  "discover_targets w headless_chrome [] = retX ([], [])"
| "discover_targets w headless_chrome (t # ts) =
     bindX (if \<not> cw_browser_type w (tg_type t) then retX (Some ''browser type not available'')
       else tryX (thenX (act w (launch t headless_chrome)) (thenX (act w CloseBrowser) (retX None)))
         Exception (\<lambda>e. retX (Some (exc_message e)))) (\<lambda>failure.
     bindX (discover_targets w headless_chrome ts) (\<lambda>(available, unavailable).
       retX (case failure of None \<Rightarrow> (t # available, unavailable)
         | Some why \<Rightarrow> (available, (tg_label t, why) # unavailable))))"

definition discover_available_targets :: "cap_world \<Rightarrow> bool \<Rightarrow> (target list \<times> (string, string) dict) cap" where
  "discover_available_targets w headless_chrome =
     discover_targets w headless_chrome (candidate_targets (cw_sys_platform w) headless_chrome)"

subsection \<open>Reading the page\<close>

definition status_error :: "string \<Rightarrow> string \<Rightarrow> int option \<Rightarrow> pyexc" where
  "status_error lead api_url r = Exc RuntimeError (lead @ ''GET '' @ api_url @ '' returned status '' @
     (case r of None \<Rightarrow> ''no response'' | Some n \<Rightarrow> int_str n))"

definition goto_page :: "cap_world \<Rightarrow> string \<Rightarrow> string \<Rightarrow> nat \<Rightarrow> unit cap" where
  "goto_page w lead api_url timeout = bindX (answering (cw_goto w) (Goto api_url timeout)) (\<lambda>r.
     if r = Some 200 then retX () else raiseX (status_error lead api_url r))"

text \<open>The loop \<^verbatim>\<open>for attempt in range(1, 4)\<close> with its \<^verbatim>\<open>else\<close> clause: \<open>n\<close> attempts are left, and the last one
  raises what it caught. The wait is \<^verbatim>\<open>2**attempt\<close> seconds.\<close>

fun attempts :: "cap_world \<Rightarrow> unit cap \<Rightarrow> nat \<Rightarrow> unit cap" where
  "attempts w m 0 = raiseX (Exc TypeError ''exceptions must derive from BaseException'')"
| "attempts w m (Suc n) = tryX m Exception (\<lambda>e.
     if n = 0 then raiseX e else thenX (updX (\<lambda>h. h @ [SleepSeconds (2 ^ (3 - n))])) (attempts w m n))"

definition fetch_page :: "cap_world \<Rightarrow> string \<Rightarrow> string \<Rightarrow> nat \<Rightarrow> unit cap" where
  "fetch_page w lead url timeout = attempts w (goto_page w lead (url @ ''/api/all'') timeout) 3"

definition str_dict :: "(string, string) dict \<Rightarrow> pyval" where
  "str_dict d = PDict (map (\<lambda>(k, v). (k, PStr v)) d)"

definition capture_entry :: "string \<Rightarrow> string \<Rightarrow> string \<Rightarrow> pyval \<Rightarrow> pyval \<Rightarrow> pyval \<Rightarrow> pyval \<Rightarrow>
    string list \<times> (string, string) dict \<Rightarrow> kwargs res" where
  "capture_entry name browser version ua tls http2 data parsed =
     bindE (get_attr tls ''ja3'' PNone) (\<lambda>ja3. bindE (get_attr tls ''ja4_r'' PNone) (\<lambda>ja4_r.
     bindE (get_attr http2 ''akamai_fingerprint'' PNone) (\<lambda>akamai.
       Inr [(''name'', PStr name), (''browser'', PStr browser), (''version'', PStr version), (''ja3'', ja3),
         (''ja4_r'', ja4_r), (''http2'', akamai), (''ua'', ua), (''header_order'', PList (map PStr (fst parsed))),
         (''headers'', str_dict (sanitize_header_values (snd parsed)))])))"

text \<open>What the captures have in common after the page was read: \<open>browser_of\<close> gives the browser's name from the user
  agent, \<open>name_of\<close> the profile's name from browser, version and user agent.\<close>

definition entry_of_page :: "(pyval \<Rightarrow> string res) \<Rightarrow> (string \<Rightarrow> string \<Rightarrow> pyval \<Rightarrow> string res) \<Rightarrow> pyval \<Rightarrow> kwargs res" where
  "entry_of_page browser_of name_of data =
     bindE (get_attr data ''tls'' (PDict [])) (\<lambda>tls.
     bindE (get_attr data ''http2'' (PDict [])) (\<lambda>http2.
     bindE (get_attr data ''user_agent'' PNone) (\<lambda>agent. let user_agent = py_or agent (PStr []) in
     bindE (browser_of user_agent) (\<lambda>browser.
     bindE (extract_browser_version browser user_agent) (\<lambda>version.
     bindE (name_of browser version user_agent) (\<lambda>name.
     bindE (parse_sent_headers data) (\<lambda>parsed.
       capture_entry name browser version user_agent tls http2 data parsed)))))))"

definition detected_name :: "cap_world \<Rightarrow> string \<Rightarrow> string \<Rightarrow> pyval \<Rightarrow> string res" where
  "detected_name w browser version user_agent =
     bindE (detect_platform_from_ua (cw_sys_platform w) user_agent) (\<lambda>platform. Inr (profile_name browser version platform))"

definition own_name :: "cap_world \<Rightarrow> string \<Rightarrow> string \<Rightarrow> pyval \<Rightarrow> string res" where
  "own_name w browser version user_agent = Inr (profile_name browser version (platform_suffix (cw_sys_platform w)))"

subsection \<open>One capture\<close>

definition read_json :: "cap_world \<Rightarrow> action \<Rightarrow> pyval cap" where
  "read_json w a = bindX (answering (cw_text w) a) (\<lambda>body. liftX (cw_loads w body))"

definition bracketed :: "string \<Rightarrow> string" where
  "bracketed label = ''['' @ label @ ''] ''"

definition capture_over_cdp :: "cap_world \<Rightarrow> string \<Rightarrow> string \<Rightarrow> bool \<Rightarrow> kwargs cap" where
  "capture_over_cdp w cdp_url url ignore_https_errors =
     thenX (act w (ConnectCdp cdp_url)) (thenX (act w (NewContext ignore_https_errors (Some ''en-US'')))
     (thenX (act w NewPage) (thenX (fetch_page w (bracketed (''cdp:'' @ cdp_url)) url 60000)
     (bindX (read_json w InnerText) (\<lambda>data. thenX (act w CloseBrowser)
       (liftX (entry_of_page detect_browser_from_ua (detected_name w) data)))))))"

definition capture_fingerprint :: "cap_world \<Rightarrow> target \<Rightarrow> string \<Rightarrow> bool \<Rightarrow> bool \<Rightarrow> kwargs cap" where
  "capture_fingerprint w t url ignore_https_errors headless_chrome =
     thenX (act w (launch t headless_chrome)) (thenX (act w (NewContext ignore_https_errors None))
     (thenX (act w NewPage) (thenX (fetch_page w (bracketed (tg_label t)) url 30000)
     (bindX (read_json w InnerText) (\<lambda>data. thenX (act w CloseBrowser)
       (liftX (entry_of_page (\<lambda>_. Inr (tg_profile_browser t)) (own_name w) data)))))))"

text \<open>The driver of a browser and the settings that make it show the JSON text as it is.\<close>

definition selenium_options :: "string \<Rightarrow> (string \<times> string list) option" where
  "selenium_options browser_name = (let name = lower browser_name in
     if name \<in> set [''chrome'', ''chromium'', ''googlechrome''] then
       Some (''chrome'', [''--disable-blink-features=PrettyPrintJSONDocument''])
     else if name \<in> set [''edge'', ''microsoftedge''] then
       Some (''edge'', [''--disable-blink-features=PrettyPrintJSONDocument''])
     else if name \<in> set [''firefox'', ''ff''] then Some (''firefox'', [''devtools.jsonview.enabled''])
     else if name \<in> set [''safari'', ''webkit''] then Some (''safari'', [])
     else None)"

definition capture_selenium :: "cap_world \<Rightarrow> string \<Rightarrow> string \<Rightarrow> string \<Rightarrow> kwargs cap" where
  "capture_selenium w selenium_url browser_name url =
     (if \<not> cw_selenium w then raiseX (Exc RuntimeError ''selenium package is required for --selenium-url'')
      else case selenium_options browser_name of
        None \<Rightarrow> raiseX (Exc RuntimeError (''Unsupported --selenium-browser: '' @ browser_name))
      | Some (driver, settings) \<Rightarrow> thenX (act w (OpenDriver selenium_url driver settings))
          (bindX (ensuring (thenX (act w (DriverGet (url @ ''/api/all'')))
              (thenX (act w (AwaitBody 60)) (read_json w BodyText))) (act w QuitDriver)) (\<lambda>data.
            liftX (entry_of_page detect_browser_from_ua (detected_name w) data))))"

subsection \<open>Runs of the script\<close>

record cap_args =
  a_url :: string
  a_android_only :: bool
  a_discover_only :: bool
  a_require_browsers :: string
  a_ignore_https_errors :: bool
  a_headless_chrome :: bool
  a_adb_serial :: string
  a_cdp_url :: string
  a_selenium_url :: string
  a_selenium_browser :: string
  a_browser_override :: string
  a_version_override :: string

text \<open>The captures one after the other: a capture that raises becomes an error under its label.\<close>

fun collect :: "(string \<times> kwargs cap) list \<Rightarrow> kwargs list \<Rightarrow> (string, string) dict \<Rightarrow> (kwargs list \<times> (string, string) dict) cap" where
  "collect [] fingerprints errors = retX (fingerprints, errors)"
| "collect ((label, m) # ms) fingerprints errors =
     bindX (tryX (bindX m (\<lambda>fp. retX (Inr fp))) Exception (\<lambda>e. retX (Inl (exc_message e)))) (\<lambda>r. case r of
       Inr fp \<Rightarrow> collect ms (fingerprints @ [fp]) errors
     | Inl msg \<Rightarrow> collect ms fingerprints (dset errors label msg))"

definition overridden :: "cap_world \<Rightarrow> cap_args \<Rightarrow> kwargs cap \<Rightarrow> kwargs cap" where
  "overridden w args m = bindX m (\<lambda>fp.
     liftX (apply_profile_overrides (cw_sys_platform w) fp (a_browser_override args) (a_version_override args)))"

definition payload :: "string \<Rightarrow> kwargs \<Rightarrow> kwargs list \<Rightarrow> kwargs \<Rightarrow> pyval" where
  "payload captured_at source fingerprints extra = PDict ([(''schema'', PStr ''trackme_browser_fingerprints/v1''),
     (''captured_at'', PStr captured_at), (''source'', PDict source), (''fingerprints'', PList (map PDict fingerprints))] @ extra)"

definition entry_if :: "string \<Rightarrow> (string, string) dict \<Rightarrow> kwargs" where
  "entry_if k d = (if d \<noteq> [] then [(k, str_dict d)] else [])"

definition write_payload :: "cap_world \<Rightarrow> kwargs \<Rightarrow> kwargs list \<Rightarrow> kwargs \<Rightarrow> (string, string) dict \<Rightarrow> int cap" where
  "write_payload w source fingerprints extra errors = bindX (answering (cw_text w) UtcNow) (\<lambda>now.
     thenX (act w (WriteOutput (payload now source fingerprints (extra @ entry_if ''errors'' errors))))
       (retX (if errors \<noteq> [] then 1 else 0)))"

definition trackme_source :: "cap_args \<Rightarrow> kwargs \<Rightarrow> kwargs" where
  "trackme_source args discovery = [(''type'', PStr ''trackme''), (''url'', PStr (a_url args)), (''discovery'', PDict discovery)]"

definition main_selenium :: "cap_world \<Rightarrow> cap_args \<Rightarrow> int cap" where
  "main_selenium w args = (if a_selenium_browser args = [] then retX 1
     else bindX (collect [(a_selenium_url args, overridden w args
         (capture_selenium w (a_selenium_url args) (a_selenium_browser args) (a_url args)))] [] []) (\<lambda>(fingerprints, errors).
       write_payload w (trackme_source args [(''type'', PStr ''selenium''), (''selenium_url'', PStr (a_selenium_url args)),
         (''selenium_browser'', PStr (a_selenium_browser args))]) fingerprints [] errors))"

definition with_playwright :: "cap_world \<Rightarrow> 'a cap \<Rightarrow> 'a cap" where
  "with_playwright w m = thenX (act w StartPlaywright) (ensuring m (act w StopPlaywright))"

definition main_cdp :: "cap_world \<Rightarrow> cap_args \<Rightarrow> int cap" where
  "main_cdp w args = bindX (with_playwright w (collect [(a_cdp_url args, overridden w args
       (capture_over_cdp w (a_cdp_url args) (a_url args) (a_ignore_https_errors args)))] [] [])) (\<lambda>(fingerprints, errors).
     write_payload w (trackme_source args [(''type'', PStr ''cdp''), (''cdp_url'', PStr (a_cdp_url args))]) fingerprints [] errors)"

definition str_list :: "string list \<Rightarrow> pyval" where
  "str_list xs = PList (map PStr xs)"

definition sorted_set :: "string list \<Rightarrow> string list" where
  "sorted_set xs = sort (remdups xs)"

definition required_browsers :: "string \<Rightarrow> string list" where
  "required_browsers s = map (lower \<circ> strip) (filter (\<lambda>item. strip item \<noteq> []) (split_on (CHR '','') s))"

definition missing_browsers :: "cap_args \<Rightarrow> target list \<Rightarrow> string list" where
  "missing_browsers args available = sorted_set (filter (\<lambda>b. b \<notin> set (map tg_profile_browser available))
     (required_browsers (a_require_browsers args)))"

definition required_errors :: "cap_args \<Rightarrow> target list \<Rightarrow> (string, string) dict" where
  "required_errors args available = (let missing = missing_browsers args available in
     if missing = [] then [] else [(''required_browsers'', ''Missing required browsers: '' @ py_repr (str_list missing) @
       ''; available='' @ py_repr (str_list (sorted_set (map tg_profile_browser available))))])"

definition target_captures :: "cap_world \<Rightarrow> cap_args \<Rightarrow> target list \<Rightarrow> (string \<times> kwargs cap) list" where
  "target_captures w args available = map (\<lambda>t. (tg_label t, overridden w args
     (capture_fingerprint w t (a_url args) (a_ignore_https_errors args) (a_headless_chrome args)))) available"

definition no_targets :: "cap_world \<Rightarrow> cap_args \<Rightarrow> (string, string) dict \<Rightarrow> int cap" where
  "no_targets w args unavailable = bindX (answering (cw_text w) UtcNow) (\<lambda>now.
     thenX (act w (WriteOutput (payload now [(''type'', PStr ''trackme''), (''url'', PStr (a_url args))] []
       [(''errors'', str_dict unavailable)]))) (retX 1))"

definition write_discovery :: "cap_world \<Rightarrow> cap_args \<Rightarrow> target list \<Rightarrow> (string, string) dict \<Rightarrow> int cap" where
  "write_discovery w args available unavailable =
     write_payload w [(''type'', PStr ''playwright-discovery''), (''url'', PStr (a_url args)), (''discovery'', PDict
         [(''available_targets'', str_list (map tg_label available)),
          (''available_browsers'', str_list (sorted_set (map tg_profile_browser available)))])] []
       (entry_if ''unavailable_targets'' unavailable) (required_errors args available)"

definition write_captures :: "cap_world \<Rightarrow> cap_args \<Rightarrow> target list \<Rightarrow> (string, string) dict \<Rightarrow>
    kwargs list \<Rightarrow> (string, string) dict \<Rightarrow> int cap" where
  "write_captures w args available unavailable fingerprints errors =
     write_payload w (trackme_source args [(''available_targets'', str_list (map tg_label available)),
         (''failed_targets'', str_list (sorted_set (dkeys errors @ dkeys unavailable)))])
       fingerprints (entry_if ''unavailable_targets'' unavailable) errors"

text \<open>The body of the \<^verbatim>\<open>with sync_playwright()\<close> block gives an exit code, where the script returns inside it, or what
  was captured.\<close>

definition desktop_session :: "cap_world \<Rightarrow> cap_args \<Rightarrow>
    (int + target list \<times> (string, string) dict \<times> kwargs list \<times> (string, string) dict) cap" where
  "desktop_session w args =
     bindX (discover_available_targets w (a_headless_chrome args)) (\<lambda>(available, unavailable).
       if available = [] then bindX (no_targets w args unavailable) (\<lambda>n. retX (Inl n))
       else if a_discover_only args then bindX (write_discovery w args available unavailable) (\<lambda>n. retX (Inl n))
       else bindX (collect (target_captures w args available) [] (required_errors args available)) (\<lambda>(fingerprints, errors).
         retX (Inr (available, unavailable, fingerprints, errors))))"

definition main_desktop :: "cap_world \<Rightarrow> cap_args \<Rightarrow> int cap" where
  "main_desktop w args = bindX (with_playwright w (desktop_session w args)) (\<lambda>r. case r of
     Inl n \<Rightarrow> retX n
   | Inr (available, unavailable, fingerprints, errors) \<Rightarrow>
       write_captures w args available unavailable fingerprints errors)"

subsection \<open>Fetching the page\<close>

text \<open>C25. Reading the page makes one to three attempts: the run visits the page, waits two seconds after the first
  failure and four after the second, stops at the first answer with status 200, and raises the failure of the third
  attempt when there is none.\<close>

theorem fetch_page_attempts:
  fixes w h url timeout
  defines "page \<equiv> Goto (url @ ''/api/all'') timeout"
  defines "good \<equiv> \<lambda>i. cw_goto w (length h + i) page = Inr (Some 200)"
  shows "fetch_page w lead url timeout h =
    (h @ take (if good 0 then 1 else if good 2 then 3 else 5) [page, SleepSeconds 2, page, SleepSeconds 4, page],
     if good 0 \<or> good 2 then Inr () else case cw_goto w (length h + 4) page of Inl e \<Rightarrow> Inl e
       | Inr r \<Rightarrow> if r = Some 200 then Inr () else Inl (status_error lead (url @ ''/api/all'') r))"
proof -
  have goto: "goto_page w lead (url @ ''/api/all'') timeout g = (g @ [page], case cw_goto w (length g) page of Inl e \<Rightarrow> Inl e
      | Inr r \<Rightarrow> if r = Some 200 then Inr () else Inl (status_error lead (url @ ''/api/all'') r))" for g
    by (simp add: goto_page_def answering_def page_def eff_defs split: sum.split)
  have three: "attempts w m 3 g = (case m g of (g1, Inr u) \<Rightarrow> (g1, Inr u) | (g1, Inl _) \<Rightarrow>
      (case m (g1 @ [SleepSeconds 2]) of (g2, Inr u) \<Rightarrow> (g2, Inr u) | (g2, Inl _) \<Rightarrow> m (g2 @ [SleepSeconds 4])))" for m g
    by (simp add: numeral_3_eq_3 eff_defs split: prod.split sum.split)
  show ?thesis
    unfolding fetch_page_def three goto good_def
    by (auto simp: numeral_eq_Suc split: sum.split if_splits)
qed

subsection \<open>Lemmas\<close>

lemma map_fst_sent_pairs: "map fst (sent_pairs hs) = ordered_names hs"
  by (induction hs rule: sent_pairs.induct) (simp_all add: Let_def)

lemma parse_frames_order: "fst (parse_frames fs) = first_header_frame fs"
proof (induction fs rule: parse_frames.induct)
  case (2 frame fs)
  then show ?case
    by (cases "dget frame ''headers''") (auto simp: Let_def map_fst_sent_pairs simp flip: map_fst_sent_pairs)
qed simp_all

lemma fst_set_dset: "fst ` set (dset d k v) = insert k (fst ` set d)"
  by (induction d k v rule: dset.induct) auto

lemma dkeys_dupdate_set: "fst ` set (dupdate d ps) = fst ` set d \<union> fst ` set ps"
  by (induction d ps rule: dupdate.induct) (auto simp: fst_set_dset)

lemma parse_frames_headers: "set (dkeys (snd (parse_frames fs))) = set (fst (parse_frames fs))"
proof (induction fs rule: parse_frames.induct)
  case (2 frame fs)
  then show ?case
    by (cases "dget frame ''headers''") (auto simp: Let_def dkeys_dupdate_set)
qed simp_all

text \<open>The order of headers is the one \<^verbatim>\<open>_extract_header_order\<close> of \<^verbatim>\<open>fingerprints.py\<close> finds.\<close>

lemma captured_order_agrees:
  assumes "dget_or raw ''http2'' (PDict []) = PDict http2" "dget_or http2 ''sent_frames'' (PList []) = PList frames"
  shows "captured_header_order (PDict raw) = extract_header_order raw"
  using assms by (simp add: captured_header_order_def parse_sent_headers_def extract_header_order_def parse_frames_order)

text \<open>The entries the script makes.\<close>

definition entry_keys :: "string list" where
  "entry_keys = [''name'', ''browser'', ''version'', ''ja3'', ''ja4_r'', ''http2'', ''ua'', ''header_order'', ''headers'']"

definition is_capture :: "kwargs \<Rightarrow> bool" where
  "is_capture e \<longleftrightarrow> dkeys e = entry_keys \<and> (\<exists>n. n \<noteq> [] \<and> map_of e ''name'' = Some (PStr n))"

lemma lower_not_Nil: "s \<noteq> [] \<Longrightarrow> lower s \<noteq> []"
  by (cases s) simp_all

lemma profile_name_not_Nil [simp]: "profile_name b v p \<noteq> []"
  unfolding profile_name_def by (rule lower_not_Nil) simp

lemma entry_of_page_is_capture:
  assumes "entry_of_page browser_of name_of data = Inr e" "\<And>b v u n. name_of b v u = Inr n \<Longrightarrow> n \<noteq> []"
  shows "is_capture e"
  using assms by (auto simp: entry_of_page_def capture_entry_def is_capture_def entry_keys_def Let_def)

lemma dkeys_dset_has: "k \<in> set (dkeys d) \<Longrightarrow> dkeys (dset d k v) = dkeys d"
  by (simp add: dkeys_dset)

lemma overrides_is_capture:
  assumes "is_capture fp" "apply_profile_overrides p fp b v = Inr fp'"
  shows "is_capture fp'"
proof (cases "b = [] \<and> v = []")
  case True
  with assms show ?thesis by (simp add: apply_profile_overrides_def)
next
  case False
  with assms(2) have "\<exists>x y a n u. fp' = dset (dset (dset fp ''browser'' x) ''version'' y) ''name'' (PStr (profile_name a n u))"
    by (simp add: apply_profile_overrides_def Let_def del: map_of_dset split: if_split_asm) blast+
  then obtain x y a n u where
    "fp' = dset (dset (dset fp ''browser'' x) ''version'' y) ''name'' (PStr (profile_name a n u))" by blast
  moreover have "dkeys fp = entry_keys" using assms(1) by (simp add: is_capture_def)
  ultimately show ?thesis
    by (simp add: is_capture_def dkeys_dset_has entry_keys_def)
qed

subsection \<open>Loading what was captured\<close>

definition normalized :: "kwargs \<Rightarrow> kwargs" where
  "normalized e = [(''name'', dget e ''name''), (''ja3'', dget e ''ja3''),
      (''ja4r'', py_or (dget e ''ja4_r'') (dget e ''ja4r'')),
      (''http2_fingerprint'', py_or (dget e ''http2'') (dget e ''http2_fingerprint'')),
      (''user_agent'', py_or (dget e ''ua'') (dget e ''user_agent'')),
      (''header_order'', dget e ''header_order''), (''headers'', dget e ''headers'')]"

text \<open>The profile of a captured entry. A missing JA4, HTTP/2 fingerprint or user agent is \<^verbatim>\<open>None\<close>.\<close>

definition captured_profile :: "kwargs \<Rightarrow> TLSFingerprint" where
  "captured_profile e = \<lparr>fp_name = dget e ''name'', fp_ja3 = dget e ''ja3'', fp_ja4r = py_or (dget e ''ja4_r'') PNone,
     fp_http2_fingerprint = py_or (dget e ''http2'') PNone, fp_quic_fingerprint = PNone,
     fp_user_agent = py_or (dget e ''ua'') PNone, fp_header_order = dget e ''header_order'', fp_headers = dget e ''headers'',
     fp_disable_grease = PBool False, fp_force_http1 = PBool False, fp_force_http3 = PBool False\<rparr>"

definition captured_profiles :: "kwargs list \<Rightarrow> TLSFingerprint list" where
  "captured_profiles es = map captured_profile (filter (\<lambda>e. py_truth (dget e ''ja3'')) es)"

lemma normalize_entries: "normalize_new_entries (map PDict es) = map normalized es"
  by (induction es) (simp_all add: normalized_def)

lemma capture_lacks: "is_capture e \<Longrightarrow> k \<notin> set entry_keys \<Longrightarrow> dget e k = PNone"
  unfolding is_capture_def by (metis dget_simps(1) map_of_eq_None_iff list.set_map)

lemma from_dict_normalized:
  assumes "is_capture e"
  shows "from_dict (normalized e) = Inr (captured_profile e)"
proof -
  have "dget e ''ja4r'' = PNone" "dget e ''http2_fingerprint'' = PNone" "dget e ''user_agent'' = PNone"
    using capture_lacks [OF assms] by (simp_all add: entry_keys_def)
  then show ?thesis
    by (simp add: from_dict_def captured_profile_def normalized_def getitem_def dget_def dget_or_def)
qed

lemma capture_name: "is_capture e \<Longrightarrow> py_truth (dget e ''name'') \<and> hashable (dget e ''name'')"
  by (auto simp: is_capture_def)

lemma normalized_keeps [simp]: "dget (normalized e) ''name'' = dget e ''name''" "dget (normalized e) ''ja3'' = dget e ''ja3''"
  by (simp_all add: normalized_def dget_def dget_or_def)

lemma load_captures:
  "\<forall>e\<in>set es. is_capture e \<Longrightarrow> load_trackme_entries r (map normalized es) =
    (dupdate r (map (\<lambda>p. (fp_name p, p)) (captured_profiles es)), Inr (captured_profiles es))"
proof (induction es arbitrary: r)
  case (Cons e es)
  then have "is_capture e" by simp
  have "fp_name (captured_profile e) = dget e ''name''" by (simp add: captured_profile_def)
  with Cons capture_name [OF \<open>is_capture e\<close>] show ?case
    by (simp add: from_dict_normalized [OF \<open>is_capture e\<close>] register_def captured_profiles_def)
qed (simp add: captured_profiles_def)

text \<open>\<open>file_ok d es n\<close>: the file \<open>d\<close> has the captures \<open>es\<close>, and errors if the exit code \<open>n\<close> says so.\<close>

definition file_ok :: "kwargs \<Rightarrow> kwargs list \<Rightarrow> int \<Rightarrow> bool" where
  "file_ok d es n \<longleftrightarrow> map_of d ''fingerprints'' = Some (PList (map PDict es)) \<and> (\<forall>e\<in>set es. is_capture e) \<and>
     n = (if dhas d ''errors'' then 1 else 0)"

lemma file_ok_loads:
  "file_ok d es n \<Longrightarrow> load_trackme_fingerprints r (Inr (PDict d)) False =
    (dupdate r (map (\<lambda>p. (fp_name p, p)) (captured_profiles es)), Inr (captured_profiles es), None)"
  by (simp add: file_ok_def load_trackme_fingerprints_def normalize_entries load_captures)

subsection \<open>The files a run writes\<close>

fun output_of :: "action \<Rightarrow> pyval option" where
  "output_of (WriteOutput p) = Some p"
| "output_of _ = None"

definition outputs :: "action list \<Rightarrow> pyval list" where
  "outputs h = List.map_filter output_of h"

lemma outputs_append [simp]: "outputs (h @ h') = outputs h @ outputs h'"
  by (simp add: outputs_def map_filter_def)

lemma outputs_Cons [simp]: "outputs (a # h) = (case output_of a of None \<Rightarrow> [] | Some p \<Rightarrow> [p]) @ outputs h"
  by (simp add: outputs_def map_filter_def split: option.split)

lemma outputs_Nil [simp]: "outputs [] = []"
  by (simp add: outputs_def map_filter_def)

definition no_output :: "action list \<Rightarrow> action list \<Rightarrow> bool" where
  "no_output h h' \<longleftrightarrow> outputs h' = outputs h"

interpretation silent: state_relation no_output
  by unfold_locales (simp_all add: no_output_def)

lemma silent_answering: "output_of a = None \<Longrightarrow> keeps no_output (answering f a)"
  by (simp add: keeps_def answering_def no_output_def)

lemma silent_ensuring: "keeps no_output m \<Longrightarrow> keeps no_output q \<Longrightarrow> keeps no_output (ensuring m q)"
  by (auto simp: keeps_def ensuring_def no_output_def split: prod.split sum.split) (metis fst_conv)+

lemma silent_wait: "keeps no_output (updX (\<lambda>h. h @ [SleepSeconds n]))"
  by (simp add: keeps_def no_output_def eff_defs)

lemmas silent_simple = silent.keeps_rules silent_answering silent_wait silent_ensuring

lemma silent_attempts: "keeps no_output m \<Longrightarrow> keeps no_output (attempts w m n)"
  by (induction w m n rule: attempts.induct) (auto intro!: silent_simple)

lemma silent_fetch: "keeps no_output (fetch_page w lead url timeout)"
  unfolding fetch_page_def goto_page_def by (intro silent_attempts silent_simple) simp_all

lemma silent_read: "output_of a = None \<Longrightarrow> keeps no_output (read_json w a)"
  unfolding read_json_def by (intro silent_simple)

lemma silent_capture: "keeps no_output (capture_fingerprint w t url b hc)"
  unfolding capture_fingerprint_def launch_def by (intro silent_simple silent_fetch silent_read) simp_all

lemma silent_discover: "keeps no_output (discover_targets w hc ts)"
  by (induction w hc ts rule: discover_targets.induct)
    (auto simp: launch_def intro!: silent_simple split: prod.split option.split)

lemma silent_overridden: "keeps no_output m \<Longrightarrow> keeps no_output (overridden w args m)"
  unfolding overridden_def by (intro silent_simple)

lemma silent_collect: "\<forall>p\<in>set ms. keeps no_output (snd p) \<Longrightarrow> keeps no_output (collect ms fps errs)"
  by (induction ms fps errs rule: collect.induct) (auto intro!: silent_simple split: sum.split)

lemma collect_returns:
  assumes "\<forall>p\<in>set ms. \<forall>g g' e. snd p g = (g', Inr e) \<longrightarrow> is_capture e" "\<forall>e\<in>set fps. is_capture e"
    and "collect ms fps errs h = (h', r)"
  shows "\<exists>fps' errs'. r = Inr (fps', errs') \<and> (\<forall>e\<in>set fps'. is_capture e) \<and>
    (errs' = [] \<longrightarrow> errs = [] \<and> length fps' = length fps + length ms)"
  using assms
proof (induction ms fps errs arbitrary: h rule: collect.induct)
  case (2 label m ms fps errs)
  obtain g x where m: "m h = (g, x)" by (cases "m h")
  show ?case
  proof (cases x)
    case (Inl e)
    with 2(5) m have "collect ms fps (dset errs label (exc_message e)) g = (h', r)" by (simp add: eff_defs)
    with 2 show ?thesis by (fastforce simp: dset_not_Nil)
  next
    case (Inr fp)
    with 2(5) m have c: "collect ms (fps @ [fp]) errs g = (h', r)" by (simp add: eff_defs)
    have "is_capture fp" using 2(3) m Inr by auto
    with 2(3,4) have "\<forall>p\<in>set ms. \<forall>g g' e. snd p g = (g', Inr e) \<longrightarrow> is_capture e" "\<forall>e\<in>set (fps @ [fp]). is_capture e"
      by auto
    from 2(2) [OF this c] show ?thesis by auto
  qed
qed (auto simp: eff_defs)

lemma write_payload_cases:
  assumes "write_payload w source fps extra errors h = (h', Inr n)"
  obtains now where "h' = h @ [UtcNow, WriteOutput (payload now source fps (extra @ entry_if ''errors'' errors))]"
    "n = (if errors \<noteq> [] then 1 else 0)"
  using assms by (auto simp: write_payload_def answering_def eff_defs split: sum.splits if_splits)

lemma payload_file:
  assumes "\<forall>e\<in>set fps. is_capture e" "map_of extra ''errors'' = None"
  obtains d where "payload now source fps (extra @ entry_if ''errors'' errors) = PDict d"
    "file_ok d fps (if errors \<noteq> [] then 1 else 0)"
  using assms by (auto simp: payload_def file_ok_def entry_if_def split: option.split)

lemma unavailable_not_errors [simp]: "map_of (entry_if ''unavailable_targets'' d) ''errors'' = None"
  by (simp add: entry_if_def)

text \<open>Every way of writing the result of a run.\<close>

lemma write_payload_file:
  assumes "write_payload w source fps extra errors h = (h', Inr n)" "\<forall>e\<in>set fps. is_capture e" "map_of extra ''errors'' = None"
  shows "\<exists>d. outputs h' = outputs h @ [PDict d] \<and> file_ok d fps n \<and> (n = 0 \<longrightarrow> errors = [])"
proof -
  from write_payload_cases [OF assms(1)] obtain now where
    w: "h' = h @ [UtcNow, WriteOutput (payload now source fps (extra @ entry_if ''errors'' errors))]"
    "n = (if errors \<noteq> [] then 1 else 0)" by blast
  from payload_file [OF assms(2,3), of now source errors] obtain d where
    "payload now source fps (extra @ entry_if ''errors'' errors) = PDict d" "file_ok d fps n" using w(2) by blast
  with w show ?thesis by auto
qed

lemma collected_file:
  assumes "collect ms [] errs g = (g1, Inr (fps, errors))" "write_payload w source fps [] errors h1 = (h', Inr n)"
    and "outputs h1 = outputs g1" "\<forall>p\<in>set ms. keeps no_output (snd p)"
    and "\<forall>p\<in>set ms. \<forall>g g' e. snd p g = (g', Inr e) \<longrightarrow> is_capture e"
  shows "\<exists>d. outputs h' = outputs g @ [PDict d] \<and> file_ok d fps n \<and> (n = 0 \<longrightarrow> length fps = length ms)"
proof -
  from collect_returns [OF assms(5) _ assms(1)] have "\<forall>e\<in>set fps. is_capture e" "errors = [] \<longrightarrow> length fps = length ms"
    by simp_all
  moreover have "outputs g1 = outputs g"
    using silent.keepsD [OF silent_collect [OF assms(4)] assms(1)] by (simp add: no_output_def)
  ultimately show ?thesis using write_payload_file [OF assms(2)] assms(3) by fastforce
qed

lemma no_targets_file:
  assumes "no_targets w args unavailable h = (h', Inr n)"
  shows "\<exists>d. outputs h' = outputs h @ [PDict d] \<and> file_ok d [] n \<and> n = 1"
  using assms by (auto simp: no_targets_def answering_def eff_defs payload_def file_ok_def split: sum.splits if_splits)

lemma liftX_result: "liftX r s = (s', x) \<Longrightarrow> x = r"
  by (simp add: liftX_def)

lemma capture_is_capture:
  assumes "capture_fingerprint w t url b hc g = (g', Inr e)"
  shows "is_capture e"
proof -
  from assms obtain data where "entry_of_page (\<lambda>_. Inr (tg_profile_browser t)) (own_name w) data = Inr e"
    by (auto simp: capture_fingerprint_def thenX_def dest!: liftX_result elim!: bindX_InrE)
  then show ?thesis by (rule entry_of_page_is_capture) (auto simp: own_name_def)
qed

lemma overridden_is_capture:
  assumes "overridden w args m g = (g', Inr e)" "\<And>g1 e1. m g = (g1, Inr e1) \<Longrightarrow> is_capture e1"
  shows "is_capture e"
proof -
  from assms(1) obtain g1 e1 where "m g = (g1, Inr e1)"
    "apply_profile_overrides (cw_sys_platform w) e1 (a_browser_override args) (a_version_override args) = Inr e"
    by (auto simp: overridden_def elim!: bindX_InrE dest: liftX_result)
  with assms(2) overrides_is_capture show ?thesis by blast
qed

lemma target_captures_ok:
  "\<forall>p\<in>set (target_captures w args ts). keeps no_output (snd p)"
  "\<forall>p\<in>set (target_captures w args ts). \<forall>g g' e. snd p g = (g', Inr e) \<longrightarrow> is_capture e"
  by (auto simp: target_captures_def silent_overridden silent_capture dest: overridden_is_capture capture_is_capture)

lemma with_playwright_InrE:
  assumes "with_playwright w m h = (h', Inr x)"
  obtains h1 where "m (h @ [StartPlaywright]) = (h1, Inr x)" "h' = h1 @ [StopPlaywright]"
  using assms
  by (auto simp: with_playwright_def thenX_def ensuring_def answering_def elim!: bindX_InrE split: prod.splits sum.splits)

text \<open>The block ends with a file written, or with captures and no file.\<close>

lemma desktop_session_cases:
  assumes "desktop_session w args h = (h', Inr r)"
  obtains (written) n d where "r = Inl n" "outputs h' = outputs h @ [PDict d]" "file_ok d [] n" "n = 0 \<longrightarrow> a_discover_only args"
  | (captured) available unavailable fps errs where "r = Inr (available, unavailable, fps, errs)" "outputs h' = outputs h"
      "\<forall>e\<in>set fps. is_capture e" "errs = [] \<longrightarrow> fps \<noteq> []"
proof -
  from assms obtain h1 available unavailable where
    disc: "discover_available_targets w (a_headless_chrome args) h = (h1, Inr (available, unavailable))"
    and body: "(if available = [] then bindX (no_targets w args unavailable) (\<lambda>n. retX (Inl n))
       else if a_discover_only args then bindX (write_discovery w args available unavailable) (\<lambda>n. retX (Inl n))
       else bindX (collect (target_captures w args available) [] (required_errors args available)) (\<lambda>(fingerprints, errors).
         retX (Inr (available, unavailable, fingerprints, errors)))) h1 = (h', Inr r)"
    by (auto simp: desktop_session_def elim!: bindX_InrE)
  have h1: "outputs h1 = outputs h"
    using silent.keepsD [OF silent_discover disc [unfolded discover_available_targets_def]] by (simp add: no_output_def)
  consider "available = []" | "available \<noteq> []" "a_discover_only args" | "available \<noteq> []" "\<not> a_discover_only args" by blast
  then show ?thesis
  proof cases
    case 1
    with body obtain k where "no_targets w args unavailable h1 = (h', Inr k)" "r = Inl k"
      by (auto simp: retX_def elim!: bindX_InrE)
    with no_targets_file h1 written show ?thesis by fastforce
  next
    case 2
    with body obtain k where "write_discovery w args available unavailable h1 = (h', Inr k)" "r = Inl k"
      by (auto simp: retX_def elim!: bindX_InrE)
    with write_payload_file [of w _ "[]" _ _ h1 h' k] h1 2 written show ?thesis
      by (fastforce simp: write_discovery_def)
  next
    case 3
    with body obtain fps errs where
      c: "collect (target_captures w args available) [] (required_errors args available) h1 = (h', Inr (fps, errs))"
      and r: "r = Inr (available, unavailable, fps, errs)"
      by (auto simp: retX_def elim!: bindX_InrE)
    from collect_returns [OF target_captures_ok(2) _ c] have "\<forall>e\<in>set fps. is_capture e"
      "errs = [] \<longrightarrow> length fps = length available" by (auto simp: target_captures_def)
    moreover have "outputs h' = outputs h1"
      using silent.keepsD [OF silent_collect [OF target_captures_ok(1)] c] by (simp add: no_output_def)
    ultimately show ?thesis using captured [OF r] h1 3(1) by (metis length_0_conv)
  qed
qed

lemma main_desktop_file:
  assumes "main_desktop w args h = (h', Inr n)"
  shows "\<exists>d es. outputs h' = outputs h @ [PDict d] \<and> file_ok d es n \<and> (n = 0 \<and> \<not> a_discover_only args \<longrightarrow> es \<noteq> [])"
proof -
  from assms obtain h1 r where run: "with_playwright w (desktop_session w args) h = (h1, Inr r)"
    and rest: "(case r of Inl n \<Rightarrow> retX n | Inr (available, unavailable, fingerprints, errors) \<Rightarrow>
       write_captures w args available unavailable fingerprints errors) h1 = (h', Inr n)"
    by (auto simp: main_desktop_def elim!: bindX_InrE)
  from with_playwright_InrE [OF run] obtain h2 where
    inner: "desktop_session w args (h @ [StartPlaywright]) = (h2, Inr r)" and h1: "h1 = h2 @ [StopPlaywright]" by blast
  from inner show ?thesis
  proof (cases rule: desktop_session_cases)
    case written
    with rest h1 show ?thesis by (auto simp: retX_def)
  next
    case (captured available unavailable fps errs)
    with write_payload_file [OF rest [unfolded captured(1) sum.case prod.case write_captures_def]] h1 show ?thesis
      by fastforce
  qed
qed

subsection \<open>Names that say less than they should\<close>

text \<open>Opera has no pattern for its version: every capture of it is named \<^verbatim>\<open>opera_unknown\<close>.\<close>

theorem opera_version_unknown:
  "extract_browser_version ''opera'' ua = Inr ''unknown''"
  by (simp add: extract_browser_version_def version_tokens_def)

text \<open>The headers made at request time are removed from a capture, a cookie is not.\<close>

theorem sanitize_keeps_cookie:
  "sanitize_header_values [(''user-agent'', u), (''cookie'', c), (''accept'', a)] = [(''cookie'', c), (''accept'', a)]"
  by (simp add: sanitize_header_values_def)

subsection \<open>An example\<close>

text \<open>A machine with one browser.\<close>

definition one_browser :: cap_world where
  "one_browser = \<lparr>cw_sys_platform = ''linux'', cw_env = (\<lambda>_. None), cw_browser_type = (\<lambda>t. t = ''chromium''),
     cw_selenium = False,
     cw_do = (\<lambda>_ a. case a of Launch _ (Some _) _ \<Rightarrow> Inl (Exc RuntimeError ''not installed'') | _ \<Rightarrow> Inr ()),
     cw_goto = (\<lambda>_ _. Inr (Some 200)), cw_text = (\<lambda>_ _. Inr ''text''), cw_count = (\<lambda>_ _. Inr 0),
     cw_run = (\<lambda>_ _. Inr (0, [], [])),
     cw_loads = (\<lambda>_. Inr (PDict [(''tls'', PDict [(''ja3'', PStr ''771'')])])),
     cw_xml_nodes = (\<lambda>_. None), cw_elapsed = (\<lambda>_. 1)\<rparr>"

definition plain_args :: cap_args where
  "plain_args = \<lparr>a_url = ''u'', a_android_only = False, a_discover_only = False, a_require_browsers = [],
     a_ignore_https_errors = True, a_headless_chrome = True, a_adb_serial = [], a_cdp_url = [], a_selenium_url = [],
     a_selenium_browser = [], a_browser_override = [], a_version_override = []\<rparr>"


definition chromium_target :: target where
  "chromium_target = \<lparr>tg_type = ''chromium'', tg_channel = None, tg_profile_browser = ''chromium'', tg_label = ''chromium''\<rparr>"

definition one_entry :: kwargs where
  "one_entry = [(''name'', PStr ''chromium_unknown_linux''), (''browser'', PStr ''chromium''), (''version'', PStr ''unknown''),
     (''ja3'', PStr ''771''), (''ja4_r'', PNone), (''http2'', PNone), (''ua'', PStr []), (''header_order'', PList []),
     (''headers'', PDict [])]"

lemma one_browser_entry:
  "entry_of_page (\<lambda>_. Inr ''chromium'') (own_name one_browser) (PDict [(''tls'', PDict [(''ja3'', PStr ''771'')])]) = Inr one_entry"
  by code_simp

lemma one_browser_fetch:
  "fetch_page one_browser lead url timeout h = (h @ [Goto (url @ ''/api/all'') timeout], Inr ())"
  by (simp add: fetch_page_attempts one_browser_def)

lemma one_browser_acts [simp]:
  "cw_do one_browser n (Launch t None b) = Inr ()" "cw_do one_browser n CloseBrowser = Inr ()" "cw_do one_browser n NewPage = Inr ()"
  "cw_do one_browser n (NewContext b l) = Inr ()" "cw_do one_browser n StartPlaywright = Inr ()"
  "cw_do one_browser n StopPlaywright = Inr ()" "cw_do one_browser n (WriteOutput p) = Inr ()"
  "cw_text one_browser n a = Inr ''text''" "cw_loads one_browser s = Inr (PDict [(''tls'', PDict [(''ja3'', PStr ''771'')])])"
  by (simp_all add: one_browser_def)

lemma one_browser_capture:
  "\<exists>h'. capture_fingerprint one_browser chromium_target url b hc h = (h', Inr one_entry)"
  using one_browser_entry
  by (simp add: capture_fingerprint_def chromium_target_def launch_def read_json_def answering_def one_browser_fetch eff_defs)

lemma one_browser_targets:
  "\<exists>h' un. discover_available_targets one_browser True h = (h', Inr ([chromium_target], un))"
  by (simp add: discover_available_targets_def candidate_targets_def launch_def answering_def chromium_target_def
    one_browser_def isinstance_Exception eff_defs)

lemma one_browser_run: "\<exists>h'. main_desktop one_browser plain_args h = (h', Inr 0)"
proof -
  obtain h1 un where 1: "discover_available_targets one_browser True (h @ [StartPlaywright]) = (h1, Inr ([chromium_target], un))"
    using one_browser_targets by blast
  obtain h2 where 2: "capture_fingerprint one_browser chromium_target ''u'' True True h1 = (h2, Inr one_entry)"
    using one_browser_capture by blast
  have "required_errors plain_args [chromium_target] = []" by code_simp
  with 1 2 show ?thesis
    by (simp add: main_desktop_def with_playwright_def ensuring_def desktop_session_def target_captures_def overridden_def
      apply_profile_overrides_def plain_args_def write_captures_def write_payload_def answering_def chromium_target_def eff_defs)
qed

end
