(* ===== verification/Android.thy ===== *)
theory Android
  imports Capture "HOL-Library.Product_Lexorder"
begin

section \<open>Capturing from Android devices (\<^verbatim>\<open>scripts/capture_browser_fingerprints.py\<close>)\<close>

text \<open>
  Chrome on a device is driven with \<^verbatim>\<open>adb\<close> commands and then over the DevTools protocol. A command is its words; its
  time limit and whether its output is captured are not part of the model, and what running it may raise is in
  \<^verbatim>\<open>cw_run\<close>. The clock is \<open>clock\<close>: it advances by what the run slept and by the time every action takes, so that the
  loops that wait for a deadline end. Times are milliseconds. The dump of the screen is parsed by an XML parser that
  is a field of the model; \<open>button\<close> is what the script keeps of a node it may tap.
\<close>

subsection \<open>Words and lines\<close>




text \<open>\<^verbatim>\<open>shlex.split\<close>: the words of a command line with quotes and backslashes. The word in progress is \<open>None\<close> between
  words.\<close>

definition extend :: "string option \<Rightarrow> char \<Rightarrow> string option" where
  "extend word c = Some ((case word of None \<Rightarrow> [] | Some w \<Rightarrow> w) @ [c])"

definition started :: "string option \<Rightarrow> string option" where
  "started word = Some (case word of None \<Rightarrow> [] | Some w \<Rightarrow> w)"

definition is_quote :: "char \<Rightarrow> bool" where
  "is_quote c = (of_char c = (34 :: nat) \<or> of_char c = (39 :: nat))"

definition is_backslash :: "char \<Rightarrow> bool" where
  "is_backslash c = (of_char c = (92 :: nat))"

definition shlex_space :: "char \<Rightarrow> bool" where
  "shlex_space c = (let n = of_char c :: nat in n = 32 \<or> n = 9 \<or> n = 13 \<or> n = 10)"

datatype shlex_state = Outside | Quoted char | Escaping | EscapingQuoted char

definition shlex_error :: "string \<Rightarrow> pyexc" where
  "shlex_error msg = Exc ValueError msg"

fun shlex_from :: "shlex_state \<Rightarrow> string option \<Rightarrow> string \<Rightarrow> string list res" where
  "shlex_from Outside word [] = Inr (case word of None \<Rightarrow> [] | Some w \<Rightarrow> [w])"
| "shlex_from (Quoted q) word [] = Inl (shlex_error ''No closing quotation'')"
| "shlex_from Escaping word [] = Inl (shlex_error ''No escaped character'')"
| "shlex_from (EscapingQuoted q) word [] = Inl (shlex_error ''No escaped character'')"
| "shlex_from Outside word (c # s) =
     (if shlex_space c then (case word of None \<Rightarrow> shlex_from Outside None s
        | Some w \<Rightarrow> bindE (shlex_from Outside None s) (\<lambda>ws. Inr (w # ws)))
      else if is_quote c then shlex_from (Quoted c) (started word) s
      else if is_backslash c then shlex_from Escaping (started word) s
      else shlex_from Outside (extend word c) s)"
| "shlex_from (Quoted q) word (c # s) =
     (if c = q then shlex_from Outside word s
      else if is_backslash c \<and> of_char q = (34 :: nat) then shlex_from (EscapingQuoted q) word s
      else shlex_from (Quoted q) (extend word c) s)"
| "shlex_from Escaping word (c # s) = shlex_from Outside (extend word c) s"
| "shlex_from (EscapingQuoted q) word (c # s) =
     (if c = q \<or> is_backslash c then shlex_from (Quoted q) (extend word c) s
      else shlex_from (Quoted q) (extend (extend word (char_of (92 :: nat))) c) s)"

definition shlex_split :: "string \<Rightarrow> string list res" where
  "shlex_split s = shlex_from Outside None s"

subsection \<open>Commands\<close>

definition adb_base_command :: "cap_world \<Rightarrow> string list res" where
  "adb_base_command w = (case cw_env w ''ADB_BIN'' of
     Some override \<Rightarrow> if override \<noteq> [] then shlex_split override else Inr [''adb'']
   | None \<Rightarrow> Inr [''adb''])"

definition adb_command :: "cap_world \<Rightarrow> string list \<Rightarrow> string list res" where
  "adb_command w args = bindE (adb_base_command w) (\<lambda>base. Inr (base @ args))"

text \<open>\<^verbatim>\<open>subprocess.run\<close>, and with \<^verbatim>\<open>check=True\<close>, whose exception is no subclass of the others the script tests for
  (its text is another one for a command that was ended by a signal).\<close>

definition run_command :: "cap_world \<Rightarrow> string list \<Rightarrow> (int \<times> string \<times> string) cap" where
  "run_command w cmd = answering (cw_run w) (Run cmd)"


definition adb :: "cap_world \<Rightarrow> string list \<Rightarrow> (int \<times> string \<times> string) cap" where
  "adb w args = bindX (liftX (adb_command w args)) (run_command w)"










definition log_chrome_sockets :: "cap_world \<Rightarrow> string \<Rightarrow> unit cap" where
  "log_chrome_sockets w serial = bindX (adb w [''-s'', serial, ''shell'', ''cat'', ''/proc/net/unix'']) (\<lambda>_. retX ())"

subsection \<open>The first-run dialog\<close>

definition exact_targets :: "string list" where
  "exact_targets = [''use without an account'', ''continue without an account'', ''no thanks'', ''accept & continue'',
     ''accept and continue'', ''accept'', ''continue'', ''next'', ''yes, i'' @ [char_of (39 :: nat)] @ ''m in'', ''got it'']"

definition keyword_targets :: "string list" where
  "keyword_targets = [''without an account'', ''no thanks'', ''accept'', ''continue'', ''next'', ''got it'']"

text \<open>The regular expression of the bounds, \<^verbatim>\<open>[x1,y1][x2,y2]\<close> at the beginning of the text.\<close>

fun expect :: "char \<Rightarrow> string option \<Rightarrow> string option" where
  "expect c (Some (d # s)) = (if d = c then Some s else None)"
| "expect c _ = None"

fun read_number :: "string option \<Rightarrow> (nat \<times> string) option" where
  "read_number (Some s) = (if takeWhile is_digit s = [] then None
     else Some (nat_of_digits (takeWhile is_digit s), dropWhile is_digit s))"
| "read_number None = None"

definition read_pair :: "string option \<Rightarrow> ((nat \<times> nat) \<times> string) option" where
  "read_pair s = (case read_number (expect (CHR ''['') s) of None \<Rightarrow> None
     | Some (a, s1) \<Rightarrow> (case read_number (expect (CHR '','') (Some s1)) of None \<Rightarrow> None
       | Some (b, s2) \<Rightarrow> map_option (\<lambda>s3. ((a, b), s3)) (expect (CHR '']'') (Some s2))))"

definition match_bounds :: "string \<Rightarrow> (nat \<times> nat \<times> nat \<times> nat) option" where
  "match_bounds s = (case read_pair (Some s) of None \<Rightarrow> None
     | Some ((x1, y1), s1) \<Rightarrow> map_option (\<lambda>((x2, y2), _). (x1, y1, x2, y2)) (read_pair (Some s1)))"

record button =
  bt_score :: nat
  bt_text :: string
  bt_x :: nat
  bt_y :: nat

definition attr :: "(string, string) dict \<Rightarrow> string \<Rightarrow> string" where
  "attr node k = dget_or node k []"

definition label_text :: "(string, string) dict \<Rightarrow> string" where
  "label_text node = (let text = lower (strip (attr node ''text'')) in
     if text \<noteq> [] then text else lower (strip (attr node ''content-desc'')))"

definition label_score :: "string \<Rightarrow> nat option" where
  "label_score label = (if label \<in> set exact_targets then Some 100
     else if list_ex (contains label) keyword_targets then Some 50 else None)"

definition actionable :: "(string, string) dict \<Rightarrow> button option" where
  "actionable node = (let label = label_text node in
     if label = [] \<or> length label > 40 \<or> attr node ''clickable'' \<noteq> ''true'' \<or> attr node ''enabled'' \<noteq> ''true'' then None
     else case label_score label of None \<Rightarrow> None
       | Some score \<Rightarrow> map_option (\<lambda>(x1, y1, x2, y2). \<lparr>bt_score = score, bt_text = label, bt_x = (x1 + x2) div 2,
             bt_y = (y1 + y2) div 2\<rparr>) (match_bounds (attr node ''bounds'')))"

definition button_key :: "button \<Rightarrow> int \<times> nat \<times> nat" where
  "button_key b = (- int (bt_score b), bt_y b, bt_x b)"

definition fre_choice :: "(string, string) dict list \<Rightarrow> button option" where
  "fre_choice nodes = (case sort_key button_key (List.map_filter actionable nodes) of [] \<Rightarrow> None | b # _ \<Rightarrow> Some b)"

definition dismiss_chrome_fre_ui :: "cap_world \<Rightarrow> string \<Rightarrow> bool cap" where
  "dismiss_chrome_fre_ui w serial =
     bindX (adb w [''-s'', serial, ''shell'', ''uiautomator'', ''dump'', ''/data/local/tmp/ui_dump.xml'']) (\<lambda>(code, _).
       if code \<noteq> 0 then retX False
       else bindX (adb w [''-s'', serial, ''shell'', ''cat'', ''/data/local/tmp/ui_dump.xml'']) (\<lambda>(_, stdout, _).
         let xml_text = strip stdout in
         if xml_text = [] then retX False
         else case cw_xml_nodes w xml_text of None \<Rightarrow> retX False
         | Some nodes \<Rightarrow> (case fre_choice nodes of
             Some b \<Rightarrow> bindX (adb w [''-s'', serial, ''shell'', ''input'', ''tap'', nat_str (bt_x b), nat_str (bt_y b)])
               (\<lambda>_. retX True)
           | None \<Rightarrow> if contains (lower xml_text) ''https://policies.google.com/'' \<or>
                 contains (lower xml_text) ''google terms of service''
               then bindX (adb w [''-s'', serial, ''shell'', ''input'', ''keyevent'', ''4'']) (\<lambda>_. retX True)
               else retX False)))"

subsection \<open>Waiting for the browser\<close>

fun slept :: "action \<Rightarrow> nat" where
  "slept (SleepSeconds n) = 1000 * n"
| "slept _ = 0"

definition clock :: "cap_world \<Rightarrow> action list \<Rightarrow> nat" where
  "clock w h = sum_list (map slept h) + sum_list (map (cw_elapsed w) [0..<length h])"


lemma clock_sleep: "clock w h + 1000 * n \<le> clock w (h @ [a, SleepSeconds n])"
  "clock w h + 1000 * n \<le> clock w (h @ [SleepSeconds n])"
  by (simp_all add: clock_def)

text \<open>\<^verbatim>\<open>f"{seconds:.0f}"\<close> rounds half to even.\<close>

definition whole_seconds :: "nat \<Rightarrow> string" where
  "whole_seconds ms = nat_str (if ms mod 1000 > 500 \<or> (ms mod 1000 = 500 \<and> odd (ms div 1000))
     then Suc (ms div 1000) else ms div 1000)"

definition cdp_endpoint :: "int \<Rightarrow> string" where
  "cdp_endpoint port = ''http://localhost:'' @ int_str port @ ''/json''"

definition no_endpoint :: "int \<Rightarrow> nat \<Rightarrow> pyexc" where
  "no_endpoint port timeout = Exc RuntimeError (''Chrome CDP endpoint '' @ cdp_endpoint port @
     '' did not respond within '' @ whole_seconds timeout @ ''s'')"

function probe_until :: "cap_world \<Rightarrow> int \<Rightarrow> nat \<Rightarrow> nat \<Rightarrow> unit cap" where
  "probe_until w port timeout deadline h = (if clock w h < deadline
     then (case cw_do w (length h) (Probe (cdp_endpoint port)) of
       Inr _ \<Rightarrow> (h @ [Probe (cdp_endpoint port)], Inr ())
     | Inl _ \<Rightarrow> probe_until w port timeout deadline (h @ [Probe (cdp_endpoint port), SleepSeconds 1]))
     else (h, Inl (no_endpoint port timeout)))"
  by pat_completeness auto
termination
proof (relation "measure (\<lambda>(w, port, timeout, deadline, h). deadline - clock w h)")
  fix w :: cap_world and port :: int and timeout deadline h e
  assume "clock w h < deadline"
  with clock_sleep(1) [of w h 1 "Probe (cdp_endpoint port)"]
  show "((w, port, timeout, deadline, h @ [Probe (cdp_endpoint port), SleepSeconds 1]), w, port, timeout, deadline, h)
      \<in> measure (\<lambda>(w, port, timeout, deadline, h). deadline - clock w h)" by simp
qed simp

definition wait_for_cdp :: "cap_world \<Rightarrow> int \<Rightarrow> nat \<Rightarrow> unit cap" where
  "wait_for_cdp w port timeout = (\<lambda>h. probe_until w port timeout (clock w h + timeout) h)"

declare probe_until.simps [simp del]

text \<open>Histories only grow; the clock does not go back.\<close>

definition grows :: "action list \<Rightarrow> action list \<Rightarrow> bool" where
  "grows h h' \<longleftrightarrow> (\<exists>t. h' = h @ t)"

interpretation growing: state_relation grows
  by unfold_locales (auto simp: grows_def)


lemma grows_answering: "keeps grows (answering f a)"
  by (simp add: keeps_def answering_def grows_def)

lemma grows_sleep: "keeps grows (updX (\<lambda>h. h @ [a]))"
  by (simp add: keeps_def grows_def eff_defs)

lemmas grows_simple = growing.keeps_rules grows_answering grows_sleep

lemma grows_adb: "keeps grows (adb w args)"
  unfolding adb_def run_command_def by (intro grows_simple)



lemma grows_case_prod: "(\<And>a b. keeps grows (f a b)) \<Longrightarrow> keeps grows (case p of (a, b) \<Rightarrow> f a b)"
  by (cases p) simp

lemma grows_dismiss: "keeps grows (dismiss_chrome_fre_ui w serial)"
  unfolding dismiss_chrome_fre_ui_def Let_def by (intro grows_simple grows_adb grows_case_prod)

lemma grows_log: "keeps grows (log_chrome_sockets w serial)"
  unfolding log_chrome_sockets_def by (intro grows_simple grows_adb)

definition try_dismiss :: "cap_world \<Rightarrow> string \<Rightarrow> unit cap" where
  "try_dismiss w serial = thenX (dismiss_chrome_fre_ui w serial) (thenX (log_chrome_sockets w serial)
     (updX (\<lambda>h. h @ [SleepSeconds 2])))"

lemma grows_try_dismiss: "keeps grows (try_dismiss w serial)"
  unfolding try_dismiss_def by (intro grows_simple grows_dismiss grows_log)






subsection \<open>One device\<close>
















subsection \<open>Runs of the script\<close>




subsection \<open>The files a run writes\<close>



























subsection \<open>The button that is tapped\<close>

text \<open>The script taps the best of the nodes it may tap: none has a higher score, and among those of the same score none
  is higher on the screen, or as high and further left; it taps nothing only if there is no such node.\<close>

theorem fre_choice_best:
  "case fre_choice nodes of None \<Rightarrow> \<forall>node\<in>set nodes. actionable node = None
   | Some b \<Rightarrow> (\<exists>node\<in>set nodes. actionable node = Some b) \<and>
       (\<forall>node\<in>set nodes. \<forall>c. actionable node = Some c \<longrightarrow> bt_score c < bt_score b \<or>
         (bt_score c = bt_score b \<and> (bt_y b < bt_y c \<or> (bt_y b = bt_y c \<and> bt_x b \<le> bt_x c))))"
proof -
  let ?bs = "List.map_filter actionable nodes"
  have set: "set ?bs = {b. \<exists>node\<in>set nodes. actionable node = Some b}"
    by (induction nodes) (auto simp: List.map_filter_simps split: option.splits)
  show ?thesis
  proof (cases "sort_key button_key ?bs")
    case Nil
    then have "set ?bs = {}" by (metis set_sort list.set(1))
    then have "\<forall>node\<in>set nodes. actionable node = None" unfolding set by (metis (mono_tags, lifting) empty_Collect_eq not_None_eq)
    with Nil show ?thesis by (simp add: fre_choice_def)
  next
    case (Cons b bs)
    have "sorted (map button_key (sort_key button_key ?bs))" by simp
    with Cons have "\<forall>c\<in>set (sort_key button_key ?bs). button_key b \<le> button_key c" by auto
    then have least: "\<forall>c\<in>set ?bs. button_key b \<le> button_key c" by simp
    have "b \<in> set ?bs" using Cons by (metis list.set_intros(1) set_sort)
    with least Cons show ?thesis
      unfolding set by (auto simp: fre_choice_def button_key_def less_eq_prod_def less_prod_def)
  qed
qed

subsection \<open>The wait for the browser\<close>

definition probes :: "action list \<Rightarrow> nat" where
  "probes h = length (filter (\<lambda>a. \<exists>u. a = Probe u) h)"

lemma probes_append [simp]: "probes (h @ h') = probes h + probes h'"
  by (simp add: probes_def)

lemma probes_one [simp]: "probes [Probe u] = 1" "probes [Probe u, SleepSeconds n] = 1"
  by (simp_all add: probes_def)

text \<open>The history after \<open>n\<close> probes that failed, each followed by its sleep.\<close>

definition failed_probes :: "int \<Rightarrow> nat \<Rightarrow> action list" where
  "failed_probes port n = concat (replicate n [Probe (cdp_endpoint port), SleepSeconds 1])"

lemma failed_probes_simps [simp]:
  "failed_probes port 0 = []"
  "failed_probes port (Suc n) = [Probe (cdp_endpoint port), SleepSeconds 1] @ failed_probes port n"
  by (simp_all add: failed_probes_def)

lemma probes_failed [simp]: "probes (failed_probes port n) = n"
  by (induction n) (simp_all add: probes_def)

text \<open>The run of the loop, probe by probe.\<close>

lemma probe_until_run:
  "\<exists>n. (\<forall>k < n. clock w (h @ failed_probes port k) < deadline \<and>
       (\<exists>e. cw_do w (length (h @ failed_probes port k)) (Probe (cdp_endpoint port)) = Inl e)) \<and>
    ((clock w (h @ failed_probes port n) < deadline \<and>
        cw_do w (length (h @ failed_probes port n)) (Probe (cdp_endpoint port)) = Inr () \<and>
        probe_until w port timeout deadline h = (h @ failed_probes port n @ [Probe (cdp_endpoint port)], Inr ())) \<or>
     (deadline \<le> clock w (h @ failed_probes port n) \<and>
        probe_until w port timeout deadline h = (h @ failed_probes port n, Inl (no_endpoint port timeout))))"
  (is "\<exists>n. ?run h n")
proof (induction w port timeout deadline h rule: probe_until.induct)
  case (1 w port timeout deadline h)
  let ?a = "Probe (cdp_endpoint port)"
  let ?run = "\<lambda>h n. (\<forall>k < n. clock w (h @ failed_probes port k) < deadline \<and>
       (\<exists>e. cw_do w (length (h @ failed_probes port k)) ?a = Inl e)) \<and>
    ((clock w (h @ failed_probes port n) < deadline \<and> cw_do w (length (h @ failed_probes port n)) ?a = Inr () \<and>
        probe_until w port timeout deadline h = (h @ failed_probes port n @ [?a], Inr ())) \<or>
     (deadline \<le> clock w (h @ failed_probes port n) \<and>
        probe_until w port timeout deadline h = (h @ failed_probes port n, Inl (no_endpoint port timeout))))"
  note step = probe_until.simps [of w port timeout deadline h]
  show ?case
  proof (cases "clock w h < deadline")
    case False
    then have "?run h 0" by (simp add: step)
    then show ?thesis by (rule exI)
  next
    case True
    show ?thesis
    proof (cases "cw_do w (length h) ?a")
      case (Inr u)
      then have "?run h 0" using True by (simp add: step)
      then show ?thesis by (rule exI)
    next
      case (Inl e)
      with "1.IH" [OF True Inl] obtain n where ih: "?run (h @ [?a, SleepSeconds 1]) n" by blast
      have next_probe: "probe_until w port timeout deadline h = probe_until w port timeout deadline (h @ [?a, SleepSeconds 1])"
        using True Inl by (simp add: step)
      from ih have "?run h (Suc n)" using True Inl unfolding next_probe All_less_Suc2 by simp
      then show ?thesis by (rule exI)
    qed
  qed
qed

text \<open>The probes are a second apart, so the deadline bounds their number.\<close>

lemma failed_probes_clock: "clock w h + 1000 * n \<le> clock w (h @ failed_probes port n)"
proof (induction n arbitrary: h)
  case (Suc n)
  from Suc [of "h @ [Probe (cdp_endpoint port), SleepSeconds 1]"] clock_sleep(1) [of w h 1 "Probe (cdp_endpoint port)"]
  show ?case by simp
qed simp

text \<open>C24. \<^verbatim>\<open>_wait_for_cdp\<close> ends for every browser and every clock that does not go back and that a sleep of a second
  advances by a second. There is a number \<open>n\<close> of probes, each made before the deadline, that were not answered and
  each followed by a sleep of one second; after them the function either makes one more probe before the deadline, which is
  answered, and returns, or finds the deadline passed and raises the error of the time-out without another probe. So it
  never returns without an answer and never raises early; and it makes at most one probe for every second of the time-out or part of one.\<close>

theorem wait_for_cdp_bounded:
  "\<exists>n. (\<forall>k < n. clock w (h @ failed_probes port k) < clock w h + timeout \<and>
       (\<exists>e. cw_do w (length (h @ failed_probes port k)) (Probe (cdp_endpoint port)) = Inl e)) \<and>
    ((clock w (h @ failed_probes port n) < clock w h + timeout \<and>
        cw_do w (length (h @ failed_probes port n)) (Probe (cdp_endpoint port)) = Inr () \<and>
        wait_for_cdp w port timeout h = (h @ failed_probes port n @ [Probe (cdp_endpoint port)], Inr ())) \<or>
     (clock w h + timeout \<le> clock w (h @ failed_probes port n) \<and>
        wait_for_cdp w port timeout h = (h @ failed_probes port n, Inl (no_endpoint port timeout)))) \<and>
    probes (fst (wait_for_cdp w port timeout h)) \<le> probes h + (timeout + 999) div 1000"
proof -
  obtain n where run: "\<forall>k < n. clock w (h @ failed_probes port k) < clock w h + timeout \<and>
       (\<exists>e. cw_do w (length (h @ failed_probes port k)) (Probe (cdp_endpoint port)) = Inl e)"
    "(clock w (h @ failed_probes port n) < clock w h + timeout \<and>
        cw_do w (length (h @ failed_probes port n)) (Probe (cdp_endpoint port)) = Inr () \<and>
        wait_for_cdp w port timeout h = (h @ failed_probes port n @ [Probe (cdp_endpoint port)], Inr ())) \<or>
     (clock w h + timeout \<le> clock w (h @ failed_probes port n) \<and>
        wait_for_cdp w port timeout h = (h @ failed_probes port n, Inl (no_endpoint port timeout)))"
    using probe_until_run [of w h port "clock w h + timeout" timeout] unfolding wait_for_cdp_def by blast
  have "1000 * k < timeout" if "clock w (h @ failed_probes port k) < clock w h + timeout" for k
    using that failed_probes_clock [of w h k port] by linarith
  moreover have "1000 * k < timeout \<Longrightarrow> Suc k \<le> (timeout + 999) div 1000" for k by linarith
  ultimately have early: "\<And>k. clock w (h @ failed_probes port k) < clock w h + timeout \<Longrightarrow> Suc k \<le> (timeout + 999) div 1000" by blast
  have "probes (fst (wait_for_cdp w port timeout h)) \<le> probes h + (timeout + 999) div 1000"
    using run(2)
  proof (elim disjE conjE)
    assume "clock w (h @ failed_probes port n) < clock w h + timeout"
      "wait_for_cdp w port timeout h = (h @ failed_probes port n @ [Probe (cdp_endpoint port)], Inr ())"
    then show ?thesis using early [of n] by simp
  next
    assume "wait_for_cdp w port timeout h = (h @ failed_probes port n, Inl (no_endpoint port timeout))"
    moreover have "n \<le> (timeout + 999) div 1000" using run(1) early [of "n - 1"] by (cases n) auto
    ultimately show ?thesis by simp
  qed
  with run show ?thesis by blast
qed

theorem wait_for_cdp_bounded_witness:
  "probes (fst (wait_for_cdp one_browser 9222 5000 [])) \<le> 5"
  using wait_for_cdp_bounded [of one_browser "[]" 9222 5000] by (auto simp: probes_def)

end
