(* ===== verification/Maintenance.thy ===== *)
theory Maintenance
  imports Schema Urls
begin

section \<open>The scripts that prepare a release (\<^verbatim>\<open>scripts/\<close>)\<close>

text \<open>
  \<^verbatim>\<open>backfill_headers.py\<close> copies captured headers into the registry of profiles; \<^verbatim>\<open>prepare_changelog.py\<close> makes the
  section of a new version in \<^verbatim>\<open>CHANGELOG.md\<close> and \<^verbatim>\<open>release_notes.py\<close> reads it; \<^verbatim>\<open>generate_pep503_index.py\<close> writes the
  pages of a package index. A JSON file is the value it holds, a text file the list of its lines, each with its line end.
  Messages on the terminal and the command line are left out. \<^verbatim>\<open>git\<close>, the date and the package \<^verbatim>\<open>packaging\<close>, which
  compares versions, are arguments.
\<close>

subsection \<open>Backfilling headers (\<^verbatim>\<open>backfill_headers.py\<close>)\<close>

text \<open>\<^verbatim>\<open>s.rsplit(sep, 1)\<close> when the separator occurs.\<close>

definition rsplit_last :: "char \<Rightarrow> string \<Rightarrow> (string \<times> string) option" where
  "rsplit_last c s = (if c \<in> set s then
     Some (rev (drop 1 (dropWhile (\<lambda>d. d \<noteq> c) (rev s))), rev (takeWhile (\<lambda>d. d \<noteq> c) (rev s))) else None)"

definition base_name :: "string \<Rightarrow> string" where
  "base_name name = (case rsplit_last (CHR ''_'') name of
     Some (lead, platform) \<Rightarrow>
       if CHR ''_'' \<in> set lead \<and> platform \<in> set [''linux'', ''mac'', ''win'', ''android'', ''windows''] then lead else name
   | None \<Rightarrow> name)"

definition has_headers :: "kwargs \<Rightarrow> bool" where
  "has_headers entry = (case map_of entry ''headers'' of Some (PDict _) \<Rightarrow> True | _ \<Rightarrow> False)"

definition has_header_order :: "kwargs \<Rightarrow> bool" where
  "has_header_order entry = (case map_of entry ''header_order'' of Some (PList _) \<Rightarrow> True | _ \<Rightarrow> False)"

text \<open>What the inner loop does to one entry: the entry it leaves and its name if it was updated.\<close>

definition fill_entry :: "bool \<Rightarrow> kwargs \<Rightarrow> pyval \<Rightarrow> kwargs \<Rightarrow> kwargs" where
  "fill_entry force headers header_order entry =
    (let e = (if \<not> has_headers entry then dset entry ''headers'' (PDict headers) else entry)
     in if force \<or> \<not> has_header_order e then dset e ''header_order'' header_order else e)"

fun backfill_entry :: "bool \<Rightarrow> string \<Rightarrow> kwargs \<Rightarrow> pyval \<Rightarrow> pyval \<Rightarrow> (pyval \<times> string option) res" where
  "backfill_entry force base headers header_order (PDict entry) = (case dget_or entry ''name'' (PStr []) of
     PStr entry_name \<Rightarrow> Inr (if \<not> startswith entry_name (base @ ''_'') \<or> (has_headers entry \<and> \<not> force)
       then (PDict entry, None) else (PDict (fill_entry force headers header_order entry), Some entry_name))
   | _ \<Rightarrow> Inl (no_attribute ''startswith''))"
| "backfill_entry _ _ _ _ _ = Inl (no_attribute ''get'')"

fun backfill_entries :: "bool \<Rightarrow> string \<Rightarrow> kwargs \<Rightarrow> pyval \<Rightarrow> pyval list \<Rightarrow> (pyval list \<times> string list) res" where
  "backfill_entries force base headers header_order [] = Inr ([], [])"
| "backfill_entries force base headers header_order (e # es) =
     bindE (backfill_entry force base headers header_order e) (\<lambda>(e', updated).
     bindE (backfill_entries force base headers header_order es) (\<lambda>(es', names).
       Inr (e' # es', (case updated of None \<Rightarrow> names | Some n \<Rightarrow> n # names))))"

text \<open>One captured profile; a capture without a name or without headers is skipped.\<close>

fun backfill_captured :: "bool \<Rightarrow> pyval \<Rightarrow> pyval list \<Rightarrow> (pyval list \<times> (string \<times> string list) option) res" where
  "backfill_captured force (PDict captured) entries =
    (let captured_name = dget_or captured ''name'' (PStr []); header_order = dget captured ''header_order'' in
     if \<not> py_truth captured_name then Inr (entries, None)
     else case captured_name of
       PStr name \<Rightarrow> (case dget captured ''headers'' of
         PDict headers \<Rightarrow> if \<not> py_truth header_order then Inr (entries, None)
           else bindE (backfill_entries force (base_name name) headers header_order entries) (\<lambda>(entries', names).
             Inr (entries', if names = [] then None else Some (name, names)))
       | _ \<Rightarrow> Inr (entries, None))
     | _ \<Rightarrow> Inl (no_attribute ''rsplit''))"
| "backfill_captured _ _ _ = Inl (no_attribute ''get'')"

definition add_updates :: "(string, string list) dict \<Rightarrow> (string \<times> string list) option \<Rightarrow> (string, string list) dict" where
  "add_updates updates u = (case u of None \<Rightarrow> updates
   | Some (name, names) \<Rightarrow> dset updates name (dget_or updates name [] @ names))"

fun backfill :: "bool \<Rightarrow> pyval list \<Rightarrow> pyval list \<Rightarrow> (string, string list) dict \<Rightarrow>
    (pyval list \<times> (string, string list) dict) res" where
  "backfill force [] entries updates = Inr (entries, updates)"
| "backfill force (c # cs) entries updates = bindE (backfill_captured force c entries) (\<lambda>(entries', u).
     backfill force cs entries' (add_updates updates u))"

text \<open>The exit code, and the file if it is written.\<close>

fun backfill_main :: "bool \<Rightarrow> bool \<Rightarrow> pyval res \<Rightarrow> pyval res \<Rightarrow> (int \<times> pyval option) res" where
  "backfill_main force dry_run (Inl e) _ = Inl e"
| "backfill_main force dry_run (Inr registry) (Inl e) = Inl e"
| "backfill_main force dry_run (Inr (PDict registry)) (Inr capture) = (case dget registry ''fingerprints'' of
     PList entries \<Rightarrow> (case capture of
       PDict captured \<Rightarrow> (case dget captured ''fingerprints'' of
         PList captures \<Rightarrow> bindE (backfill force captures entries []) (\<lambda>(entries', updates).
           Inr (0, if updates = [] \<or> dry_run then None
             else Some (PDict (dset registry ''fingerprints'' (PList entries')))))
       | _ \<Rightarrow> Inr (1, None))
     | _ \<Rightarrow> Inl (no_attribute ''get''))
   | _ \<Rightarrow> Inr (1, None))"
| "backfill_main _ _ _ _ = Inl (no_attribute ''get'')"

subsection \<open>The change log (\<^verbatim>\<open>prepare_changelog.py\<close>)\<close>

text \<open>The loop over the lines: whether the section of the version is there already, and otherwise the place after the
  last heading of unreleased changes before the first released version, or -1.\<close>

datatype changelog_scan = UpToDate | InsertAt int

fun scan_changelog :: "string \<Rightarrow> string list \<Rightarrow> int \<Rightarrow> int \<Rightarrow> changelog_scan" where
  "scan_changelog version [] i insert_index = InsertAt insert_index"
| "scan_changelog version (line # lines) i insert_index =
     (if startswith line ''## Unreleased'' then scan_changelog version lines (i + 1) (i + 1)
      else if startswith line (''## [v'' @ version @ '']'') then UpToDate
      else if startswith line ''## [v'' then InsertAt insert_index
      else scan_changelog version lines (i + 1) insert_index)"

definition newline :: string where
  "newline = [char_of (10 :: nat)]"

definition version_heading :: "string \<Rightarrow> string \<Rightarrow> string" where
  "version_heading version date = ''## [v'' @ version @ ''](https://github.com/allenai/python-package-template/releases/tag/v'' @
     version @ '') - '' @ date @ newline"

text \<open>\<^verbatim>\<open>lines.insert(i, x)\<close> for an index that is not negative.\<close>

definition insert_at :: "nat \<Rightarrow> 'a \<Rightarrow> 'a list \<Rightarrow> 'a list" where
  "insert_at i x xs = take i xs @ x # drop i xs"

text \<open>The lines to write, or \<open>None\<close> when the log is up to date.\<close>

definition prepare_changelog :: "string \<Rightarrow> string \<Rightarrow> string list \<Rightarrow> string list option res" where
  "prepare_changelog version date lines = (case scan_changelog version lines 0 (- 1) of
     UpToDate \<Rightarrow> Inr None
   | InsertAt i \<Rightarrow> if i < 0 then Inl (Exc RuntimeError (''Couldn'' @ [char_of (39 :: nat)] @ ''t find '' @
         single_quoted ''Unreleased'' @ '' section''))
       else Inr (Some (insert_at (nat i + 1) (version_heading version date) (insert_at (nat i) newline lines))))"

subsection \<open>Release notes (\<^verbatim>\<open>release_notes.py\<close>)\<close>

text \<open>The headings with emoji, whose characters the strings of the model do not have, are arguments.\<close>

record headings =
  hd_added :: string
  hd_changed :: string
  hd_fixed :: string
  hd_removed :: string

definition decorate :: "headings \<Rightarrow> string \<Rightarrow> string" where
  "decorate hs line = (if startswith line ''### Added'' then hd_added hs @ newline
     else if startswith line ''### Changed'' then hd_changed hs @ newline
     else if startswith line ''### Fixed'' then hd_fixed hs @ newline
     else if startswith line ''### Removed'' then hd_removed hs @ newline
     else line)"

fun section_notes :: "headings \<Rightarrow> string \<Rightarrow> bool \<Rightarrow> string list \<Rightarrow> string list" where
  "section_notes hs tag inside [] = []"
| "section_notes hs tag inside (line # lines) =
     (if startswith line ''## '' then
        (if startswith line ''## Unreleased'' then section_notes hs tag inside lines
         else if startswith line (''## ['' @ tag @ '']'') then section_notes hs tag True lines
         else [])
      else if inside then decorate hs line # section_notes hs tag inside lines
      else section_notes hs tag inside lines)"

definition get_change_log_notes :: "headings \<Rightarrow> string \<Rightarrow> string list \<Rightarrow> string res" where
  "get_change_log_notes hs tag lines = (let notes = section_notes hs tag False lines in
     if notes = [] then Inl (Exc Exception [])
     else Inr (''## What'' @ [char_of (39 :: nat)] @ ''s new'' @ newline @ newline @ strip (concat notes) @ newline))"

text \<open>The tag of the previous version among those of \<^verbatim>\<open>git\<close>, latest first: \<open>parse\<close> reads a version, \<open>is_pre\<close> tells
  a pre-release and \<open>older\<close> compares.\<close>

fun last_tag :: "(string \<Rightarrow> 'v res) \<Rightarrow> ('v \<Rightarrow> bool) \<Rightarrow> ('v \<Rightarrow> 'v \<Rightarrow> bool) \<Rightarrow> 'v \<Rightarrow> string list \<Rightarrow> string option res" where
  "last_tag parse is_pre older new_version [] = Inr None"
| "last_tag parse is_pre older new_version (tag # tags) =
     (if strip tag = [] then last_tag parse is_pre older new_version tags
      else bindE (parse tag) (\<lambda>version.
        if \<not> is_pre new_version \<and> is_pre version then last_tag parse is_pre older new_version tags
        else if older version new_version then Inr (Some tag)
        else last_tag parse is_pre older new_version tags))"

definition commit_command :: "string \<Rightarrow> string option \<Rightarrow> string" where
  "commit_command tag previous = (case previous of
     Some l \<Rightarrow> ''git log '' @ l @ ''..'' @ tag @ ''^ --oneline --first-parent''
   | None \<Rightarrow> ''git log --oneline --first-parent'')"

definition get_commit_history :: "(string \<Rightarrow> 'v res) \<Rightarrow> ('v \<Rightarrow> bool) \<Rightarrow> ('v \<Rightarrow> 'v \<Rightarrow> bool) \<Rightarrow>
    (string \<Rightarrow> string) \<Rightarrow> string \<Rightarrow> string res" where
  "get_commit_history parse is_pre older popen tag = bindE (parse tag) (\<lambda>new_version.
     bindE (last_tag parse is_pre older new_version
         (split_on (char_of (10 :: nat)) (popen (''git tag -l --sort=-version:refname '' @ single_quoted ''v*'')))) (\<lambda>previous.
       Inr (''## Commits'' @ newline @ newline @ popen (commit_command tag previous))))"

subsection \<open>The package index (\<^verbatim>\<open>generate_pep503_index.py\<close>)\<close>

definition escape_html_char :: "char \<Rightarrow> string" where
  "escape_html_char c = (let n = of_char c :: nat in
     if n = 38 then ''&amp;'' else if n = 60 then ''&lt;'' else if n = 62 then ''&gt;''
     else if n = 34 then ''&quot;'' else if n = 39 then ''&#x27;'' else [c])"

text \<open>\<^verbatim>\<open>html.escape\<close>: the ampersand is replaced first, so that it is one pass.\<close>

definition html_escape :: "string \<Rightarrow> string" where
  "html_escape s = concat (map escape_html_char s)"

text \<open>\<^verbatim>\<open>Path(s).name\<close>: the last component that is not empty or a dot.\<close>

definition path_name :: "string \<Rightarrow> string" where
  "path_name s = (case rev (filter (\<lambda>p. p \<noteq> [] \<and> p \<noteq> ''.'') (split_on (CHR ''/'') s)) of [] \<Rightarrow> [] | p # _ \<Rightarrow> p)"

definition dq :: string where
  "dq = [char_of (34 :: nat)]"

definition page_top :: string where
  "page_top = ''<!DOCTYPE html>'' @ newline @ ''<html>'' @ newline @ ''<body>'' @ newline"

definition page_end :: string where
  "page_end = ''</body>'' @ newline @ ''</html>'' @ newline"

definition simple_index :: "string \<Rightarrow> string" where
  "simple_index package_name = page_top @ ''<a href='' @ dq @ html_escape package_name @ ''/'' @ dq @ ''>'' @
     html_escape package_name @ ''</a>'' @ newline @ page_end"

definition wheel_line :: "string \<Rightarrow> string \<Rightarrow> string" where
  "wheel_line base_url wheel_file = (let wheel_name = path_name wheel_file in
     ''<a href='' @ dq @ html_escape (base_url @ ''/'' @ wheel_name) @ dq @ ''>'' @ html_escape wheel_name @ ''</a><br/>'' @ newline)"

definition package_index :: "string \<Rightarrow> string list \<Rightarrow> string" where
  "package_index base_url wheel_files = page_top @ concat (map (wheel_line base_url) (sort wheel_files)) @ page_end"

definition root_index :: "string \<Rightarrow> string" where
  "root_index package_name = (let p = html_escape package_name in
     ''<!DOCTYPE html>'' @ newline @ ''<html>'' @ newline @ ''<head>'' @ ''<title>'' @ p @ '' Package Index</title>'' @
     ''</head>'' @ newline @ ''<body>'' @ newline @ ''<h1>'' @ p @ '' Package Index</h1>'' @ newline @
     ''<p><a href='' @ dq @ ''simple/'' @ p @ ''/'' @ dq @ ''>PEP 503 simple index for '' @ p @ ''</a></p>'' @ newline @
     ''<p><a href='' @ dq @ ''docs/'' @ dq @ ''>Documentation</a></p>'' @ newline @ ''<p>Install with pip:</p>'' @ newline @
     ''<pre>pip install --extra-index-url https://smeinecke.github.io/cycletls_python/simple '' @ p @ ''</pre>'' @ newline @
     page_end)"

text \<open>The pages with their paths, in the order they are written; \<open>root_path\<close> is the index beside the output directory.\<close>

definition generate_index :: "string \<Rightarrow> string list \<Rightarrow> string \<Rightarrow> string \<Rightarrow> string \<Rightarrow> (string \<times> string) list" where
  "generate_index package_name wheel_files base_url output_dir root_path =
    [(output_dir @ ''/index.html'', simple_index package_name),
     (output_dir @ ''/'' @ package_name @ ''/index.html'', package_index base_url wheel_files),
     (root_path, root_index package_name)]"

subsection \<open>Lemmas\<close>

text \<open>What a run may do to an entry: nothing, or set headers and their order; headers that are there stay, and
  without \<^verbatim>\<open>--force\<close> an entry with headers is not touched.\<close>

definition entry_kept :: "bool \<Rightarrow> pyval \<Rightarrow> pyval \<Rightarrow> bool" where
  "entry_kept force e e' \<longleftrightarrow> e' = e \<or> (\<exists>entry entry'. e = PDict entry \<and> e' = PDict entry' \<and> has_headers entry' \<and>
     (\<forall>k. k \<noteq> ''headers'' \<longrightarrow> k \<noteq> ''header_order'' \<longrightarrow> map_of entry' k = map_of entry k) \<and>
     (has_headers entry \<longrightarrow> force \<and> map_of entry' ''headers'' = map_of entry ''headers''))"

lemma entry_kept_refl [simp]: "entry_kept force e e"
  by (simp add: entry_kept_def)

lemma entry_kept_trans: "entry_kept force e e' \<Longrightarrow> entry_kept force e' e'' \<Longrightarrow> entry_kept force e e''"
  unfolding entry_kept_def by (elim disjE exE conjE) (auto simp: has_headers_def)

lemma fill_entry_kept:
  assumes "has_headers entry \<Longrightarrow> force"
  shows "entry_kept force (PDict entry) (PDict (fill_entry force headers order entry))"
  using assms by (auto simp: entry_kept_def fill_entry_def has_headers_def Let_def)

lemma backfill_entry_kept:
  "backfill_entry force base headers order e = Inr (e', u) \<Longrightarrow> entry_kept force e e'"
  by (cases "(force, base, headers, order, e)" rule: backfill_entry.cases)
    (auto intro!: fill_entry_kept split: pyval.splits if_splits)

lemma backfill_entries_kept:
  "backfill_entries force base headers order es = Inr (es', names) \<Longrightarrow> list_all2 (entry_kept force) es es'"
  by (induction es arbitrary: es' names) (auto dest: backfill_entry_kept)

lemma kept_list_refl [simp]: "list_all2 (entry_kept force) es es"
  by (rule list.rel_refl) simp

lemma kept_list_trans:
  "list_all2 (entry_kept force) es es' \<Longrightarrow> list_all2 (entry_kept force) es' es'' \<Longrightarrow> list_all2 (entry_kept force) es es''"
  by (rule list_all2_trans [of "entry_kept force" "entry_kept force" "entry_kept force"]) (rule entry_kept_trans)

lemma backfill_captured_kept:
  "backfill_captured force c es = Inr (es', u) \<Longrightarrow> list_all2 (entry_kept force) es es'"
  by (cases "(force, c, es)" rule: backfill_captured.cases)
    (auto simp: Let_def dest: backfill_entries_kept split: if_splits pyval.splits)

lemma backfill_kept:
  "backfill force captures es updates = Inr (es', updates') \<Longrightarrow> list_all2 (entry_kept force) es es'"
proof (induction force captures es updates rule: backfill.induct)
  case (2 force c cs es updates)
  from "2.prems" obtain es1 u where "backfill_captured force c es = Inr (es1, u)"
    "backfill force cs es1 (add_updates updates u) = Inr (es', updates')" by auto
  with "2.IH" [OF this(2)] show ?case by (blast intro: kept_list_trans backfill_captured_kept)
qed simp

text \<open>An entry that a capture does not change any more.\<close>

lemma fill_entry_simps [simp]:
  "dget_or (fill_entry force headers order entry) ''name'' x = dget_or entry ''name'' x"
  "has_headers (fill_entry force headers order entry)"
  by (simp_all add: fill_entry_def has_headers_def dget_or_def Let_def split: option.split)

lemma settled_after:
  assumes "backfill_entry False base headers order e = Inr (e', u)"
  shows "backfill_entry False base headers order e' = Inr (e', None)"
proof -
  obtain entry where e: "e = PDict entry" using assms by (cases e) simp_all
  obtain n where n: "dget_or entry ''name'' (PStr []) = PStr n"
    using assms e by (cases "dget_or entry ''name'' (PStr [])") simp_all
  show ?thesis
    using assms e n by (cases "startswith n (base @ ''_'') \<and> \<not> has_headers entry") auto
qed

lemma settled_kept:
  assumes "backfill_entry False base headers order e = Inr (e, None)" "entry_kept False e e'"
  shows "backfill_entry False base headers order e' = Inr (e', None)"
proof (cases "e' = e")
  case False
  with assms(2) obtain entry entry' where e: "e = PDict entry" "e' = PDict entry'" "\<not> has_headers entry"
    and k: "\<And>k. k \<noteq> ''headers'' \<Longrightarrow> k \<noteq> ''header_order'' \<Longrightarrow> map_of entry' k = map_of entry k"
    unfolding entry_kept_def by blast
  have same: "map_of entry' ''name'' = map_of entry ''name''" by (rule k) simp_all
  have name: "dget_or entry' ''name'' (PStr []) = dget_or entry ''name'' (PStr [])" by (simp add: dget_or_def same)
  from assms(1) e show ?thesis
    by (cases "dget_or entry ''name'' (PStr [])") (simp_all add: name split: if_split_asm)
qed (use assms in simp)

lemma settled_entries:
  "(\<forall>e\<in>set es. backfill_entry False base headers order e = Inr (e, None)) \<Longrightarrow>
    backfill_entries False base headers order es = Inr (es, [])"
  by (induction es) simp_all

lemma entries_settled_after:
  "backfill_entries False base headers order es = Inr (es', names) \<Longrightarrow>
    \<forall>e\<in>set es'. backfill_entry False base headers order e = Inr (e, None)"
  by (induction es arbitrary: es' names) (auto dest: settled_after)

lemma entries_settled_kept:
  assumes "\<forall>e\<in>set es. backfill_entry False base headers order e = Inr (e, None)" "list_all2 (entry_kept False) es es'"
  shows "\<forall>e\<in>set es'. backfill_entry False base headers order e = Inr (e, None)"
  using assms(2,1) by (induction rule: list_all2_induct) (auto dest: settled_kept)

lemma captured_settled_after:
  assumes "backfill_captured False c es = Inr (es', u)"
  shows "backfill_captured False c es' = Inr (es', None)"
proof -
  obtain captured where c: "c = PDict captured" using assms by (cases c) simp_all
  consider "backfill_captured False c es = Inr (es, None)" "\<And>xs. backfill_captured False c xs = Inr (xs, None)"
    | base headers order names where "backfill_entries False base headers order es = Inr (es', names)"
      "\<And>xs. backfill_entries False base headers order xs = Inr (xs, []) \<Longrightarrow> backfill_captured False c xs = Inr (xs, None)"
    using assms unfolding c
    by (auto simp: Let_def split: if_split_asm pyval.splits)
  then show ?thesis
  proof cases
    case 1
    then show ?thesis by simp
  next
    case 2
    from entries_settled_after [OF 2(1)] have "backfill_entries False base headers order es' = Inr (es', [])"
      by (rule settled_entries)
    with 2(2) show ?thesis by simp
  qed
qed

lemma captured_settled_kept:
  assumes "backfill_captured False c es = Inr (es, None)" "list_all2 (entry_kept False) es es'"
  shows "backfill_captured False c es' = Inr (es', None)"
proof -
  obtain captured where c: "c = PDict captured" using assms by (cases c) simp_all
  consider "\<And>xs. backfill_captured False c xs = Inr (xs, None)"
    | base headers order names where "backfill_entries False base headers order es = Inr (es, names)"
      "\<And>xs. backfill_entries False base headers order xs = Inr (xs, []) \<Longrightarrow> backfill_captured False c xs = Inr (xs, None)"
    using assms(1) unfolding c
    by (auto simp: Let_def split: if_split_asm pyval.splits)
  then show ?thesis
  proof cases
    case 2
    from entries_settled_kept [OF entries_settled_after [OF 2(1)] assms(2)]
    have "backfill_entries False base headers order es' = Inr (es', [])" by (rule settled_entries)
    with 2(2) show ?thesis by simp
  qed
qed

lemma backfill_settles:
  "backfill False cs es ups = Inr (es', ups') \<Longrightarrow> \<forall>c\<in>set cs. backfill_captured False c es' = Inr (es', None)"
proof (induction cs arbitrary: es ups)
  case (Cons c cs)
  from Cons.prems obtain es1 u where c: "backfill_captured False c es = Inr (es1, u)"
    and cs: "backfill False cs es1 (add_updates ups u) = Inr (es', ups')" by auto
  from captured_settled_kept [OF captured_settled_after [OF c] backfill_kept [OF cs]] Cons.IH [OF cs] show ?case by simp
qed simp

lemma backfill_nothing:
  "\<forall>c\<in>set cs. backfill_captured False c es = Inr (es, None) \<Longrightarrow> backfill False cs es ups = Inr (es, ups)"
  by (induction cs) (simp_all add: add_updates_def)

text \<open>
  A second run with \<^verbatim>\<open>--force\<close> beside the first: \<open>a\<close> is an entry in the first run, \<open>b\<close> the same
  entry in the second run after the same captures and \<open>f\<close> what the first run ends with. The second run has not
  touched the entry yet, or has only put the order of the headers back to that of the last capture.
\<close>

definition rerun :: "pyval \<Rightarrow> pyval \<Rightarrow> pyval \<Rightarrow> bool" where
  "rerun a b f \<longleftrightarrow> b = f \<or> (\<exists>entry final order. a = PDict entry \<and> f = PDict final \<and>
     map_of entry ''header_order'' = Some order \<and> b = PDict (dset final ''header_order'' order))"

fun reruns :: "pyval list \<Rightarrow> pyval list \<Rightarrow> pyval list \<Rightarrow> bool" where
  "reruns [] [] [] = True"
| "reruns (a # as) (b # bs) (f # fs) = (rerun a b f \<and> reruns as bs fs)"
| "reruns _ _ _ = False"

lemma dset_same: "map_of d k = Some v \<Longrightarrow> dset d k v = d"
  by (induction d k v rule: dset.induct) (auto split: if_splits)

lemma reruns_refl: "length es = length fs \<Longrightarrow> reruns es fs fs"
  by (induction es fs rule: list_induct2) (simp_all add: rerun_def)

lemma reruns_end: "reruns fs bs fs \<Longrightarrow> bs = fs"
proof (induction fs arbitrary: bs)
  case Nil
  then show ?case by (cases bs) simp_all
next
  case (Cons f fs)
  then show ?case by (cases bs) (auto simp: rerun_def dset_same)
qed

lemma entry_kept_name:
  "entry_kept force (PDict a) (PDict f) \<Longrightarrow> dget_or f ''name'' x = dget_or a ''name'' x"
proof -
  assume kept: "entry_kept force (PDict a) (PDict f)"
  have "map_of f ''name'' = map_of a ''name''"
  proof (cases "f = a")
    case False
    with kept have "\<forall>k. k \<noteq> ''headers'' \<longrightarrow> k \<noteq> ''header_order'' \<longrightarrow> map_of f k = map_of a k"
      unfolding entry_kept_def by (simp only: pyval.inject) blast
    then show ?thesis by simp
  qed simp
  then show ?thesis by (simp add: dget_or_def)
qed

lemma rerun_second:
  assumes "rerun a b (PDict final)"
  shows "\<exists>second. b = PDict second \<and> dget_or second ''name'' x = dget_or final ''name'' x \<and>
    (has_headers final \<longrightarrow> fill_entry True headers order second = dset final ''header_order'' order)"
proof -
  from assms have "b = PDict final \<or> (\<exists>o'. b = PDict (dset final ''header_order'' o'))"
    unfolding rerun_def by (elim disjE exE conjE) (rule disjI1, assumption, rule disjI2, rule exI, simp only: pyval.inject)
  then consider "b = PDict final" | o' where "b = PDict (dset final ''header_order'' o')" by (elim disjE exE)
  then show ?thesis
  proof cases
    case 1
    have "has_headers final \<Longrightarrow> fill_entry True headers order final = dset final ''header_order'' order"
      by (simp add: fill_entry_def)
    with 1 show ?thesis by (intro exI [of _ final] conjI) (assumption, rule refl, rule impI)
  next
    case (2 o')
    have "has_headers (dset final ''header_order'' o') = has_headers final" by (simp add: has_headers_def)
    then have "has_headers final \<Longrightarrow> fill_entry True headers order (dset final ''header_order'' o') = dset final ''header_order'' order"
      by (simp add: fill_entry_def)
    moreover have "dget_or (dset final ''header_order'' o') ''name'' x = dget_or final ''name'' x" by (simp add: dget_or_def)
    ultimately show ?thesis using 2 by (intro exI [of _ "dset final ''header_order'' o'"] conjI) (assumption, assumption, rule impI)
  qed
qed

lemma rerun_entry:
  assumes "backfill_entry True base headers order a = Inr (a', u)" "rerun a b f" "entry_kept True a f" "entry_kept True a' f"
  shows "\<exists>b'. backfill_entry True base headers order b = Inr (b', u) \<and> rerun a' b' f"
proof -
  obtain entry where a: "a = PDict entry" using assms(1) by (cases a) simp_all
  obtain n where n: "dget_or entry ''name'' (PStr []) = PStr n"
    using assms(1) a by (cases "dget_or entry ''name'' (PStr [])") simp_all
  obtain final where f: "f = PDict final" using assms(3) a unfolding entry_kept_def by blast
  have name: "dget_or final ''name'' (PStr []) = PStr n" using entry_kept_name assms(3) a f n by metis
  from rerun_second [OF assms(2) [unfolded f], of "PStr []" headers order] obtain second where
    b: "b = PDict second" "dget_or second ''name'' (PStr []) = PStr n"
    and fill: "has_headers final \<Longrightarrow> fill_entry True headers order second = dset final ''header_order'' order"
    unfolding name by blast
  show ?thesis
  proof (cases "startswith n (base @ ''_'')")
    case False
    then have "a' = a" "u = None" using assms(1) a n by simp_all
    moreover have "backfill_entry True base headers order b = Inr (b, None)" using False b by simp
    ultimately show ?thesis using assms(2) by blast
  next
    case True
    then have a': "a' = PDict (fill_entry True headers order entry)" "u = Some n" using assms(1) a n by simp_all
    from assms(4) have "has_headers final" unfolding entry_kept_def a'(1) f by auto
    then have "backfill_entry True base headers order b = Inr (PDict (dset final ''header_order'' order), Some n)"
      using True b fill by simp
    moreover have "map_of (fill_entry True headers order entry) ''header_order'' = Some order"
      by (simp add: fill_entry_def Let_def)
    ultimately show ?thesis unfolding rerun_def a' f by blast
  qed
qed

lemma rerun_entries:
  assumes "backfill_entries True base headers order as = Inr (as', names)" "reruns as bs fs"
    "list_all2 (entry_kept True) as' fs"
  shows "\<exists>bs'. backfill_entries True base headers order bs = Inr (bs', names) \<and> reruns as' bs' fs"
  using assms
proof (induction as bs fs arbitrary: as' names rule: reruns.induct)
  case (2 a as b bs f fs)
  from "2.prems"(1) obtain a' u as1 names1 where
    a: "backfill_entry True base headers order a = Inr (a', u)"
    and as1: "backfill_entries True base headers order as = Inr (as1, names1)"
    and res: "as' = a' # as1" "names = (case u of None \<Rightarrow> names1 | Some n \<Rightarrow> n # names1)" by auto
  have kept: "entry_kept True a' f" "list_all2 (entry_kept True) as1 fs" using "2.prems"(3) res(1) by simp_all
  have "entry_kept True a f" using backfill_entry_kept [OF a] kept(1) by (rule entry_kept_trans)
  with rerun_entry [OF a _ _ kept(1)] "2.prems"(2) obtain b' where
    "backfill_entry True base headers order b = Inr (b', u)" "rerun a' b' f" by auto
  moreover from "2.IH" [OF as1 _ kept(2)] "2.prems"(2) obtain bs1 where
    "backfill_entries True base headers order bs = Inr (bs1, names1)" "reruns as1 bs1 fs" by auto
  ultimately show ?case using res by simp
qed simp_all

lemma captured_shape:
  assumes "backfill_captured force c as = Inr (as', u)"
  shows "(as' = as \<and> (\<forall>xs. backfill_captured force c xs = Inr (xs, u))) \<or>
    (\<exists>base headers order names. backfill_entries force base headers order as = Inr (as', names) \<and>
      (\<forall>xs ys. backfill_entries force base headers order xs = Inr (ys, names) \<longrightarrow> backfill_captured force c xs = Inr (ys, u)))"
proof -
  obtain captured where c: "c = PDict captured" using assms by (cases c) simp_all
  define header_order where "header_order = dget captured ''header_order''"
  define captured_name where "captured_name = dget_or captured ''name'' (PStr [])"
  note defs = c Let_def header_order_def [symmetric] captured_name_def [symmetric]
  show ?thesis
  proof (cases "py_truth captured_name")
    case True
    then obtain name where name: "captured_name = PStr name" using assms by (cases captured_name) (simp_all add: defs)
    show ?thesis
    proof (cases "\<exists>headers. dget captured ''headers'' = PDict headers \<and> py_truth header_order")
      case True
      then obtain headers where h: "dget captured ''headers'' = PDict headers" "py_truth header_order" by blast
      from assms obtain names where "backfill_entries force (base_name name) headers header_order as = Inr (as', names)"
        "u = (if names = [] then None else Some (name, names))"
        using name h \<open>py_truth captured_name\<close> by (auto simp: defs)
      then show ?thesis using name h \<open>py_truth captured_name\<close> by (intro disjI2 exI conjI) (assumption, simp add: defs)
    next
      case False
      have "backfill_captured force c xs = Inr (xs, None)" for xs
        using False name \<open>py_truth captured_name\<close> by (cases "dget captured ''headers''") (simp_all add: defs)
      with assms show ?thesis by simp
    qed
  next
    case False
    have "backfill_captured force c xs = Inr (xs, None)" for xs using False by (simp add: defs)
    with assms show ?thesis by simp
  qed
qed

lemma rerun_captured:
  assumes "backfill_captured True c as = Inr (as', u)" "reruns as bs fs" "list_all2 (entry_kept True) as' fs"
  shows "\<exists>bs'. backfill_captured True c bs = Inr (bs', u) \<and> reruns as' bs' fs"
  using captured_shape [OF assms(1)]
proof
  assume "as' = as \<and> (\<forall>xs. backfill_captured True c xs = Inr (xs, u))"
  then show ?thesis using assms(2) by simp
next
  assume "\<exists>base headers order names. backfill_entries True base headers order as = Inr (as', names) \<and>
      (\<forall>xs ys. backfill_entries True base headers order xs = Inr (ys, names) \<longrightarrow> backfill_captured True c xs = Inr (ys, u))"
  then obtain base headers order names where e: "backfill_entries True base headers order as = Inr (as', names)"
    and c: "\<And>xs ys. backfill_entries True base headers order xs = Inr (ys, names) \<Longrightarrow> backfill_captured True c xs = Inr (ys, u)"
    by blast
  from rerun_entries [OF e assms(2,3)] c show ?thesis by blast
qed

lemma backfill_again:
  "backfill True cs as ups = Inr (fs, ups') \<Longrightarrow> reruns as bs fs \<Longrightarrow> backfill True cs bs ups = Inr (fs, ups')"
proof (induction cs arbitrary: as bs ups)
  case (Cons c cs)
  from Cons.prems(1) obtain as1 u where c: "backfill_captured True c as = Inr (as1, u)"
    and cs: "backfill True cs as1 (add_updates ups u) = Inr (fs, ups')" by auto
  from rerun_captured [OF c Cons.prems(2) backfill_kept [OF cs]] obtain bs1 where
    "backfill_captured True c bs = Inr (bs1, u)" "reruns as1 bs1 fs" by blast
  with Cons.IH [OF cs] show ?case by simp
qed (auto dest: reruns_end)

text \<open>C21. Backfilling is safe and idempotent. Whatever the registry, the captures and the options are, a run that does
  not raise keeps the entries of the registry in their places and changes only \<^verbatim>\<open>headers\<close> and \<^verbatim>\<open>header_order\<close> of
  an entry. Without \<^verbatim>\<open>--force\<close> an entry that has headers is not touched. With \<^verbatim>\<open>--force\<close> its
  \<^verbatim>\<open>header_order\<close> may be overwritten but its headers are kept, which is not what the help of the option says. The same
  run on its own result leaves the registry as it is: without \<^verbatim>\<open>--force\<close> it has nothing to update, with
  \<^verbatim>\<open>--force\<close> it reports the same updates again.\<close>

theorem backfill_safe_idempotent:
  assumes "backfill force captures entries [] = Inr (entries', updates)"
  shows "length entries' = length entries \<and>
    (\<forall>i < length entries. entries' ! i = entries ! i \<or> (\<exists>e e'. entries ! i = PDict e \<and> entries' ! i = PDict e' \<and>
       (\<forall>k. k \<noteq> ''headers'' \<longrightarrow> k \<noteq> ''header_order'' \<longrightarrow> map_of e' k = map_of e k) \<and>
       (has_headers e \<longrightarrow> force \<and> map_of e' ''headers'' = map_of e ''headers''))) \<and>
    backfill force captures entries' [] = Inr (entries', if force then updates else [])"
proof -
  have k: "list_all2 (entry_kept force) entries entries'" using backfill_kept [OF assms] .
  have "entries' ! i = entries ! i \<or> (\<exists>e e'. entries ! i = PDict e \<and> entries' ! i = PDict e' \<and>
       (\<forall>k. k \<noteq> ''headers'' \<longrightarrow> k \<noteq> ''header_order'' \<longrightarrow> map_of e' k = map_of e k) \<and>
       (has_headers e \<longrightarrow> force \<and> map_of e' ''headers'' = map_of e ''headers''))" if "i < length entries" for i
    using list_all2_nthD [OF k that] unfolding entry_kept_def by blast
  moreover have len: "length entries = length entries'" using list_all2_lengthD [OF k] .
  moreover have "backfill force captures entries' [] = Inr (entries', if force then updates else [])"
  proof (cases force)
    case True
    with assms backfill_again [OF _ reruns_refl [OF len]] show ?thesis by simp
  next
    case False
    with assms backfill_settles backfill_nothing show ?thesis by auto
  qed
  ultimately show ?thesis by simp
qed

definition capture_152 :: pyval where
  "capture_152 = PDict [(''name'', PStr ''chrome_152_linux''), (''headers'', PDict [(''accept'', PStr ''a'')]),
     (''header_order'', PList [PStr ''accept''])]"

definition win_152 :: kwargs where
  "win_152 = [(''name'', PStr ''chrome_152_win''), (''ja3'', PStr ''771'')]"

theorem backfill_safe_idempotent_witness:
  "\<exists>entries' updates. backfill False [capture_152] [PDict win_152] [] = Inr (entries', updates) \<and>
     updates = [(''chrome_152_linux'', [''chrome_152_win''])] \<and>
     backfill False [capture_152] entries' [] = Inr (entries', [])"
proof -
  have "backfill False [capture_152] [PDict win_152] [] =
      Inr ([PDict (win_152 @ [(''headers'', PDict [(''accept'', PStr ''a'')]), (''header_order'', PList [PStr ''accept''])])],
        [(''chrome_152_linux'', [''chrome_152_win''])])" by code_simp
  moreover from backfill_safe_idempotent [OF this] have "backfill False [capture_152]
      [PDict (win_152 @ [(''headers'', PDict [(''accept'', PStr ''a'')]), (''header_order'', PList [PStr ''accept''])])] [] =
      Inr ([PDict (win_152 @ [(''headers'', PDict [(''accept'', PStr ''a'')]), (''header_order'', PList [PStr ''accept''])])], [])"
    by (elim conjE) (simp only: if_False)
  ultimately show ?thesis by blast
qed

subsection \<open>The section of a version\<close>

lemma scan_skips:
  "\<forall>l\<in>set ls. \<not> startswith l ''## '' \<Longrightarrow> scan_changelog version (ls @ rest) i k = scan_changelog version rest (i + int (length ls)) k"
proof (induction ls arbitrary: i)
  case (Cons l ls)
  then have "\<not> startswith l ''## Unreleased''" "\<not> startswith l (''## [v'' @ s)" for s
    by (auto simp: startswith_def prefix_def)
  from this(1) this(2) [of "version @ '']''"] this(2) [of "[]"] Cons show ?case by (simp add: algebra_simps)
qed simp

lemma notes_skip:
  "\<forall>l\<in>set ls. \<not> startswith l ''## '' \<Longrightarrow>
    section_notes hs tag inside (ls @ rest) = (if inside then map (decorate hs) ls else []) @ section_notes hs tag inside rest"
  by (induction ls) auto

lemma heading_starts:
  "startswith (version_heading version date) (''## [v'' @ version @ '']'')" "startswith (version_heading version date) ''## ''"
  "\<not> startswith (version_heading version date) ''## Unreleased''" "startswith (version_heading version date) ''## [v''"
  by (simp_all add: version_heading_def startswith_def)

lemma released_starts:
  "startswith l ''## [v'' \<Longrightarrow> startswith l ''## ''" "startswith l ''## [v'' \<Longrightarrow> \<not> startswith l ''## Unreleased''"
  by (auto simp: startswith_def prefix_def)

text \<open>What follows the section of unreleased changes: nothing, or the section of another released version.\<close>

definition released :: "string \<Rightarrow> string list \<Rightarrow> bool" where
  "released version rest = (case rest of [] \<Rightarrow> True
   | l # _ \<Rightarrow> startswith l ''## [v'' \<and> \<not> startswith l (''## [v'' @ version @ '']''))"

lemma insert_two:
  "insert_at (Suc (Suc n)) x (insert_at (Suc n) y (ls @ h # rest)) = ls @ h # y # x # rest" if "n = length ls"
  using that by (simp add: insert_at_def)

lemma prepared_log:
  assumes "startswith head ''## Unreleased''" "\<forall>l\<in>set pre. \<not> startswith l ''## ''" "\<forall>l\<in>set sect. \<not> startswith l ''## ''"
    and "released version rest"
  shows "prepare_changelog version date (pre @ head # sect @ rest) =
    Inr (Some (pre @ head # newline # version_heading version date # sect @ rest))"
proof -
  have "scan_changelog version rest i k = InsertAt k" for i k
    using assms(4) by (cases rest) (auto simp: released_def released_starts)
  then have "scan_changelog version (pre @ head # sect @ rest) 0 (- 1) = InsertAt (int (length pre) + 1)"
    using assms(1-3) by (simp add: scan_skips)
  moreover have "nat (int (length pre) + 1) = Suc (length pre)" by simp
  moreover have "insert_at (Suc (length pre) + 1) x (insert_at (Suc (length pre)) y (pre @ head # ls)) = pre @ head # y # x # ls"
    for x y ls using insert_two [OF refl] by simp
  ultimately show ?thesis by (simp add: prepare_changelog_def del: nat_int_add)
qed

text \<open>C22. The scripts for a release agree on the change log. For a log whose first section is that of unreleased
  changes, followed by nothing or by the section of another version: \<^verbatim>\<open>prepare_changelog.py\<close> inserts the heading of the
  version and keeps every line; the release notes that \<^verbatim>\<open>release_notes.py\<close> makes from the new log for the tag of the
  version are the lines that were unreleased, with their headings decorated (it fails if there were none); and preparing
  the log again for the version finds that it is up to date.\<close>

theorem release_notes_of_prepared_log:
  assumes "startswith head ''## Unreleased''" "\<forall>l\<in>set pre. \<not> startswith l ''## ''" "\<forall>l\<in>set sect. \<not> startswith l ''## ''"
    and "released version rest"
  shows "\<exists>new. prepare_changelog version date (pre @ head # sect @ rest) = Inr (Some new) \<and>
    new = pre @ head # newline # version_heading version date # sect @ rest \<and>
    get_change_log_notes hs (''v'' @ version) new = (if sect = [] then Inl (Exc Exception [])
      else Inr (''## What'' @ [char_of (39 :: nat)] @ ''s new'' @ newline @ newline @
        strip (concat (map (decorate hs) sect)) @ newline)) \<and>
    prepare_changelog version later new = Inr None"
proof -
  let ?new = "pre @ head # newline # version_heading version date # sect @ rest"
  have nl: "\<not> startswith newline (''#'' @ s)" for s
  proof -
    have "char_of (10 :: nat) \<noteq> CHR ''#''" by code_simp
    then show ?thesis by (simp add: newline_def startswith_def)
  qed
  have h: "startswith head ''## ''" using assms(1) by (auto simp: startswith_def prefix_def)
  have rest: "section_notes hs (''v'' @ version) True rest = []"
    using assms(4) by (cases rest) (auto simp: released_def released_starts)
  have "section_notes hs (''v'' @ version) False ?new = map (decorate hs) sect"
    using assms(1-3) h rest nl [of "''# ''"] heading_starts by (simp add: notes_skip)
  moreover have "scan_changelog version ?new 0 (- 1) = UpToDate"
    using assms(1,2) heading_starts nl [of "''# Unreleased''"] nl [of "''# [v'' @ version @ '']''"] nl [of "''# [v''"]
    by (simp add: scan_skips)
  ultimately show ?thesis
    using prepared_log [OF assms] by (simp add: get_change_log_notes_def prepare_changelog_def)
qed

theorem release_notes_of_prepared_log_witness:
  "\<exists>new notes. prepare_changelog ''0.1'' ''d'' [''## Unreleased'', ''- x''] = Inr (Some new) \<and>
     get_change_log_notes \<lparr>hd_added = [], hd_changed = [], hd_fixed = [], hd_removed = []\<rparr> ''v0.1'' new = Inr notes \<and>
     prepare_changelog ''0.1'' ''e'' new = Inr None"
proof -
  have "startswith ''## Unreleased'' ''## Unreleased''" "\<not> startswith ''- x'' ''## ''" by (simp_all add: startswith_def)
  from release_notes_of_prepared_log [OF this(1), of "[]" "[''- x'']" "''0.1''" "[]" "''d''"
      "\<lparr>hd_added = [], hd_changed = [], hd_fixed = [], hd_removed = []\<rparr>" "''e''"] this(2)
  show ?thesis by (auto simp: released_def)
qed

subsection \<open>Pages of the index\<close>

lemma escape_html_char_safe: "CHR ''<'' \<notin> set (escape_html_char c)"
proof (cases "c = CHR ''<''")
  case True
  have "escape_html_char (CHR ''<'') = ''&lt;''" by code_simp
  with True show ?thesis by simp
next
  case False
  then show ?thesis by (simp add: escape_html_char_def Let_def)
qed

lemma html_escape_safe: "CHR ''<'' \<notin> set (html_escape s)"
  by (simp add: html_escape_def escape_html_char_safe)

text \<open>A name cannot add markup to the page of the package: its anchors are the lines of the files, and the number of
  angle brackets does not depend on the names.\<close>

theorem index_markup:
  "length (filter (\<lambda>c. c = CHR ''<'') (package_index base_url files)) = 5 + 3 * length files"
proof -
  have esc: "filter (\<lambda>c. c = CHR ''<'') (html_escape s) = []" for s
    using html_escape_safe [of s] by (auto simp: filter_empty_conv)
  have line: "length (filter (\<lambda>c. c = CHR ''<'') (wheel_line base_url f)) = 3" for f
  proof -
    have "filter (\<lambda>c. c = CHR ''<'') dq = []" "filter (\<lambda>c. c = CHR ''<'') newline = []" by code_simp+
    then show ?thesis by (simp add: wheel_line_def Let_def esc)
  qed
  have "length (filter (\<lambda>c. c = CHR ''<'') (concat (map (wheel_line base_url) fs))) = 3 * length fs" for fs
    by (induction fs) (simp_all add: line)
  moreover have "length (filter (\<lambda>c. c = CHR ''<'') page_top) = 3" "length (filter (\<lambda>c. c = CHR ''<'') page_end) = 2"
    by code_simp+
  ultimately show ?thesis by (simp add: package_index_def)
qed

end
