(* ===== verification/Smoke.thy ===== *)
theory Smoke
  imports Sessions
begin

section \<open>The external smoke test (\<^verbatim>\<open>scripts/external_smoke.py\<close>)\<close>

text \<open>
  The script takes a Chrome and a Firefox profile with a \<^verbatim>\<open>ja4r\<close> from the registry and requests four servers with each. It
  is the client, the registry and the native library at work together: \<open>handshake\<close> is one \<^verbatim>\<open>client.get\<close>, which starts from
  no headers of its own (\<open>fresh_headers\<close>), \<open>handshakes\<close> the two loops with the counter of failures, \<open>smoke_main\<close> the
  script, with the client it made and the exit code.
\<close>

definition smoke_targets :: "string list" where
  "smoke_targets = [''https://www.google.com'', ''https://www.cloudflare.com'', ''https://www.fastly.com'', ''https://aws.amazon.com'']"

fun ja4r_candidates :: "string \<Rightarrow> registry \<Rightarrow> string list res" where
  "ja4r_candidates start [] = Inr []"
| "ja4r_candidates start ((PStr name, fp) # r) = bindE (ja4r_candidates start r) (\<lambda>names.
     Inr (if startswith name start \<and> py_truth (fp_ja4r fp) then name # names else names))"
| "ja4r_candidates start (_ # r) = Inl (no_attribute ''startswith'')"

definition newest_ja4r_profile :: "string \<Rightarrow> registry \<Rightarrow> string res" where
  "newest_ja4r_profile start r = bindE (ja4r_candidates start (registry_all r)) (\<lambda>names.
     if names = [] then Inl (Exc RuntimeError (''no '' @ start @ ''_* profile with ja4r in registry''))
     else Inr (last (sort names)))"

definition smoke_args :: "string \<Rightarrow> request_args" where
  "smoke_args fp = no_args\<lparr>ra_fingerprint := Some (FPName fp)\<rparr>"

definition handshake :: "api_env \<Rightarrow> client \<Rightarrow> string \<times> string \<Rightarrow> api_state \<times> ffi_state \<Rightarrow> (api_state \<times> ffi_state) \<times> bool" where
  "handshake env c fu s =
    (case api_get env c (snd fu) (smoke_args (fst fu)) [(''timeout'', PInt 25)] (fresh_headers PNone (fst s), snd s) of
       (s', Inl e) \<Rightarrow> (s', False) | (s', Inr resp) \<Rightarrow> (s', status_code resp > 0))"

fun handshakes :: "api_env \<Rightarrow> client \<Rightarrow> (string \<times> string) list \<Rightarrow> api_state \<times> ffi_state \<Rightarrow> (api_state \<times> ffi_state) \<times> nat" where
  "handshakes env c [] s = (s, 0)"
| "handshakes env c (fu # fus) s = (case handshake env c fu s of (s1, ok) \<Rightarrow>
     (case handshakes env c fus s1 of (s2, failures) \<Rightarrow> (s2, if ok then failures else Suc failures)))"

definition smoke_profiles :: "registry \<Rightarrow> string list res" where
  "smoke_profiles r = bindE (newest_ja4r_profile ''chrome_'' r) (\<lambda>chrome.
     bindE (newest_ja4r_profile ''firefox_'' r) (\<lambda>firefox. Inr [chrome, firefox]))"

definition smoke_main :: "api_env \<Rightarrow> batcher_module \<Rightarrow> api_state \<times> ffi_state \<Rightarrow>
    (api_state \<times> ffi_state) \<times> batcher_module \<times> client option \<times> int res" where
  "smoke_main env m s = (case smoke_profiles (e_registry env) of
     Inl e \<Rightarrow> (s, m, None, Inl e)
   | Inr profiles \<Rightarrow> (case client_init False (PInt 32) (PFloat (Fin 1 (- 4))) m of (c, m1) \<Rightarrow>
       (case handshakes env c (List.product profiles smoke_targets) s of (s', failures) \<Rightarrow>
         (case client_close c m1 of (c', m2) \<Rightarrow> (s', m2, Some c', Inr (if failures > 0 then 1 else 0))))))"

subsection \<open>Lemmas\<close>

lemma ja4r_candidates_iff:
  "ja4r_candidates start r = Inr names \<Longrightarrow> x \<in> set names \<longleftrightarrow>
    (\<exists>fp. (PStr x, fp) \<in> set r \<and> startswith x start \<and> py_truth (fp_ja4r fp))"
  by (induction start r arbitrary: names rule: ja4r_candidates.induct) (auto split: if_splits)

lemma last_sort: "xs \<noteq> [] \<Longrightarrow> last (sort xs) \<in> set xs \<and> (\<forall>x \<in> set xs. x \<le> last (sort xs))" for xs :: "'a :: linorder list"
proof -
  assume "xs \<noteq> []"
  then have ne: "sort xs \<noteq> []" by (metis length_0_conv length_sort)
  have "x \<le> last (sort xs)" if "x \<in> set (sort xs)" for x
  proof -
    from that obtain i where i: "i < length (sort xs)" "x = sort xs ! i" unfolding in_set_conv_nth by blast
    then show ?thesis unfolding last_conv_nth [OF ne] by (simp add: sorted_nth_mono)
  qed
  then show ?thesis using last_in_set [OF ne] by simp
qed

text \<open>The last name, in the order of texts, of a profile with a given start and a \<^verbatim>\<open>ja4r\<close>.\<close>

definition newest_with_ja4r :: "registry \<Rightarrow> string \<Rightarrow> string \<Rightarrow> bool" where
  "newest_with_ja4r r start name = ((\<exists>fp. (PStr name, fp) \<in> set r \<and> py_truth (fp_ja4r fp)) \<and> startswith name start \<and>
    (\<forall>x fp. (PStr x, fp) \<in> set r \<longrightarrow> startswith x start \<longrightarrow> py_truth (fp_ja4r fp) \<longrightarrow> x \<le> name))"

lemma newest_ja4r_profile_max:
  assumes "newest_ja4r_profile start r = Inr name"
  shows "newest_with_ja4r r start name"
proof -
  obtain names where n: "ja4r_candidates start r = Inr names" "names \<noteq> []" "name = last (sort names)"
    using assms by (auto simp: newest_ja4r_profile_def registry_all_def split: if_splits)
  have "name \<in> set names" "\<And>x. x \<in> set names \<Longrightarrow> x \<le> name" using last_sort [OF n(2)] n(3) by simp_all
  then show ?thesis 
    unfolding ja4r_candidates_iff [OF n(1)] newest_with_ja4r_def by blast
qed

text \<open>The order of texts is not the order of versions: Chrome 99 is taken for newer than Chrome 120.\<close>

theorem newest_by_text_is_not_newest:
  "newest_ja4r_profile ''chrome_'' (map (\<lambda>n. (PStr n, \<lparr>fp_name = PStr n, fp_ja3 = PStr ''j'', fp_ja4r = PStr ''r'',
      fp_http2_fingerprint = PNone, fp_quic_fingerprint = PNone, fp_user_agent = PNone, fp_header_order = PNone,
      fp_headers = PNone, fp_disable_grease = PNone, fp_force_http1 = PNone, fp_force_http3 = PNone\<rparr>))
      [''chrome_120'', ''chrome_99'']) = Inr ''chrome_99''"
  by code_simp

text \<open>The states between the requests and their results, one request for each pair whatever became of the others.\<close>

definition passed :: "Response res \<Rightarrow> bool" where
  "passed r = (\<exists>resp. r = Inr resp \<and> status_code resp > 0)"

lemma handshake_get:
  assumes "api_get env c (snd fu) (smoke_args (fst fu)) [(''timeout'', PInt 25)] (fresh_headers PNone (fst s), snd s) = (s', r)"
  shows "handshake env c fu s = (s', passed r)"
  using assms by (simp add: handshake_def passed_def split: sum.split)

lemma handshakes_visit:
  "\<exists>states results. length states = Suc (length fus) \<and> length results = length fus \<and> states ! 0 = s \<and>
    states ! length fus = fst (handshakes env c fus s) \<and>
    (\<forall>i < length fus. api_get env c (snd (fus ! i)) (smoke_args (fst (fus ! i))) [(''timeout'', PInt 25)]
       (fresh_headers PNone (fst (states ! i)), snd (states ! i)) = (states ! Suc i, results ! i)) \<and>
    (snd (handshakes env c fus s) = 0 \<longleftrightarrow> (\<forall>i < length fus. passed (results ! i)))"
proof (induction fus arbitrary: s)
  case Nil
  show ?case by (intro exI [of _ "[s]"] exI [of _ "[]"]) simp
next
  case (Cons fu fus)
  obtain s1 r where get: "api_get env c (snd fu) (smoke_args (fst fu)) [(''timeout'', PInt 25)]
      (fresh_headers PNone (fst s), snd s) = (s1, r)" by (metis prod.exhaust)
  have all: "fst (handshakes env c (fu # fus) s) = fst (handshakes env c fus s1)"
    "snd (handshakes env c (fu # fus) s) = 0 \<longleftrightarrow> passed r \<and> snd (handshakes env c fus s1) = 0"
    by (simp_all add: handshake_get [OF get] case_prod_unfold)
  from Cons.IH [of s1] obtain states results where
    "length states = Suc (length fus)" "length results = length fus" "states ! 0 = s1"
    "states ! length fus = fst (handshakes env c fus s1)"
    "\<forall>i < length fus. api_get env c (snd (fus ! i)) (smoke_args (fst (fus ! i))) [(''timeout'', PInt 25)]
       (fresh_headers PNone (fst (states ! i)), snd (states ! i)) = (states ! Suc i, results ! i)"
    "snd (handshakes env c fus s1) = 0 \<longleftrightarrow> (\<forall>i < length fus. passed (results ! i))" by (elim exE conjE)
  then show ?case unfolding all
    by (intro exI [of _ "s # states"] exI [of _ "r # results"]) (simp add: All_less_Suc2 get)
qed

lemma request_balanced:
  assumes "cl_batcher c = None" "request env c meth url a kw (st, f) = ((st', f'), r)"
  shows "balanced f f'"
proof -
  obtain st1 f1 r1 where p: "prepare_request env c meth url a kw (st, f) = ((st1, f1), r1)" by (metis prod.exhaust)
  have f1: "f1 = f" by (rule prepare_request_native [OF p])
  show ?thesis
  proof (cases r1)
    case (Inl e)
    with assms(2) request_raised [OF p [unfolded Inl]] f1 show ?thesis by (simp add: balance.refl)
  next
    case (Inr pl)
    obtain f2 r2 where send: "send_request (e_world env) pl f1 = (f2, r2)" by (metis prod.exhaust)
    then have "f' = f2" using assms(2) request_unbatched [OF assms(1) p [unfolded Inr]]
      by (cases r2) (auto simp: eff_defs onSnd_def)
    then show ?thesis using balance.keepsD [OF keeps_send_request send] f1 by simp
  qed
qed

lemma handshake_balanced: "cl_batcher c = None \<Longrightarrow> balanced (snd s) (snd (fst (handshake env c fu s)))"
proof -
  assume c: "cl_batcher c = None"
  obtain st' f' r where q: "request env c ''get'' (snd fu) (smoke_args (fst fu)) [(''timeout'', PInt 25)]
      (fresh_headers PNone (fst s), snd s) = ((st', f'), r)" by (metis prod.exhaust)
  from request_balanced [OF c q] q show ?thesis by (cases r) (simp_all add: handshake_def api_get_def)
qed

lemma handshakes_balanced: "cl_batcher c = None \<Longrightarrow> balanced (snd s) (snd (fst (handshakes env c fus s)))"
proof (induction fus arbitrary: s)
  case (Cons fu fus)
  have "balanced (snd s) (snd (fst (handshake env c fu s)))" by (rule handshake_balanced [OF Cons.prems])
  moreover have "balanced (snd (fst (handshake env c fu s))) (snd (fst (handshakes env c fus (fst (handshake env c fu s)))))"
    by (rule Cons.IH [OF Cons.prems])
  ultimately show ?case by (auto intro: balance.trans split: prod.splits)
qed (simp add: balance.refl)

subsection \<open>Property\<close>

text \<open>C23. The smoke test passes exactly when every handshake is accepted. If the registry lacks a Chrome or a Firefox profile with
  \<^verbatim>\<open>ja4r\<close> the script raises before it makes a client. Otherwise it takes the last name, in the order of texts, of
  each of the two browsers, and makes one \<^verbatim>\<open>client.get\<close> with that profile, the time-out 25 and no headers of its own for
  each of the eight pairs of a profile and a server, also after failures: each request starts in the state the one before
  it left, the last one leaves the final state. The exit code is 0 if and only if each of the eight returned a response
  with a positive status, and otherwise 1; the client it made is closed, the shared batcher is as before, and no memory
  of the native library is lost.\<close>

theorem smoke_exit_code:
  assumes "smoke_main env m s = (s', m', made, r)"
  shows "m' = m \<and> (case r of
      Inl e \<Rightarrow> made = None \<and> s' = s \<and> smoke_profiles (e_registry env) = Inl e
    | Inr code \<Rightarrow> \<exists>c chrome firefox states results. made = Some c \<and> cl_closed c \<and> balanced (snd s) (snd s') \<and>
        newest_with_ja4r (e_registry env) ''chrome_'' chrome \<and> newest_with_ja4r (e_registry env) ''firefox_'' firefox \<and>
        length states = 9 \<and> length results = 8 \<and> states ! 0 = s \<and> states ! 8 = s' \<and>
        (\<forall>i < 8. case List.product [chrome, firefox] [''https://www.google.com'', ''https://www.cloudflare.com'',
            ''https://www.fastly.com'', ''https://aws.amazon.com''] ! i of (profile, url) \<Rightarrow>
          api_get env (c\<lparr>cl_closed := False\<rparr>) url (no_args\<lparr>ra_fingerprint := Some (FPName profile)\<rparr>)
            [(''timeout'', PInt 25)] (fresh_headers PNone (fst (states ! i)), snd (states ! i)) = (states ! Suc i, results ! i)) \<and>
        code = (if \<forall>i < 8. \<exists>resp. results ! i = Inr resp \<and> status_code resp > 0 then 0 else 1))"
proof (cases "smoke_profiles (e_registry env)")
  case (Inl e)
  with assms show ?thesis by (auto simp: smoke_main_def)
next
  case (Inr profiles)
  obtain chrome firefox where p: "profiles = [chrome, firefox]"
    and newest: "newest_ja4r_profile ''chrome_'' (e_registry env) = Inr chrome"
      "newest_ja4r_profile ''firefox_'' (e_registry env) = Inr firefox" using Inr by (auto simp: smoke_profiles_def)
  define tests where "tests = List.product [chrome, firefox] smoke_targets"
  define c where "c = \<lparr>cl_closed = False, cl_use_batching = False, cl_batcher = None\<rparr>"
  have c: "(c\<lparr>cl_closed := True\<rparr>)\<lparr>cl_closed := False\<rparr> = c" "cl_batcher c = None" by (simp_all add: c_def)
  have eight: "length tests = 8" by (simp add: tests_def smoke_targets_def)
  from assms have out: "s' = fst (handshakes env c tests s)" "m' = m" "made = Some (c\<lparr>cl_closed := True\<rparr>)"
    "r = Inr (if snd (handshakes env c tests s) = 0 then 0 else 1)"
    by (auto simp: smoke_main_def Inr p client_init_def client_close_def c_def tests_def split: prod.splits)
  have bal: "balanced (snd s) (snd s')" unfolding out(1) by (rule handshakes_balanced [OF c(2)])
  have nine: "Suc 8 = 9" by simp
  from handshakes_visit [of tests s env c, unfolded eight nine, folded out(1)] obtain states results where v:
    "length states = 9" "length results = 8" "states ! 0 = s" "states ! 8 = s'"
    "\<forall>i < 8. api_get env c (snd (tests ! i)) (smoke_args (fst (tests ! i))) [(''timeout'', PInt 25)]
       (fresh_headers PNone (fst (states ! i)), snd (states ! i)) = (states ! Suc i, results ! i)"
    "snd (handshakes env c tests s) = 0 \<longleftrightarrow> (\<forall>i < 8. passed (results ! i))"
    by (elim exE conjE)
  have code: "r = Inr (if \<forall>i < 8. \<exists>resp. results ! i = Inr resp \<and> status_code resp > 0 then 0 else 1)"
    unfolding out(4) v(6) passed_def ..
  have calls: "\<forall>i < 8. case tests ! i of (profile, url) \<Rightarrow>
      api_get env ((c\<lparr>cl_closed := True\<rparr>)\<lparr>cl_closed := False\<rparr>) url (no_args\<lparr>ra_fingerprint := Some (FPName profile)\<rparr>)
        [(''timeout'', PInt 25)] (fresh_headers PNone (fst (states ! i)), snd (states ! i)) = (states ! Suc i, results ! i)"
    using v(5) unfolding c(1) smoke_args_def case_prod_unfold .
  have closed: "cl_closed (c\<lparr>cl_closed := True\<rparr>)" by simp
  show ?thesis unfolding out(2) code sum.case
    using out(3) closed bal newest_ja4r_profile_max [OF newest(1)] newest_ja4r_profile_max [OF newest(2)] v(1-4)
      calls [unfolded tests_def smoke_targets_def] by blast
qed

definition smoke_registry :: registry where
  "smoke_registry = map (\<lambda>n. (PStr n, \<lparr>fp_name = PStr n, fp_ja3 = PStr ''j'', fp_ja4r = PStr ''r'',
     fp_http2_fingerprint = PNone, fp_quic_fingerprint = PNone, fp_user_agent = PNone, fp_header_order = PNone,
     fp_headers = PNone, fp_disable_grease = PNone, fp_force_http1 = PNone, fp_force_http3 = PNone\<rparr>))
     [''chrome_120'', ''firefox_121'']"

theorem smoke_exit_code_witness:
  "\<exists>s' m' c. smoke_main (example_env\<lparr>e_registry := smoke_registry\<rparr>) \<lparr>global_batcher = None, objects = []\<rparr> example_state = (s', m', Some c, Inr 0) \<and>
     cl_closed c"
proof -
  let ?m = "smoke_main (example_env\<lparr>e_registry := smoke_registry\<rparr>) \<lparr>global_batcher = None, objects = []\<rparr> example_state"
  have "snd (snd (snd ?m)) = Inr 0" by code_simp
  then obtain s' m' made where q: "?m = (s', m', made, Inr 0)" by (cases ?m) auto
  from smoke_exit_code [OF q] q show ?thesis by (auto simp: Let_def)
qed

end
