(* ===== verification/Bench.thy ===== *)
theory Bench
  imports Sessions
begin

section \<open>The benchmark harness (\<^verbatim>\<open>benchmarks/core.py\<close>)\<close>

text \<open>
  The synchronous part of the harness, over any HTTP library: \<open>bench_lib\<close> is what the harness calls of a session class, the
  constructor, \<^verbatim>\<open>get\<close>, the attributes of a response it reads and \<^verbatim>\<open>close\<close> (\<open>None\<close> where the class has no such method). The
  libraries it is compared with are third-party; \<open>cycletls_lib\<close> is the wrapper \<^verbatim>\<open>CycleTLSSession\<close> over the client of this
  package, with the clients made so far as its state. Times are integers in an arbitrary unit, given by the clocks of
  \<open>bench_clock\<close>; a rate is kept as the quotient it is computed from.
\<close>

record ('s, 'h, 'r) bench_lib =
  bl_new :: "('s, 'h) eff"
  bl_get :: "'h \<Rightarrow> string \<Rightarrow> ('s, 'r) eff"
  bl_text :: "'r \<Rightarrow> pyval res option"
  bl_body :: "'r \<Rightarrow> pyval res"
  bl_close :: "('h \<Rightarrow> ('s, unit) eff) option"

record 's bench_clock =
  bc_cpu :: "('s, int) eff"
  bc_wall :: "('s, int) eff"

definition response_text_of :: "('s, 'h, 'r) bench_lib \<Rightarrow> string \<Rightarrow> 'r \<Rightarrow> pyval res" where
  "response_text_of l library r = (if library = ''pycurl''
     then (case bl_text l r of Some t \<Rightarrow> t | None \<Rightarrow> Inl (no_attribute ''text''))
     else (case bl_text l r of Some t \<Rightarrow> t | None \<Rightarrow> bl_body l r))"

definition execute_request :: "('s, 'h, 'r) bench_lib \<Rightarrow> 'h \<Rightarrow> string \<Rightarrow> string \<Rightarrow> ('s, pyval option) eff" where
  "execute_request l session url library =
     tryX (bindX (bl_get l session url) (\<lambda>r. bindX (liftX (response_text_of l library r)) (\<lambda>t. retX (Some t))))
       Exception (\<lambda>_. retX None)"

definition safe_close_session :: "('s, 'h, 'r) bench_lib \<Rightarrow> 'h \<Rightarrow> ('s, unit) eff" where
  "safe_close_session l session = (case bl_close l of
     None \<Rightarrow> retX () | Some close \<Rightarrow> tryX (close session) Exception (\<lambda>_. retX ()))"

fun repeatX :: "nat \<Rightarrow> ('s, 'a) eff \<Rightarrow> ('s, unit) eff" where
  "repeatX 0 m = retX ()"
| "repeatX (Suc n) m = thenX m (repeatX n m)"

definition session_get_test :: "('s, 'h, 'r) bench_lib \<Rightarrow> string \<Rightarrow> nat \<Rightarrow> string \<Rightarrow> ('s, unit) eff" where
  "session_get_test l url requests_count library = bindX (bl_new l) (\<lambda>session.
     finallyX (repeatX requests_count (execute_request l session url library)) (\<lambda>s. fst (safe_close_session l session s)))"

definition non_session_get_test :: "('s, 'h, 'r) bench_lib \<Rightarrow> string \<Rightarrow> nat \<Rightarrow> string \<Rightarrow> ('s, unit) eff" where
  "non_session_get_test l url requests_count library = repeatX requests_count (bindX (bl_new l) (\<lambda>session.
     finallyX (execute_request l session url library) (\<lambda>s. fst (safe_close_session l session s))))"

definition execute_timed_test :: "'s bench_clock \<Rightarrow> ('s, unit) eff \<Rightarrow> ('s, int \<times> int) eff" where
  "execute_timed_test k test =
     bindX (bc_cpu k) (\<lambda>cpu_start. bindX (bc_wall k) (\<lambda>wall_start. thenX test
       (bindX (bc_wall k) (\<lambda>wall_end. bindX (bc_cpu k) (\<lambda>cpu_end. retX (wall_end - wall_start, cpu_end - cpu_start))))))"

datatype rate = Zero | Quotient int int

record test_result =
  tr_library :: string
  tr_version :: string
  tr_session_type :: string
  tr_payload_size :: string
  tr_requests :: nat
  tr_wall_time :: int
  tr_cpu_time :: int
  tr_req_per_sec :: rate
  tr_us_per_req :: rate

definition record_test_result :: "string \<Rightarrow> string \<Rightarrow> string \<Rightarrow> string \<Rightarrow> nat \<Rightarrow> int \<Rightarrow> int \<Rightarrow> test_result res" where
  "record_test_result library version session_type payload_kind requests_count wall_time cpu_time =
    (if wall_time > 0 \<and> requests_count = 0 then Inl (Exc ArithmeticError ''division by zero'')
     else Inr \<lparr>tr_library = library, tr_version = version, tr_session_type = session_type, tr_payload_size = payload_kind,
       tr_requests = requests_count, tr_wall_time = wall_time, tr_cpu_time = cpu_time,
       tr_req_per_sec = (if wall_time > 0 then Quotient (int requests_count) wall_time else Zero),
       tr_us_per_req = (if wall_time > 0 then Quotient (wall_time * 1000000) (int requests_count) else Zero)\<rparr>)"

text \<open>The code's \<^verbatim>\<open>url.split('/')[-1] if '/' in url else 'unknown'\<close>.\<close>

definition payload_size :: "string \<Rightarrow> string" where
  "payload_size url = (if CHR ''/'' \<in> set url then last (split_on (CHR ''/'') url) else ''unknown'')"

text \<open>One measurement with its \<^verbatim>\<open>try\<close>: a failure is printed and leaves no result.\<close>

definition run_test :: "'s bench_clock \<Rightarrow> ('s, unit) eff \<Rightarrow> string \<Rightarrow> string \<Rightarrow> string \<Rightarrow> string \<Rightarrow> nat \<Rightarrow> ('s, test_result list) eff" where
  "run_test k test library version session_type payload_kind requests_count =
     tryX (bindX (execute_timed_test k test) (\<lambda>(wall_time, cpu_time).
       bindX (liftX (record_test_result library version session_type payload_kind requests_count wall_time cpu_time)) (\<lambda>r. retX [r])))
       Exception (\<lambda>_. retX [])"

fun run_sync_tests :: "'s bench_clock \<Rightarrow> (string \<times> ('s, 'h, 'r) bench_lib \<times> string) list \<Rightarrow> string \<Rightarrow> nat \<Rightarrow>
    ('s, test_result list) eff" where
  "run_sync_tests k [] url requests_count = retX []"
| "run_sync_tests k ((library, l, version) # packages) url requests_count =
     bindX (run_test k (session_get_test l url requests_count library) library version ''sync_session''
       (payload_size url) requests_count) (\<lambda>rs1.
     bindX (run_test k (non_session_get_test l url requests_count library) library version ''sync_no_session''
       (payload_size url) requests_count) (\<lambda>rs2.
     bindX (run_sync_tests k packages url requests_count) (\<lambda>rs. retX (rs1 @ rs2 @ rs))))"

text \<open>The comparison with the row of \<^verbatim>\<open>requests\<close>; \<open>fmt\<close> prints a quotient with one decimal and an x.\<close>

definition baseline_row :: "test_result \<Rightarrow> bool" where
  "baseline_row r = (tr_library r = ''requests'' \<and> tr_session_type r = ''sync_session'')"

definition compute_vs_requests :: "(int \<Rightarrow> int \<Rightarrow> string) \<Rightarrow> test_result list \<Rightarrow> (test_result \<times> string) list" where
  "compute_vs_requests fmt results = (case find baseline_row results of
     None \<Rightarrow> map (\<lambda>r. (r, ''N/A'')) results
   | Some b \<Rightarrow> map (\<lambda>r. (r, if baseline_row r then ''baseline''
       else if tr_wall_time r > 0 \<and> tr_wall_time b > 0 then fmt (tr_wall_time b) (tr_wall_time r) else ''N/A'')) results)"

subsection \<open>The client of this package\<close>

record bench_state =
  bs_clients :: "client list"
  bs_module :: batcher_module
  bs_api :: "api_state \<times> ffi_state"

definition cycletls_new :: "(bench_state, nat) eff" where
  "cycletls_new s = (case client_init False (PInt 32) (PFloat (Fin 1 (- 4))) (bs_module s) of (c, m) \<Rightarrow>
     (s\<lparr>bs_clients := bs_clients s @ [c], bs_module := m\<rparr>, Inr (length (bs_clients s))))"

definition cycletls_get :: "api_env \<Rightarrow> nat \<Rightarrow> string \<Rightarrow> (bench_state, Response) eff" where
  "cycletls_get env i url s = (case bs_api s of (st, f) \<Rightarrow>
     (case api_get env (bs_clients s ! i) url no_args [] (fresh_headers PNone st, f) of (api, r) \<Rightarrow> (s\<lparr>bs_api := api\<rparr>, r)))"

definition cycletls_close :: "nat \<Rightarrow> (bench_state, unit) eff" where
  "cycletls_close i s = (case client_close (bs_clients s ! i) (bs_module s) of (c, m) \<Rightarrow>
     (s\<lparr>bs_clients := (bs_clients s)[i := c], bs_module := m\<rparr>, Inr ()))"

definition cycletls_lib :: "api_env \<Rightarrow> (bench_state, nat, Response) bench_lib" where
  "cycletls_lib env = \<lparr>bl_new = cycletls_new, bl_get = cycletls_get env, bl_text = (\<lambda>r. Some (Inr (response_text r))),
     bl_body = (\<lambda>r. Inl (no_attribute ''decode'')), bl_close = Some cycletls_close\<rparr>"

definition closed_client :: client where
  "closed_client = \<lparr>cl_closed = True, cl_use_batching = False, cl_batcher = None\<rparr>"

subsection \<open>Lemmas\<close>

lemma execute_request_returns: "\<exists>s' v. execute_request l h url library s = (s', Inr v)"
proof -
  let ?m = "bindX (bl_get l h url) (\<lambda>r. bindX (liftX (response_text_of l library r)) (\<lambda>t. retX (Some t)))"
  obtain s1 r where m: "?m s = (s1, r)" by (cases "?m s")
  then show ?thesis
    by (cases r) (auto simp: execute_request_def tryX_Inl tryX_Inr retX_def isinstance_Exception)
qed

lemma cycletls_lib_simps: "bl_get (cycletls_lib env) = cycletls_get env"
    "response_text_of (cycletls_lib env) library r = Inr (response_text r)"
  by (simp_all add: cycletls_lib_def response_text_of_def)

lemma execute_cycletls: "\<exists>s' v. execute_request (cycletls_lib env) i url library s = (s', Inr v) \<and>
    bs_clients s' = bs_clients s \<and> bs_module s' = bs_module s"
proof -
  obtain s' v where e: "execute_request (cycletls_lib env) i url library s = (s', Inr v)"
    using execute_request_returns [of "cycletls_lib env" i url library s] by blast
  obtain s1 r where g: "cycletls_get env i url s = (s1, r)" by (cases "cycletls_get env i url s")
  then have "bs_clients s1 = bs_clients s \<and> bs_module s1 = bs_module s"
    by (auto simp: cycletls_get_def split: prod.splits)
  with e g show ?thesis
    by (cases r) (auto simp: execute_request_def cycletls_lib_simps eff_defs isinstance_Exception)
qed

lemma repeat_execute: "\<exists>s'. repeatX n (execute_request (cycletls_lib env) i url library) s = (s', Inr ()) \<and>
    bs_clients s' = bs_clients s \<and> bs_module s' = bs_module s"
proof (induction n arbitrary: s)
  case (Suc n)
  obtain s1 v where e: "execute_request (cycletls_lib env) i url library s = (s1, Inr v)" "bs_clients s1 = bs_clients s"
    "bs_module s1 = bs_module s" using execute_cycletls by blast
  from Suc.IH [of s1] e show ?case by (auto simp: thenX_Inr)
qed (simp add: retX_def)

lemma new_cycletls: "\<exists>s'. bl_new (cycletls_lib env) s = (s', Inr (length (bs_clients s))) \<and>
    bs_clients s' = bs_clients s @ [\<lparr>cl_closed = False, cl_use_batching = False, cl_batcher = None\<rparr>]"
  by (simp add: cycletls_lib_def cycletls_new_def client_init_def)

lemma close_cycletls: "bs_clients s = cs @ [\<lparr>cl_closed = False, cl_use_batching = False, cl_batcher = None\<rparr>] \<Longrightarrow>
    bs_clients (fst (safe_close_session (cycletls_lib env) (length cs) s)) = cs @ [closed_client]"
  by (simp add: safe_close_session_def cycletls_lib_def cycletls_close_def client_close_def tryX_def closed_client_def)

lemma session_cycletls: "\<exists>s'. session_get_test (cycletls_lib env) url n library s = (s', Inr ()) \<and>
    bs_clients s' = bs_clients s @ [closed_client]"
proof -
  obtain s1 where s1: "bl_new (cycletls_lib env) s = (s1, Inr (length (bs_clients s)))"
    "bs_clients s1 = bs_clients s @ [\<lparr>cl_closed = False, cl_use_batching = False, cl_batcher = None\<rparr>]"
    using new_cycletls by blast
  obtain s2 where s2: "repeatX n (execute_request (cycletls_lib env) (length (bs_clients s)) url library) s1 = (s2, Inr ())"
    "bs_clients s2 = bs_clients s1" using repeat_execute by blast
  show ?thesis using s1 s2 close_cycletls [of s2 "bs_clients s" env] by (simp add: session_get_test_def bindX_def finallyX_def)
qed

lemma one_cycletls: "\<exists>s' v. bindX (bl_new (cycletls_lib env)) (\<lambda>session. finallyX (execute_request (cycletls_lib env) session url library)
    (\<lambda>s. fst (safe_close_session (cycletls_lib env) session s))) s = (s', Inr v) \<and> bs_clients s' = bs_clients s @ [closed_client]"
proof -
  obtain s1 where s1: "bl_new (cycletls_lib env) s = (s1, Inr (length (bs_clients s)))"
    "bs_clients s1 = bs_clients s @ [\<lparr>cl_closed = False, cl_use_batching = False, cl_batcher = None\<rparr>]"
    using new_cycletls by blast
  obtain s2 v where s2: "execute_request (cycletls_lib env) (length (bs_clients s)) url library s1 = (s2, Inr v)"
    "bs_clients s2 = bs_clients s1" using execute_cycletls by blast
  show ?thesis using s1 s2 close_cycletls [of s2 "bs_clients s" env] by (simp add: bindX_def finallyX_def)
qed

lemma non_session_cycletls: "\<exists>s'. non_session_get_test (cycletls_lib env) url n library s = (s', Inr ()) \<and>
    bs_clients s' = bs_clients s @ replicate n closed_client"
  unfolding non_session_get_test_def
proof (induction n arbitrary: s)
  case (Suc n)
  obtain s1 v where s1: "bindX (bl_new (cycletls_lib env)) (\<lambda>session. finallyX (execute_request (cycletls_lib env) session url library)
    (\<lambda>s. fst (safe_close_session (cycletls_lib env) session s))) s = (s1, Inr v)" "bs_clients s1 = bs_clients s @ [closed_client]"
    using one_cycletls by blast
  from Suc.IH [of s1] s1 show ?case by (auto simp: thenX_Inr)
qed (simp add: retX_def)

definition steady_clock :: "'s bench_clock \<Rightarrow> bool" where
  "steady_clock k = (\<forall>s. (\<exists>t. bc_cpu k s = (s, Inr t)) \<and> (\<exists>t. bc_wall k s = (s, Inr t)))"

lemma run_test_measures:
  assumes "steady_clock k" "test s = (s', Inr ())" "n > 0"
  shows "\<exists>r. run_test k test library version kind payload_kind n s = (s', Inr [r]) \<and> tr_requests r = n \<and> tr_session_type r = kind"
proof -
  obtain c0 w0 c1 w1 where "bc_cpu k s = (s, Inr c0)" "bc_wall k s = (s, Inr w0)" "bc_cpu k s' = (s', Inr c1)"
    "bc_wall k s' = (s', Inr w1)" using assms(1) unfolding steady_clock_def by meson
  then have "execute_timed_test k test s = (s', Inr (w1 - w0, c1 - c0))"
    using assms(2) by (simp add: execute_timed_test_def bindX_def thenX_def retX_def)
  then show ?thesis using assms(3)
    by (simp add: run_test_def tryX_def bindX_def liftX_def retX_def record_test_result_def)
qed

subsection \<open>Property\<close>

text \<open>C30. The harness closes every client it makes, and it measures failures as if they were answers: a run for this package makes
  one client for the test with a session and one for each request of the test without, closes all of them and leaves the ones
  made before alone; and it records two results that claim all \<open>n\<close> requests, whatever became of them: even a library that
  cannot be loaded, or a server that refuses every connection, gives a row with a rate.\<close>

theorem benchmark_counts_failures:
  assumes "run_sync_tests k [(library, cycletls_lib env, version)] url n s = (s', r)" "steady_clock k" "n > 0"
  shows "bs_clients s' = bs_clients s @ replicate (Suc n) closed_client \<and>
    (\<exists>a b. r = Inr [a, b] \<and> tr_requests a = n \<and> tr_requests b = n \<and>
      tr_session_type a = ''sync_session'' \<and> tr_session_type b = ''sync_no_session'')"
proof -
  obtain s1 where s1: "session_get_test (cycletls_lib env) url n library s = (s1, Inr ())"
    "bs_clients s1 = bs_clients s @ [closed_client]" using session_cycletls by blast
  obtain s2 where s2: "non_session_get_test (cycletls_lib env) url n library s1 = (s2, Inr ())"
    "bs_clients s2 = bs_clients s1 @ replicate n closed_client" using non_session_cycletls by blast
  obtain a where a: "run_test k (session_get_test (cycletls_lib env) url n library) library version ''sync_session''
      (payload_size url) n s = (s1, Inr [a])" "tr_requests a = n" "tr_session_type a = ''sync_session''"
    using run_test_measures [where test = "session_get_test (cycletls_lib env) url n library", OF assms(2) s1(1) assms(3)] by blast
  obtain b where b: "run_test k (non_session_get_test (cycletls_lib env) url n library) library version ''sync_no_session''
      (payload_size url) n s1 = (s2, Inr [b])" "tr_requests b = n" "tr_session_type b = ''sync_no_session''"
    using run_test_measures [where test = "non_session_get_test (cycletls_lib env) url n library", OF assms(2) s2(1) assms(3)] by blast
  have "(s', r) = (s2, Inr [a, b])"
    using assms(1) a(1) b(1) by (simp add: bindX_def retX_def)
  then show ?thesis using a(2,3) b(2,3) s1(2) s2(2) by simp
qed

definition no_library_env :: api_env where
  "no_library_env = example_env\<lparr>e_world := example_world\<lparr>w_exists := (\<lambda>_. False)\<rparr>\<rparr>"

theorem benchmark_counts_failures_witness:
  "\<exists>s' a b. run_sync_tests \<lparr>bc_cpu = retX 0, bc_wall = retX 0\<rparr> [(''cycletls'', cycletls_lib no_library_env, ''1'')] ''http://a/20k'' 2
      \<lparr>bs_clients = [], bs_module = \<lparr>global_batcher = None, objects = []\<rparr>, bs_api = example_state\<rparr> = (s', Inr [a, b]) \<and>
     tr_requests a = 2 \<and> length (bs_clients s') = 3"
proof -
  let ?k = "\<lparr>bc_cpu = retX 0, bc_wall = retX 0\<rparr> :: bench_state bench_clock"
  let ?s = "\<lparr>bs_clients = [], bs_module = \<lparr>global_batcher = None, objects = []\<rparr>, bs_api = example_state\<rparr>"
  let ?t = "[(''cycletls'', cycletls_lib no_library_env, ''1'')]"
  obtain s' r where q: "run_sync_tests ?k ?t ''http://a/20k'' 2 ?s = (s', r)" by (metis prod.exhaust)
  have "steady_clock ?k" by (simp add: steady_clock_def retX_def)
  from benchmark_counts_failures [OF q this] q show ?thesis by auto
qed

end
