(* ===== verification/Spec2Isabelle.thy ===== *)
theory Spec2Isabelle
  imports Prelude Exceptions Pyval Structures Codec Schema Config Global Batcher Fingerprints Effects FFI WebSocket ServerEvents
    Urls Api Multipart Delivery Wire Sessions AsyncApi ModuleApi Plugins
    Packaging Capture Android Maintenance Smoke Bench
begin

text \<open>
  \<^bold>\<open>A verification of the Python package\<close> \<^verbatim>\<open>cycletls\<close>: an HTTP client that drives a Go library over a C interface, with
  TLS fingerprints, sessions, request batching, WebSockets and server-sent events; and of the scripts that build the
  package and capture its fingerprints. Paths below are relative to \<^verbatim>\<open>src/\<close>, or to \<^verbatim>\<open>src/cycletls/\<close> where the name is
  that of a module of the package.

  \<^bold>\<open>How the program works.\<close> A call of the package (\<^verbatim>\<open>__init__.py\<close>) takes the global session (\<^verbatim>\<open>_global.py\<close>), merges the
  configured defaults (\<^verbatim>\<open>_config.py\<close>) into its options and calls the client (\<^verbatim>\<open>api.py\<close>). The client prepares the options:
  it merges query parameters, authentication, files, JSON bodies, the profile of a browser (\<^verbatim>\<open>fingerprints.py\<close>) and
  cookies (\<^verbatim>\<open>structures.py\<close>), makes a \<^verbatim>\<open>Request\<close> (\<^verbatim>\<open>schema.py\<close>) and turns it into the dictionary the Go library decodes.
  The dictionary goes to the library (\<^verbatim>\<open>_ffi.py\<close>) directly, through the polling or the notifying coroutines, or through the
  background thread that batches requests (\<^verbatim>\<open>_batcher.py\<close>). The reply becomes a \<^verbatim>\<open>Response\<close> or an exception
  (\<^verbatim>\<open>schema.py\<close>, \<^verbatim>\<open>exceptions.py\<close>). A session (\<^verbatim>\<open>sessions.py\<close>) keeps headers, cookies and credentials between requests.
  Profiles come from files (\<^verbatim>\<open>fingerprints.py\<close>, \<^verbatim>\<open>plugins.py\<close>), which \<^verbatim>\<open>scripts/capture_browser_fingerprints.py\<close> writes and
  \<^verbatim>\<open>scripts/backfill_headers.py\<close> completes; the library comes from the wheel that \<^verbatim>\<open>hatch_build.py\<close> makes.

  \<^bold>\<open>The theories\<close>, each of which opens with what it holds:
  \<^item> \<open>Prelude\<close>: dictionaries in insertion order (\<open>dset\<close>, \<open>ddel\<close>, \<open>dupdate\<close>), results that may be an exception (\<open>bindE\<close>,
    \<open>mapE\<close>), the string methods the sources call, and the locale \<open>keyed_store\<close>: what a lookup returns after an update or a
    removal, for dictionaries that may identify keys. It is interpreted for plain dictionaries there (\<open>pydict\<close>) and for
    header dictionaries and cookie jars in \<open>Structures\<close> (\<open>cid\<close>, \<open>jar\<close>).
  \<^item> \<open>Exceptions\<close> (\<^verbatim>\<open>exceptions.py\<close>), \<open>Pyval\<close> (dynamic values, their truth, text and numbers), \<open>Codec\<close> (UTF-8 and base64).
  \<^item> \<open>Structures\<close> (\<^verbatim>\<open>structures.py\<close>): \<open>CaseInsensitiveDict\<close> and \<open>CookieJar\<close> with their representation invariants \<open>cid_ok\<close> and
    \<open>jar_ok\<close>. \<open>Schema\<close> (\<^verbatim>\<open>schema.py\<close>): \<open>Request\<close>, \<open>Response\<close>, \<open>raise_for_error_response\<close>, the wire format of cookies.
    \<open>Wire\<close>: the values and names of the options that are sent, against the fields of the Go struct that decodes them.
  \<^item> \<open>Config\<close> (\<^verbatim>\<open>_config.py\<close>): the defaults with their cache, and the effective options as their specification. \<open>Global\<close>
    (\<^verbatim>\<open>_global.py\<close>): the functions on the globals and the step relation \<open>gstep\<close>, threads interleaved at single reads and writes,
    with its invariants (\<open>lock_ok\<close>, \<open>register_ok\<close>, \<open>no_leak\<close>).
  \<^item> \<open>Batcher\<close> (\<^verbatim>\<open>_batcher.py\<close>): the step relations \<open>worker_step\<close> and \<open>caller_step\<close>; the queue is the locale \<open>fifo\<close>, interpreted
    for the lists of the model. The clock is nondeterministic and \<^verbatim>\<open>batch_fn\<close> is unrestricted.
  \<^item> \<open>Fingerprints\<close> (\<^verbatim>\<open>fingerprints.py\<close>) and \<open>Plugins\<close> (\<^verbatim>\<open>plugins.py\<close>): profiles, the registry, files, captures.
  \<^item> \<open>Effects\<close>: computations that change a state and may raise (\<open>bindX\<close>, \<open>tryX\<close>, \<open>finallyX\<close>). The locale \<open>state_relation\<close> proves
    that a relation between the states before and after holds along the structure of the code; it is interpreted for the
    memory of the library (\<open>balance\<close> in \<open>FFI\<close>), for the handles of connections (\<open>ws_keeps\<close>, \<open>sse_keeps\<close>), for client
    operations that do not reach the library (\<open>client_only\<close>), for operations without external actions (\<open>quiet\<close>), for runs
    that write no file and for histories that grow (\<open>silent\<close>, \<open>growing\<close>). The locale \<open>closable\<close> is the contract of \<^verbatim>\<open>close\<close> and of \<^verbatim>\<open>with\<close> blocks, interpreted for both
    kinds of connections.
  \<^item> \<open>FFI\<close> (\<^verbatim>\<open>_ffi.py\<close>): loading the library, the memory it returns, both modes of transfer, batches, polling and notifying
    coroutines and \<open>gather\<close>. \<open>WebSocket\<close> (\<^verbatim>\<open>websocket.py\<close>) and \<open>ServerEvents\<close> (\<^verbatim>\<open>sse.py\<close>): the connections over it.
  \<^item> \<open>Urls\<close> (what \<^verbatim>\<open>api.py\<close> uses of \<^verbatim>\<open>urllib.parse\<close>), \<open>Api\<close> and \<open>AsyncApi\<close> (\<^verbatim>\<open>api.py\<close>, \<^verbatim>\<open>async_api.py\<close>), \<open>Multipart\<close>
    (a reader of the bodies that the encoder of files in \<open>Api\<close> writes), \<open>Delivery\<close> (the asynchronous paths: whose reply a
    coroutine returns, and that every way of sending gives the same response), \<open>Sessions\<close>
    (\<^verbatim>\<open>sessions.py\<close>), \<open>ModuleApi\<close> (\<^verbatim>\<open>__init__.py\<close>).
  \<^item> \<open>Packaging\<close> (\<^verbatim>\<open>hatch_build.py\<close>), \<open>Capture\<close> and \<open>Android\<close> (\<^verbatim>\<open>scripts/capture_browser_fingerprints.py\<close>), \<open>Maintenance\<close>
    (\<^verbatim>\<open>scripts/backfill_headers.py\<close>, \<^verbatim>\<open>prepare_changelog.py\<close>, \<^verbatim>\<open>release_notes.py\<close>, \<^verbatim>\<open>generate_pep503_index.py\<close>), \<open>Smoke\<close>
    (\<^verbatim>\<open>scripts/external_smoke.py\<close>) and \<open>Bench\<close> (\<^verbatim>\<open>benchmarks/core.py\<close>).

  \<^bold>\<open>State and names.\<close> A class is a record with the prefix of the class on its fields (\<open>cl_\<close>, \<open>se_\<close>, \<open>ws_\<close>, \<open>sse_\<close>), a module's
  globals are a record (\<open>config_state\<close>, \<open>global_vars\<close>, \<open>ffi_state\<close>, \<open>module_state\<close>), an enum is a datatype, a raise is
  \<open>Inl\<close> of a \<open>pyexc\<close>. Definitions have the names of the functions without leading underscores, with a prefix where two
  classes share a name.

  \<^bold>\<open>What the properties show.\<close> Error replies of the library are classified as documented and nothing else is raised; memory
  and descriptors of the library are balanced on every path of every operation; batches give every future the outcome
  of its own position (\<open>own_outcome\<close>, stated without the code of \<^verbatim>\<open>_flush\<close>) and a shutdown resolves what was submitted
  before its final drain; the global session is made once and not leaked under every interleaving in the process that
  imported the module, and neither in a child forked from it;
  a batch returns the replies of its own requests under every interleaving, and a request has the same outcome however it is sent;
  merges of defaults, sessions and profiles implement their specifications; codecs, files and captures round-trip;
  waits and retries end; a wheel contains a library its installation loads. Where the code does not do what it means to, a
  theorem states what it does instead (the shared batcher closed by one client, the reset of the global session in a
  forked child without the lock, an option with a name the Go library does not know, options changed in place,
  requests after the end of the batcher, notification after a time-out).

  \<^bold>\<open>Parameters.\<close> What is not Python code of the repository is an argument: \<open>ffi_world\<close> (the Go library, the operating system,
  the clock, msgpack), \<open>api_env\<close> (JSON text, random boundaries, ISO dates, the guess of a file's type), \<open>fs\<close> and \<open>listing\<close>
  (files), \<open>build_env\<close> (the build script), \<open>cap_world\<close> (browsers, devices, \<^verbatim>\<open>adb\<close>, JSON and XML parsers, the clock), \<^verbatim>\<open>git\<close> and the
  comparison of versions. Their answers may depend on all that happened before, through the number of external actions so far.

  \<^bold>\<open>Fuel.\<close> \<open>run_coroutine\<close> and the coroutines of \<open>FFI\<close> take a number of turns and give \<open>None\<close> when it is used up:
  \<open>polling_terminates\<close> shows how many are enough for a clock that advances. \<open>ws_iter\<close> and \<open>sse_iter\<close> take the number of
  messages the consumer asks for, since a generator runs only as long as it is asked. The waits of \<open>Android\<close> have no fuel: they
  end by the measure of the time left, since sleeping advances the clock.

  \<^bold>\<open>Limits.\<close> Strings have the characters U+0000 to U+00FF; headings of the release notes with emoji are arguments. Integers of
  Python are unbounded and so are those of the model; bytes are words of 8 bits. Floats are decimals as \<^verbatim>\<open>repr\<close> prints them. The status of a
  reply is an integer. Listing a directory and testing that a file exists do not fail. The preparation of a request by a
  session makes a new dictionary of headers, so that of its caller is the same afterwards by the definition of
  \<open>session_request\<close>.

  \<^bold>\<open>Not modelled\<close>: the Go library (another language); messages of loggers and terminals, deprecation warnings and the parsing
  of command lines (no state); \<^verbatim>\<open>__version__.py\<close> (constants);
  \<^verbatim>\<open>scripts/personalize.py\<close> (interactive, for the template the repository was made from); of the benchmarks the asynchronous
  tests, other libraries and the charts; and the examples and tests, which call the package and print.
\<close>

section \<open>Properties that span components\<close>

lemma client_init_batching:
  "client_init True bs fi m =
    (\<lparr>cl_closed = False, cl_use_batching = True, cl_batcher = Some (fst (get_batcher bs fi m))\<rparr>, snd (get_batcher bs fi m))"
  by (simp add: client_init_def split: prod.split)

text \<open>C31. Batching clients share one batcher, and \<^verbatim>\<open>close\<close> of any of them shuts it down: of two clients made with
  \<^verbatim>\<open>use_batching=True\<close> the second gets the batcher of the first, with the batch size and the interval the first asked
  for, and when the first is closed the second is still open but holds a batcher whose \<^verbatim>\<open>shutdown\<close> was called.
  A client made afterwards gets a new, running batcher. \<^verbatim>\<open>aclose\<close> in its place leaves the batcher running.\<close>

theorem close_shuts_down_shared_batcher:
  assumes "module_ok m" "global_batcher m = None"
    and "client_init True bs1 fi1 m = (c1, m1)" "client_init True bs2 fi2 m1 = (c2, m2)"
    and "client_close c1 m2 = (c1', m3)" "client_init True bs3 fi3 m3 = (c3, m4)"
  shows "\<exists>i j. cl_batcher c1 = Some i \<and> cl_batcher c2 = Some i \<and> m2 = m1 \<and> \<not> obj_shut (objects m2 ! i) \<and>
    obj_batch_size (objects m2 ! i) = bs1 \<and> obj_flush_interval (objects m2 ! i) = fi1 \<and>
    cl_closed c1' \<and> cl_batcher c1' = None \<and> \<not> cl_closed c2 \<and> obj_shut (objects m3 ! i) \<and>
    cl_batcher c3 = Some j \<and> j \<noteq> i \<and> \<not> obj_shut (objects m4 ! j) \<and>
    cl_closed (client_aclose c1) \<and> cl_batcher (client_aclose c1) = Some i"
  using assms
  by (auto simp: client_init_batching client_close_def client_aclose_def get_batcher_def shutdown_batcher_def Let_def nth_append)

theorem close_shuts_down_shared_batcher_witness:
  "\<exists>c1 c2 c1' m1 m2 m3. client_init True (PInt 32) PNone \<lparr>global_batcher = None, objects = []\<rparr> = (c1, m1) \<and>
     client_init True (PInt 8) PNone m1 = (c2, m2) \<and> client_close c1 m2 = (c1', m3) \<and>
     \<not> cl_closed c2 \<and> (\<exists>i. cl_batcher c2 = Some i \<and> obj_shut (objects m3 ! i))"
proof -
  obtain c1 m1 where 1: "client_init True (PInt 32) PNone \<lparr>global_batcher = None, objects = []\<rparr> = (c1, m1)" by force
  obtain c2 m2 where 2: "client_init True (PInt 8) PNone m1 = (c2, m2)" by force
  obtain c1' m3 where 3: "client_close c1 m2 = (c1', m3)" by force
  obtain c3 m4 where 4: "client_init True (PInt 1) PNone m3 = (c3, m4)" by force
  have "module_ok \<lparr>global_batcher = None, objects = []\<rparr>" by (simp add: module_ok_def)
  from close_shuts_down_shared_batcher [OF this _ 1 2 3 4] 1 2 3 show ?thesis by auto
qed

end
